theory Spec2Isabelle
  imports Main "HOL-Library.Signed_Division" "HOL-Library.List_Lexorder" "HOL-Library.Char_ord"
begin

section \<open>The typed syntax tree read by the checker\<close>

text \<open>
  The checker of \<^verbatim>\<open>libsolidity/formal/SMTChecker.cpp\<close> is a visitor over the typed syntax
  tree of a source unit.  The tree classes are declared outside that file; they are modelled here
  with the accessors the checker calls.  A node is identified by its id: the C++ maps and sets
  keyed by node addresses are keyed by ids here, and iterate in the order of the ids.
\<close>

type_synonym location = "nat \<times> nat"

datatype function_kind =
    Kind_Internal | Kind_Assert | Kind_Require | Kind_GasLeft
  | Kind_KECCAK256 | Kind_ECRecover | Kind_SHA256 | Kind_RIPEMD160
  | Kind_BlockHash | Kind_AddMod | Kind_MulMod | Kind_Other

datatype category =
    Category_Integer | Category_RationalNumber | Category_Bool | Category_Address
  | Category_Mapping | Category_Function | Category_Magic | Category_Other

text \<open>
  A type of the source language.  \<open>FunctionType kind bound n rich\<close> carries the kind of the
  function, whether it is bound to a receiver, the number of its return types and its
  \<^verbatim>\<open>richIdentifier()\<close>; \<open>OtherType v\<close> is any type the checker has no case for, with its
  \<^verbatim>\<open>isValueType()\<close>.
\<close>

datatype sol_type =
    IntegerType nat bool
  | AddressType
  | BoolType
  | RationalNumberType
  | MappingType sol_type sol_type
  | FunctionType function_kind bool nat string
  | MagicType
  | OtherType bool

fun category_of :: "sol_type \<Rightarrow> category" where
  "category_of (IntegerType _ _) = Category_Integer"
| "category_of AddressType = Category_Address"
| "category_of BoolType = Category_Bool"
| "category_of RationalNumberType = Category_RationalNumber"
| "category_of (MappingType _ _) = Category_Mapping"
| "category_of (FunctionType _ _ _ _) = Category_Function"
| "category_of MagicType = Category_Magic"
| "category_of (OtherType _) = Category_Other"

fun isValueType :: "sol_type \<Rightarrow> bool" where
  "isValueType (IntegerType _ _) = True"
| "isValueType AddressType = True"
| "isValueType BoolType = True"
| "isValueType RationalNumberType = False"
| "isValueType (MappingType _ _) = False"
| "isValueType (FunctionType _ _ _ _) = True"
| "isValueType MagicType = False"
| "isValueType (OtherType v) = v"

datatype token =
    Token_Assign | Token_AssignBitOr | Token_AssignBitXor | Token_AssignBitAnd
  | Token_AssignShl | Token_AssignSar | Token_AssignShr
  | Token_AssignAdd | Token_AssignSub | Token_AssignMul | Token_AssignDiv | Token_AssignMod
  | Token_Or | Token_And | Token_BitOr | Token_BitXor | Token_BitAnd
  | Token_SHL | Token_SAR | Token_SHR
  | Token_Add | Token_Sub | Token_Mul | Token_Div | Token_Mod | Token_Exp
  | Token_Equal | Token_NotEqual | Token_LessThan | Token_GreaterThan
  | Token_LessThanOrEqual | Token_GreaterThanOrEqual
  | Token_Not | Token_BitNot | Token_Inc | Token_Dec | Token_Delete
  | Token_TrueLiteral | Token_FalseLiteral | Token_Number | Token_StringLiteral

text \<open>Modelled from the spec: the token classes of \<^verbatim>\<open>TokenTraits\<close> (section 4.4 names the
  arithmetic, comparison and boolean operators).\<close>

definition isArithmeticOp :: "token \<Rightarrow> bool" where
  "isArithmeticOp t \<longleftrightarrow>
     t \<in> {Token_Add, Token_Sub, Token_Mul, Token_Div, Token_Mod, Token_Exp}"

definition isCompareOp :: "token \<Rightarrow> bool" where
  "isCompareOp t \<longleftrightarrow>
     t \<in> {Token_Equal, Token_NotEqual, Token_LessThan, Token_GreaterThan,
          Token_LessThanOrEqual, Token_GreaterThanOrEqual}"

definition isBooleanOp :: "token \<Rightarrow> bool" where
  "isBooleanOp t \<longleftrightarrow> t \<in> {Token_Or, Token_And}"

record variable_declaration =
  vd_id :: nat
  vd_name :: string
  vd_type :: sol_type
  vd_location :: location
  isLocalVariable :: bool
  isStateVariable :: bool

text \<open>The part every expression node has: its id, its location and its annotation.\<close>

record expr_ann =
  node_id :: nat
  node_location :: location
  node_type :: sol_type
  lValueRequested :: bool

datatype call_kind = Call_Unset | Call_FunctionCall | Call_TypeConversion | Call_StructConstructorCall

record fun_ann =
  fd_id :: nat
  fd_location :: location
  isConstructor :: bool
  parameters :: "variable_declaration list"
  returnParameterList :: "variable_declaration list option"
  localVariables :: "variable_declaration list"

text \<open>
  Expressions, statements and function definitions.  An identifier or member access carries the
  declaration it refers to; a reference to a function carries the function's definition, so that
  a call can be inlined.  A recursive call is a reference to a definition with the id of a
  function that is being visited.  \<open>OtherExpression\<close> and \<open>OtherStatement\<close> stand for the node
  kinds the checker has no handler for (conditionals, \<^verbatim>\<open>new\<close>, \<^verbatim>\<open>emit\<close>, \<^verbatim>\<open>break\<close>, ...):
  the default visitor only descends into their children.
\<close>

datatype expression =
    Literal expr_ann token int
  | Identifier expr_ann string referenced
  | UnaryOperation expr_ann token bool expression
  | BinaryOperation expr_ann token "sol_type option" expression expression
  | Assignment expr_ann token expression expression
  | TupleExpression expr_ann bool "expression option list"
  | FunctionCall expr_ann call_kind expression "expression list"
  | MemberAccess expr_ann string referenced expression
  | IndexAccess expr_ann expression "expression option"
  | OtherExpression expr_ann "expression list"
and referenced =
    VariableRef variable_declaration
  | FunctionRef function_definition
  | OtherDeclaration
and statement =
    Block location "statement list"
  | IfStatement location expression statement "statement option"
  | WhileStatement location bool expression statement
  | ForStatement location "statement option" "expression option" "statement option" statement
  | VariableDeclarationStatement location "variable_declaration option list" "expression option"
  | ExpressionStatement location expression
  | Return location "expression option"
  | OtherStatement location "expression list"
and function_definition =
    FunctionDefinition fun_ann "expression list" "statement option"

fun ann :: "expression \<Rightarrow> expr_ann" where
  "ann (Literal a _ _) = a"
| "ann (Identifier a _ _) = a"
| "ann (UnaryOperation a _ _ _) = a"
| "ann (BinaryOperation a _ _ _ _) = a"
| "ann (Assignment a _ _ _) = a"
| "ann (TupleExpression a _ _) = a"
| "ann (FunctionCall a _ _ _) = a"
| "ann (MemberAccess a _ _ _) = a"
| "ann (IndexAccess a _ _) = a"
| "ann (OtherExpression a _) = a"

fun fun_info :: "function_definition \<Rightarrow> fun_ann" where
  "fun_info (FunctionDefinition a _ _) = a"

fun fun_modifiers :: "function_definition \<Rightarrow> expression list" where
  "fun_modifiers (FunctionDefinition _ ms _) = ms"

fun fun_body :: "function_definition \<Rightarrow> statement option" where
  "fun_body (FunctionDefinition _ _ b) = b"

definition isImplemented :: "function_definition \<Rightarrow> bool" where
  "isImplemented f \<longleftrightarrow> fun_body f \<noteq> None"

definition returnParameters :: "fun_ann \<Rightarrow> variable_declaration list" where
  "returnParameters f = (case returnParameterList f of None \<Rightarrow> [] | Some ps \<Rightarrow> ps)"


section \<open>Solver terms and the solver interface\<close>

text \<open>
  Modelled from the spec: the terms of \<^verbatim>\<open>smt::Expression\<close> (section 1: integers, booleans and
  arrays; section 4.4: the operators the encoder applies) and their solver names (section 4.6).
  \<open>Smt_Var n i\<close> is the term of the symbolic variable \<open>n\<close> at the SSA index \<open>i\<close>.
\<close>

datatype smt_expr =
    Smt_Bool bool
  | Smt_Int int
  | Smt_Var string nat
  | Smt_Apply smt_expr "smt_expr list"
  | Smt_Ite smt_expr smt_expr smt_expr
  | Smt_Implies smt_expr smt_expr
  | Smt_Not smt_expr
  | Smt_And smt_expr smt_expr
  | Smt_Or smt_expr smt_expr
  | Smt_Eq smt_expr smt_expr
  | Smt_Lt smt_expr smt_expr
  | Smt_Le smt_expr smt_expr
  | Smt_Gt smt_expr smt_expr
  | Smt_Ge smt_expr smt_expr
  | Smt_Add smt_expr smt_expr
  | Smt_Sub smt_expr smt_expr
  | Smt_Mul smt_expr smt_expr
  | Smt_Div smt_expr smt_expr
  | Smt_Select smt_expr smt_expr
  | Smt_Store smt_expr smt_expr smt_expr

definition smt_neq :: "smt_expr \<Rightarrow> smt_expr \<Rightarrow> smt_expr" where
  "smt_neq a b = Smt_Not (Smt_Eq a b)"

fun to_string :: "nat \<Rightarrow> string" where
  "to_string n =
     (if n < 10 then [''0123456789'' ! n]
      else to_string (n div 10) @ [''0123456789'' ! (n mod 10)])"

declare to_string.simps [simp del]

definition int_to_string :: "int \<Rightarrow> string" where
  "int_to_string i = (if i < 0 then ''-'' @ to_string (nat (- i)) else to_string (nat i))"

fun expr_name :: "smt_expr \<Rightarrow> string" where
  "expr_name (Smt_Bool b) = (if b then ''true'' else ''false'')"
| "expr_name (Smt_Int i) = int_to_string i"
| "expr_name (Smt_Var n i) = n @ ''_'' @ to_string i"
| "expr_name (Smt_Apply f _) = expr_name f"
| "expr_name (Smt_Ite _ _ _) = ''ite''"
| "expr_name (Smt_Implies _ _) = ''=>''"
| "expr_name (Smt_Not _) = ''not''"
| "expr_name (Smt_And _ _) = ''and''"
| "expr_name (Smt_Or _ _) = ''or''"
| "expr_name (Smt_Eq _ _) = ''=''"
| "expr_name (Smt_Lt _ _) = ''<''"
| "expr_name (Smt_Le _ _) = ''<=''"
| "expr_name (Smt_Gt _ _) = ''>''"
| "expr_name (Smt_Ge _ _) = ''>=''"
| "expr_name (Smt_Add _ _) = ''+''"
| "expr_name (Smt_Sub _ _) = ''-''"
| "expr_name (Smt_Mul _ _) = ''*''"
| "expr_name (Smt_Div _ _) = ''/''"
| "expr_name (Smt_Select _ _) = ''select''"
| "expr_name (Smt_Store _ _ _) = ''store''"

text \<open>
  Modelled from the spec (section 4.4, integer division semantics): the value of a term of
  integers and booleans under a valuation of the variables.  The solver's division rounds
  toward minus infinity, as \<open>div\<close> on \<open>int\<close> does; a division by zero, an array term and an
  application have no value here.
\<close>

datatype smt_value = IntV int | BoolV bool

fun int_op :: "(int \<Rightarrow> int \<Rightarrow> smt_value option) \<Rightarrow> smt_value option \<Rightarrow> smt_value option
    \<Rightarrow> smt_value option" where
  "int_op f (Some (IntV a)) (Some (IntV b)) = f a b"
| "int_op f _ _ = None"

fun bool_op :: "(bool \<Rightarrow> bool \<Rightarrow> bool) \<Rightarrow> smt_value option \<Rightarrow> smt_value option
    \<Rightarrow> smt_value option" where
  "bool_op f (Some (BoolV a)) (Some (BoolV b)) = Some (BoolV (f a b))"
| "bool_op f _ _ = None"

fun eval :: "(string \<Rightarrow> nat \<Rightarrow> smt_value) \<Rightarrow> smt_expr \<Rightarrow> smt_value option" where
  "eval \<sigma> (Smt_Bool b) = Some (BoolV b)"
| "eval \<sigma> (Smt_Int i) = Some (IntV i)"
| "eval \<sigma> (Smt_Var n i) = Some (\<sigma> n i)"
| "eval \<sigma> (Smt_Apply _ _) = None"
| "eval \<sigma> (Smt_Ite c a b) =
     (case eval \<sigma> c of Some (BoolV t) \<Rightarrow> if t then eval \<sigma> a else eval \<sigma> b | _ \<Rightarrow> None)"
| "eval \<sigma> (Smt_Implies a b) = bool_op (\<lambda>x y. x \<longrightarrow> y) (eval \<sigma> a) (eval \<sigma> b)"
| "eval \<sigma> (Smt_Not a) = (case eval \<sigma> a of Some (BoolV t) \<Rightarrow> Some (BoolV (\<not> t)) | _ \<Rightarrow> None)"
| "eval \<sigma> (Smt_And a b) = bool_op (\<lambda>x y. x \<and> y) (eval \<sigma> a) (eval \<sigma> b)"
| "eval \<sigma> (Smt_Or a b) = bool_op (\<lambda>x y. x \<or> y) (eval \<sigma> a) (eval \<sigma> b)"
| "eval \<sigma> (Smt_Eq a b) =
     (case (eval \<sigma> a, eval \<sigma> b) of
        (Some (IntV x), Some (IntV y)) \<Rightarrow> Some (BoolV (x = y))
      | (Some (BoolV x), Some (BoolV y)) \<Rightarrow> Some (BoolV (x = y))
      | _ \<Rightarrow> None)"
| "eval \<sigma> (Smt_Lt a b) = int_op (\<lambda>x y. Some (BoolV (x < y))) (eval \<sigma> a) (eval \<sigma> b)"
| "eval \<sigma> (Smt_Le a b) = int_op (\<lambda>x y. Some (BoolV (x \<le> y))) (eval \<sigma> a) (eval \<sigma> b)"
| "eval \<sigma> (Smt_Gt a b) = int_op (\<lambda>x y. Some (BoolV (x > y))) (eval \<sigma> a) (eval \<sigma> b)"
| "eval \<sigma> (Smt_Ge a b) = int_op (\<lambda>x y. Some (BoolV (x \<ge> y))) (eval \<sigma> a) (eval \<sigma> b)"
| "eval \<sigma> (Smt_Add a b) = int_op (\<lambda>x y. Some (IntV (x + y))) (eval \<sigma> a) (eval \<sigma> b)"
| "eval \<sigma> (Smt_Sub a b) = int_op (\<lambda>x y. Some (IntV (x - y))) (eval \<sigma> a) (eval \<sigma> b)"
| "eval \<sigma> (Smt_Mul a b) = int_op (\<lambda>x y. Some (IntV (x * y))) (eval \<sigma> a) (eval \<sigma> b)"
| "eval \<sigma> (Smt_Div a b) =
     int_op (\<lambda>x y. if y = 0 then None else Some (IntV (x div y))) (eval \<sigma> a) (eval \<sigma> b)"
| "eval \<sigma> (Smt_Select _ _) = None"
| "eval \<sigma> (Smt_Store _ _ _) = None"

text \<open>
  Modelled from the spec (section 4.1): the solver interface.  The state of the solver is the
  history of the calls made on it; the backend answers a \<^verbatim>\<open>check\<close> from that history,
  or fails with a solver error.
\<close>

datatype check_result = SATISFIABLE | UNSATISFIABLE | UNKNOWN | CONFLICTING | ERROR

datatype solver_call =
    Solver_reset
  | Solver_push
  | Solver_pop
  | Solver_addAssertion smt_expr
  | Solver_check "smt_expr list"

datatype check_response = Response check_result "string list" | SolverError "string option"

record solver =
  calls :: "solver_call list"
  backend :: "solver_call list \<Rightarrow> check_response"

text \<open>
  The assertions the solver holds after a history of calls, one list for each open scope with
  the innermost first: \<^verbatim>\<open>pop\<close> reverts the assertions added since the matching
  \<^verbatim>\<open>push\<close>, \<^verbatim>\<open>reset\<close> discards everything.
\<close>

fun scopes_step :: "smt_expr list list \<Rightarrow> solver_call \<Rightarrow> smt_expr list list" where
  "scopes_step sc Solver_reset = [[]]"
| "scopes_step sc Solver_push = [] # sc"
| "scopes_step sc Solver_pop = (case sc of _ # b # r \<Rightarrow> b # r | _ \<Rightarrow> sc)"
| "scopes_step sc (Solver_addAssertion e) = (case sc of [] \<Rightarrow> [[e]] | a # r \<Rightarrow> (a @ [e]) # r)"
| "scopes_step sc (Solver_check _) = sc"

definition scopes :: "solver_call list \<Rightarrow> smt_expr list list" where
  "scopes cs = foldl scopes_step [[]] cs"

definition active_assertions :: "solver_call list \<Rightarrow> smt_expr set" where
  "active_assertions cs = set (concat (scopes cs))"

definition depth :: "solver_call list \<Rightarrow> nat" where
  "depth cs = length (scopes cs) - 1"

section \<open>Symbolic variables\<close>

text \<open>
  Modelled from the spec (section 3): a symbolic variable is a name with a sort and an SSA index
  that starts at 0; \<^verbatim>\<open>increaseIndex()\<close> moves the variable to an index that was never
  handed out before (the indices are monotonically increasing, and the index after a merge is
  greater than the indices of both branches), so the variable keeps its next free index beside
  its current one: \<^verbatim>\<open>resetVariableIndices\<close> writes the current index only.
\<close>

record symbolic_variable =
  sv_type :: sol_type
  sv_name :: string
  sv_index :: nat
  sv_nextFreeIndex :: nat

definition valueAtIndex_of :: "symbolic_variable \<Rightarrow> nat \<Rightarrow> smt_expr" where
  "valueAtIndex_of v i = Smt_Var (sv_name v) i"

definition currentValue_of :: "symbolic_variable \<Rightarrow> smt_expr" where
  "currentValue_of v = valueAtIndex_of v (sv_index v)"

definition increaseIndex :: "symbolic_variable \<Rightarrow> symbolic_variable" where
  "increaseIndex v = v\<lparr>sv_index := sv_nextFreeIndex v, sv_nextFreeIndex := Suc (sv_nextFreeIndex v)\<rparr>"

text \<open>Modelled from the spec (sections 4.2 and 4.4): the sorts of the source types.  A rational
  number type is the type of a numeric literal.\<close>

definition isInteger :: "category \<Rightarrow> bool" where
  "isInteger c \<longleftrightarrow> c = Category_Integer"

definition isNumber :: "category \<Rightarrow> bool" where
  "isNumber c \<longleftrightarrow> c \<in> {Category_Integer, Category_RationalNumber, Category_Address}"

definition isBool :: "category \<Rightarrow> bool" where
  "isBool c \<longleftrightarrow> c = Category_Bool"

definition isFunction :: "category \<Rightarrow> bool" where
  "isFunction c \<longleftrightarrow> c = Category_Function"

definition isSupportedType :: "category \<Rightarrow> bool" where
  "isSupportedType c \<longleftrightarrow> isNumber c \<or> isBool c \<or> c = Category_Mapping"

definition newSymbolicVariable :: "sol_type \<Rightarrow> string \<Rightarrow> bool \<times> symbolic_variable" where
  "newSymbolicVariable t n =
     (if isSupportedType (category_of t) \<or> isFunction (category_of t)
      then (False, \<lparr>sv_type = t, sv_name = n, sv_index = 0, sv_nextFreeIndex = 1\<rparr>)
      else (True, \<lparr>sv_type = IntegerType 256 False, sv_name = n, sv_index = 0,
                   sv_nextFreeIndex = 1\<rparr>))"

definition minValue :: "nat \<Rightarrow> bool \<Rightarrow> int" where
  "minValue bits signed = (if signed then - (2 ^ (bits - 1)) else 0)"

definition maxValue :: "nat \<Rightarrow> bool \<Rightarrow> int" where
  "maxValue bits signed = (if signed then 2 ^ (bits - 1) - 1 else 2 ^ bits - 1)"


section \<open>The state of the checker\<close>

text \<open>
  A failed \<^verbatim>\<open>solAssert\<close> throws an internal compiler error, a failed
  \<^verbatim>\<open>solUnimplementedAssert\<close> an unimplemented feature error, \<^verbatim>\<open>map::at\<close> on a missing key
  an out-of-range error, a failed reference cast a bad cast; a null pointer that is read is a
  null dereference.  None of them is caught in the checker: each ends the analysis.
\<close>

datatype error =
  InternalCompilerError | UnimplementedFeatureError | OutOfRange | BadCast | NullDereference

datatype warning = Warning "location option" string "(string \<times> location option) list"

text \<open>Library routines the checker calls and whose code is outside the file.\<close>

record library =
  formatNumberReadable :: "int \<Rightarrow> string"
  bigint :: "string \<Rightarrow> int option"
  typeToString :: "sol_type \<Rightarrow> string"

type_synonym variable_indices = "(nat \<times> nat) list"

record checker =
  m_interface :: solver
  m_errorReporter :: "warning list"
  m_variables :: "(nat \<times> variable_declaration \<times> symbolic_variable) list"
  m_expressions :: "nat \<Rightarrow> symbolic_variable option"
  m_globalContext :: "(string \<times> symbolic_variable) list"
  m_uninterpretedTerms :: "expr_ann list"
  m_pathConditions :: "smt_expr list"
  m_functionPath :: "fun_ann list"
  m_loopExecutionHappened :: bool
  m_arrayAssignmentHappened :: bool
  m_scanner :: "(location \<Rightarrow> string) option"
  m_library :: library

type_synonym 'a M = "checker \<Rightarrow> error + ('a \<times> checker)"

definition ret :: "'a \<Rightarrow> 'a M" where
  "ret x = (\<lambda>s. Inr (x, s))"

definition bind :: "'a M \<Rightarrow> ('a \<Rightarrow> 'b M) \<Rightarrow> 'b M" where
  "bind m f = (\<lambda>s. case m s of Inl e \<Rightarrow> Inl e | Inr (x, s') \<Rightarrow> f x s')"

definition seq :: "'a M \<Rightarrow> 'b M \<Rightarrow> 'b M" where
  "seq m n = bind m (\<lambda>_. n)"

definition throw :: "error \<Rightarrow> 'a M" where
  "throw e = (\<lambda>s. Inl e)"

definition gets :: "(checker \<Rightarrow> 'a) \<Rightarrow> 'a M" where
  "gets f = (\<lambda>s. Inr (f s, s))"

definition modify :: "(checker \<Rightarrow> checker) \<Rightarrow> unit M" where
  "modify f = (\<lambda>s. Inr ((), f s))"

definition whenM :: "bool \<Rightarrow> unit M \<Rightarrow> unit M" where
  "whenM b m = (if b then m else ret ())"

definition solAssert :: "bool \<Rightarrow> unit M" where
  "solAssert b = (if b then ret () else throw InternalCompilerError)"

fun forEach :: "'a list \<Rightarrow> ('a \<Rightarrow> unit M) \<Rightarrow> unit M" where
  "forEach [] f = ret ()"
| "forEach (x # xs) f = seq (f x) (forEach xs f)"

fun mapM :: "('a \<Rightarrow> 'b M) \<Rightarrow> 'a list \<Rightarrow> 'b list M" where
  "mapM f [] = ret []"
| "mapM f (x # xs) = bind (f x) (\<lambda>y. bind (mapM f xs) (\<lambda>ys. ret (y # ys)))"

subsection \<open>The error reporter and the solver\<close>

definition warning :: "location option \<Rightarrow> string \<Rightarrow> (string \<times> location option) list \<Rightarrow> unit M" where
  "warning l msg secondary =
     modify (\<lambda>s. s\<lparr>m_errorReporter := m_errorReporter s @ [Warning l msg secondary]\<rparr>)"

definition interface_call :: "solver_call \<Rightarrow> unit M" where
  "interface_call c =
     modify (\<lambda>s. s\<lparr>m_interface := (m_interface s)\<lparr>calls := calls (m_interface s) @ [c]\<rparr>\<rparr>)"

definition interface_reset :: "unit M" where
  "interface_reset = interface_call Solver_reset"

definition interface_push :: "unit M" where
  "interface_push = interface_call Solver_push"

definition interface_pop :: "unit M" where
  "interface_pop = interface_call Solver_pop"

definition addAssertion :: "smt_expr \<Rightarrow> unit M" where
  "addAssertion e = interface_call (Solver_addAssertion e)"

definition interface_check :: "smt_expr list \<Rightarrow> check_response M" where
  "interface_check es =
     seq (interface_call (Solver_check es))
         (gets (\<lambda>s. backend (m_interface s) (calls (m_interface s))))"

text \<open>Modelled from the spec (section 3): \<^verbatim>\<open>setZero\<close> asserts that the value is zero (false
  for a boolean), \<^verbatim>\<open>setUnknown\<close> asserts the bounds of an integer sort and nothing for other
  sorts; an address is an unsigned integer of 160 bits.\<close>

definition setSymbolicZeroValue :: "smt_expr \<Rightarrow> sol_type \<Rightarrow> unit M" where
  "setSymbolicZeroValue e t =
     (if isNumber (category_of t) then addAssertion (Smt_Eq e (Smt_Int 0))
      else if isBool (category_of t) then addAssertion (Smt_Eq e (Smt_Bool False))
      else ret ())"

definition setSymbolicUnknownValue :: "smt_expr \<Rightarrow> sol_type \<Rightarrow> unit M" where
  "setSymbolicUnknownValue e t =
     (case t of
        IntegerType bits signed \<Rightarrow>
          seq (addAssertion (Smt_Ge e (Smt_Int (minValue bits signed))))
              (addAssertion (Smt_Le e (Smt_Int (maxValue bits signed))))
      | AddressType \<Rightarrow>
          seq (addAssertion (Smt_Ge e (Smt_Int (minValue 160 False))))
              (addAssertion (Smt_Le e (Smt_Int (maxValue 160 False))))
      | _ \<Rightarrow> ret ())"

subsection \<open>Path conditions (lines 1303--1339)\<close>

definition isRootFunction :: "bool M" where
  "isRootFunction = gets (\<lambda>s. length (m_functionPath s) = 1)"

definition visitedFunction :: "fun_ann \<Rightarrow> bool M" where
  "visitedFunction f = gets (\<lambda>s. fd_id f \<in> fd_id ` set (m_functionPath s))"

definition currentPathConditions :: "smt_expr M" where
  "currentPathConditions =
     gets (\<lambda>s. if m_pathConditions s = [] then Smt_Bool True else last (m_pathConditions s))"

definition pushPathCondition :: "smt_expr \<Rightarrow> unit M" where
  "pushPathCondition e =
     bind currentPathConditions (\<lambda>c.
       modify (\<lambda>s. s\<lparr>m_pathConditions := m_pathConditions s @ [Smt_And c e]\<rparr>))"

definition popPathCondition :: "unit M" where
  "popPathCondition =
     seq (bind (gets (\<lambda>s. length (m_pathConditions s) > 0)) solAssert)
         (modify (\<lambda>s. s\<lparr>m_pathConditions := butlast (m_pathConditions s)\<rparr>))"

definition addPathConjoinedExpression :: "smt_expr \<Rightarrow> unit M" where
  "addPathConjoinedExpression e =
     bind currentPathConditions (\<lambda>c. addAssertion (Smt_And c e))"

definition addPathImpliedExpression :: "smt_expr \<Rightarrow> unit M" where
  "addPathImpliedExpression e =
     bind currentPathConditions (\<lambda>c. addAssertion (Smt_Implies c e))"

subsection \<open>Variables and their SSA indices (lines 1194--1257, 1341--1353)\<close>

definition update_variable ::
  "nat \<Rightarrow> (symbolic_variable \<Rightarrow> symbolic_variable)
     \<Rightarrow> (nat \<times> variable_declaration \<times> symbolic_variable) list
     \<Rightarrow> (nat \<times> variable_declaration \<times> symbolic_variable) list" where
  "update_variable k f vars = map (\<lambda>(k', d, v). if k' = k then (k', d, f v) else (k', d, v)) vars"

definition knownVariable :: "variable_declaration \<Rightarrow> bool M" where
  "knownVariable d = gets (\<lambda>s. map_of (m_variables s) (vd_id d) \<noteq> None)"

definition variable_at :: "nat \<Rightarrow> symbolic_variable M" where
  "variable_at k =
     bind (gets (\<lambda>s. map_of (m_variables s) k))
       (\<lambda>r. case r of None \<Rightarrow> throw OutOfRange | Some (_, v) \<Rightarrow> ret v)"

definition currentValue :: "variable_declaration \<Rightarrow> smt_expr M" where
  "currentValue d =
     seq (bind (knownVariable d) solAssert)
         (bind (variable_at (vd_id d)) (\<lambda>v. ret (currentValue_of v)))"

definition valueAtIndex :: "variable_declaration \<Rightarrow> nat \<Rightarrow> smt_expr M" where
  "valueAtIndex d i =
     seq (bind (knownVariable d) solAssert)
         (bind (variable_at (vd_id d)) (\<lambda>v. ret (valueAtIndex_of v i)))"

definition newValue :: "variable_declaration \<Rightarrow> smt_expr M" where
  "newValue d =
     seq (bind (knownVariable d) solAssert)
    (seq (modify (\<lambda>s. s\<lparr>m_variables := update_variable (vd_id d) increaseIndex (m_variables s)\<rparr>))
         (bind (variable_at (vd_id d)) (\<lambda>v. ret (currentValue_of v))))"

definition setZeroValue_of :: "symbolic_variable \<Rightarrow> unit M" where
  "setZeroValue_of v = setSymbolicZeroValue (currentValue_of v) (sv_type v)"

definition setZeroValue :: "variable_declaration \<Rightarrow> unit M" where
  "setZeroValue d =
     seq (bind (knownVariable d) solAssert) (bind (variable_at (vd_id d)) setZeroValue_of)"

definition setUnknownValue_of :: "symbolic_variable \<Rightarrow> unit M" where
  "setUnknownValue_of v = setSymbolicUnknownValue (currentValue_of v) (sv_type v)"

definition setUnknownValue :: "variable_declaration \<Rightarrow> unit M" where
  "setUnknownValue d =
     seq (bind (knownVariable d) solAssert) (bind (variable_at (vd_id d)) setUnknownValue_of)"

definition createVariable :: "variable_declaration \<Rightarrow> bool M" where
  "createVariable d =
     bind (knownVariable d) (\<lambda>known.
       if known then ret True
       else (case newSymbolicVariable (vd_type d) (vd_name d @ ''_'' @ to_string (vd_id d)) of
               (abstract, v) \<Rightarrow>
                 seq (modify (\<lambda>s. s\<lparr>m_variables := insort_key fst (vd_id d, d, v) (m_variables s)\<rparr>))
                     (if abstract
                      then seq (warning (Some (vd_location d))
                                  ''Assertion checker does not yet support the type of this variable.'' [])
                               (ret False)
                      else ret True)))"

definition copyVariableIndices :: "variable_indices M" where
  "copyVariableIndices = gets (\<lambda>s. map (\<lambda>(k, d, v). (k, sv_index v)) (m_variables s))"

definition resetVariableIndices :: "variable_indices \<Rightarrow> unit M" where
  "resetVariableIndices indices =
     forEach indices (\<lambda>(k, i).
       bind (variable_at k) (\<lambda>_.
         modify (\<lambda>s. s\<lparr>m_variables := update_variable k (\<lambda>v. v\<lparr>sv_index := i\<rparr>) (m_variables s)\<rparr>)))"

definition removeLocalVariables :: "unit M" where
  "removeLocalVariables =
     modify (\<lambda>s. s\<lparr>m_variables := filter (\<lambda>(k, d, v). \<not> isLocalVariable d) (m_variables s)\<rparr>)"

definition resetStateVariables :: "unit M" where
  "resetStateVariables =
     bind (gets m_variables) (\<lambda>vars.
       forEach vars (\<lambda>(k, d, v).
         whenM (isStateVariable d) (seq (newValue d) (setUnknownValue d))))"

definition resetVariables :: "variable_declaration list \<Rightarrow> unit M" where
  "resetVariables vars = forEach vars (\<lambda>d. seq (newValue d) (setUnknownValue d))"

definition initializeLocalVariables :: "fun_ann \<Rightarrow> unit M" where
  "initializeLocalVariables f =
     seq (forEach (localVariables f) (\<lambda>d.
            bind (createVariable d) (\<lambda>ok. whenM ok (setZeroValue d))))
    (seq (forEach (parameters f) (\<lambda>d.
            bind (createVariable d) (\<lambda>ok. whenM ok (setUnknownValue d))))
         (case returnParameterList f of
            None \<Rightarrow> ret ()
          | Some ps \<Rightarrow> forEach ps (\<lambda>d. bind (createVariable d) (\<lambda>ok. whenM ok (setZeroValue d)))))"

text \<open>The variables of a \<^verbatim>\<open>std::set\<close> of declarations, in the order of the set.\<close>

definition uniqueVars :: "variable_declaration list \<Rightarrow> variable_declaration list" where
  "uniqueVars vars =
     foldl (\<lambda>acc d. if vd_id d \<in> vd_id ` set acc then acc else insort_key vd_id d acc) [] vars"

definition mergeVariables ::
  "variable_declaration list \<Rightarrow> smt_expr \<Rightarrow> variable_indices \<Rightarrow> variable_indices \<Rightarrow> unit M" where
  "mergeVariables vars condition indicesEndTrue indicesEndFalse =
     forEach (uniqueVars vars) (\<lambda>d.
       case (map_of indicesEndTrue (vd_id d), map_of indicesEndFalse (vd_id d)) of
         (Some trueIndex, Some falseIndex) \<Rightarrow>
           seq (solAssert (trueIndex \<noteq> falseIndex))
               (bind (newValue d) (\<lambda>new.
                bind (valueAtIndex d trueIndex) (\<lambda>t.
                bind (valueAtIndex d falseIndex) (\<lambda>f.
                  addAssertion (Smt_Eq new (Smt_Ite condition t f))))))
       | _ \<Rightarrow> throw InternalCompilerError)"

subsection \<open>Expressions and globals (lines 1259--1301, 721--754)\<close>

definition knownExpr :: "expr_ann \<Rightarrow> bool M" where
  "knownExpr a = gets (\<lambda>s. m_expressions s (node_id a) \<noteq> None)"

definition createExpr :: "expr_ann \<Rightarrow> unit M" where
  "createExpr a =
     bind (gets (\<lambda>s. m_expressions s (node_id a))) (\<lambda>r.
       case r of
         Some v \<Rightarrow>
           modify (\<lambda>s. s\<lparr>m_expressions := (m_expressions s)(node_id a \<mapsto> increaseIndex v)\<rparr>)
       | None \<Rightarrow>
           (case newSymbolicVariable (node_type a) (''expr_'' @ to_string (node_id a)) of
              (abstract, v) \<Rightarrow>
                seq (modify (\<lambda>s. s\<lparr>m_expressions := (m_expressions s)(node_id a \<mapsto> v)\<rparr>))
                    (whenM abstract
                       (warning (Some (node_location a))
                          ''Assertion checker does not yet implement this type.'' []))))"

definition expr :: "expr_ann \<Rightarrow> smt_expr M" where
  "expr a =
     seq (bind (knownExpr a) (\<lambda>known.
            whenM (\<not> known)
              (seq (warning (Some (node_location a))
                      ''Internal error: Expression undefined for SMT solver.'' [])
                   (createExpr a))))
         (bind (gets (\<lambda>s. m_expressions s (node_id a)))
            (\<lambda>r. case r of None \<Rightarrow> throw OutOfRange | Some v \<Rightarrow> ret (currentValue_of v)))"

definition defineExpr :: "expr_ann \<Rightarrow> smt_expr \<Rightarrow> unit M" where
  "defineExpr a v =
     seq (createExpr a)
    (seq (solAssert (isSupportedType (category_of (node_type a))))
         (bind (expr a) (\<lambda>e. addAssertion (Smt_Eq e v))))"

definition knownGlobalSymbol :: "string \<Rightarrow> bool M" where
  "knownGlobalSymbol n = gets (\<lambda>s. map_of (m_globalContext s) n \<noteq> None)"

definition global_at :: "string \<Rightarrow> symbolic_variable M" where
  "global_at n =
     bind (gets (\<lambda>s. map_of (m_globalContext s) n))
       (\<lambda>r. case r of None \<Rightarrow> throw OutOfRange | Some v \<Rightarrow> ret v)"

definition update_global ::
  "string \<Rightarrow> (symbolic_variable \<Rightarrow> symbolic_variable) \<Rightarrow> (string \<times> symbolic_variable) list
     \<Rightarrow> (string \<times> symbolic_variable) list" where
  "update_global n f gs = map (\<lambda>(n', v). if n' = n then (n', f v) else (n', v)) gs"

definition defineGlobalVariable :: "string \<Rightarrow> expr_ann \<Rightarrow> bool \<Rightarrow> unit M" where
  "defineGlobalVariable n a increase =
     bind (knownGlobalSymbol n) (\<lambda>known.
       seq (if \<not> known
            then (case newSymbolicVariable (node_type a) n of
                    (abstract, v) \<Rightarrow>
                      seq (modify (\<lambda>s. s\<lparr>m_globalContext := insort_key fst (n, v) (m_globalContext s)\<rparr>))
                     (seq (setUnknownValue_of v)
                          (whenM abstract
                             (warning (Some (node_location a))
                                ''Assertion checker does not yet support this global variable.'' []))))
            else whenM increase
                   (modify (\<lambda>s. s\<lparr>m_globalContext := update_global n increaseIndex (m_globalContext s)\<rparr>)))
           (whenM (isSupportedType (category_of (node_type a)))
              (bind (global_at n) (\<lambda>v. defineExpr a (currentValue_of v)))))"

definition defineGlobalFunction :: "string \<Rightarrow> expr_ann \<Rightarrow> unit M" where
  "defineGlobalFunction n a =
     bind (knownGlobalSymbol n) (\<lambda>known.
       whenM (\<not> known)
         (case newSymbolicVariable (node_type a) n of
            (abstract, v) \<Rightarrow>
              seq (modify (\<lambda>s. s\<lparr>m_globalContext := insort_key fst (n, v) (m_globalContext s)\<rparr>))
                  (whenM abstract
                     (warning (Some (node_location a))
                        ''Assertion checker does not yet support the type of this function.'' []))))"

section \<open>Verification goals (lines 301--317, 909--1099)\<close>

definition checkSatisfiableAndGenerateModel ::
  "smt_expr list \<Rightarrow> (check_result \<times> string list) M" where
  "checkSatisfiableAndGenerateModel expressionsToEvaluate =
     bind (interface_check expressionsToEvaluate) (\<lambda>r.
     bind (gets m_library) (\<lambda>lib.
       case r of
         Response result values \<Rightarrow>
           ret (result,
                map (\<lambda>v. case bigint lib v of Some n \<Rightarrow> formatNumberReadable lib n | None \<Rightarrow> v)
                    values)
       | SolverError comment \<Rightarrow>
           seq (warning None
                  (''Error querying SMT solver'' @
                     (case comment of Some c \<Rightarrow> '': '' @ c | None \<Rightarrow> [])) [])
               (ret (ERROR, []))))"

definition checkSatisfiable :: "check_result M" where
  "checkSatisfiable = bind (checkSatisfiableAndGenerateModel []) (\<lambda>r. ret (fst r))"

text \<open>The terms a goal asks the solver to evaluate, each with the name it is printed under
  (lines 920--958).\<close>

definition expressionsToEvaluate :: "string \<Rightarrow> smt_expr option \<Rightarrow> (smt_expr \<times> string) list M" where
  "expressionsToEvaluate additionalValueName additionalValue =
     bind (gets m_scanner) (\<lambda>scanner.
       case scanner of
         None \<Rightarrow> throw InternalCompilerError
       | Some sourceAt \<Rightarrow>
           bind (gets m_variables) (\<lambda>vars.
           bind (gets m_globalContext) (\<lambda>globals.
           bind (gets m_uninterpretedTerms) (\<lambda>ufs.
           bind (mapM (\<lambda>uf. bind (expr uf) (\<lambda>e. ret (e, sourceAt (node_location uf))))
                   (filter (\<lambda>uf. isValueType (node_type uf)) ufs)) (\<lambda>ufTerms.
             ret ((case additionalValue of Some v \<Rightarrow> [(v, additionalValueName)] | None \<Rightarrow> [])
                  @ map (\<lambda>(k, d, v). (currentValue_of v, vd_name d))
                      (filter (\<lambda>(k, d, v). isValueType (vd_type d)) vars)
                  @ map (\<lambda>(n, v). (currentValue_of v, n))
                      (filter (\<lambda>(n, v). isValueType (sv_type v)
                                 \<and> \<not> isFunction (category_of (sv_type v))) globals)
                  @ ufTerms))))))"

fun map_assign :: "string \<Rightarrow> string \<Rightarrow> (string \<times> string) list \<Rightarrow> (string \<times> string) list" where
  "map_assign k v [] = [(k, v)]"
| "map_assign k v ((k', v') # r) =
     (if k = k' then (k, v) # r
      else if k < k' then (k, v) # (k', v') # r
      else (k', v') # map_assign k v r)"

definition modelMessage :: "(smt_expr \<times> string) list \<Rightarrow> string list \<Rightarrow> string" where
  "modelMessage evals values =
     ''  for:\<newline>'' @
     concat (map (\<lambda>(k, v). ''  '' @ k @ '' = '' @ v @ ''\<newline>'')
       (foldl (\<lambda>sortedModel ((e, n), v). if expr_name e \<noteq> v then map_assign n v sortedModel
                                          else sortedModel)
          [] (zip evals values)))"

definition loopComment :: "checker \<Rightarrow> string" where
  "loopComment s =
     (if m_loopExecutionHappened s
      then ''\<newline>Note that some information is erased after the execution of loops.\<newline>You can re-introduce information using require().''
      else []) @
     (if m_arrayAssignmentHappened s
      then ''\<newline>Note that array aliasing is not supported, therefore all mapping information is erased after a mapping local variable/parameter is assigned.\<newline>You can re-introduce information using require().''
      else [])"

definition checkCondition ::
  "smt_expr \<Rightarrow> location \<Rightarrow> string \<Rightarrow> string \<Rightarrow> smt_expr option \<Rightarrow> unit M" where
  "checkCondition condition loc description additionalValueName additionalValue =
     seq interface_push
    (seq (addPathConjoinedExpression condition)
    (bind (gets (\<lambda>s. m_functionPath s \<noteq> [])) (\<lambda>inFunction.
     bind (if inFunction then expressionsToEvaluate additionalValueName additionalValue
           else ret []) (\<lambda>evals.
     bind (checkSatisfiableAndGenerateModel (map fst evals)) (\<lambda>r.
     bind (gets loopComment) (\<lambda>comment.
     seq (case fst r of
            SATISFIABLE \<Rightarrow>
              if inFunction
              then seq (solAssert (length (snd r) = length evals))
                       (warning (Some loc) (description @ '' happens here'')
                          [(modelMessage evals (snd r), None), (comment, None)])
              else warning (Some loc) (description @ '' happens here.'') [(comment, None)]
          | UNSATISFIABLE \<Rightarrow> ret ()
          | UNKNOWN \<Rightarrow>
              warning (Some loc) (description @ '' might happen here.'') [(comment, None)]
          | CONFLICTING \<Rightarrow>
              warning (Some loc)
                ''At least two SMT solvers provided conflicting answers. Results might not be sound.'' []
          | ERROR \<Rightarrow> warning (Some loc) ''Error trying to invoke SMT solver.'' [])
         interface_pop))))))"

definition checkUnderOverflow :: "smt_expr \<Rightarrow> nat \<Rightarrow> bool \<Rightarrow> location \<Rightarrow> unit M" where
  "checkUnderOverflow v bits signed loc =
     bind (gets m_library) (\<lambda>lib.
     seq (checkCondition (Smt_Lt v (Smt_Int (minValue bits signed))) loc
            (''Underflow (resulting value less than '' @
               formatNumberReadable lib (minValue bits signed) @ '')'')
            ''<result>'' (Some v))
         (checkCondition (Smt_Gt v (Smt_Int (maxValue bits signed))) loc
            (''Overflow (resulting value larger than '' @
               formatNumberReadable lib (maxValue bits signed) @ '')'')
            ''<result>'' (Some v)))"

function replace_all :: "string \<Rightarrow> string \<Rightarrow> string \<Rightarrow> string" where
  "replace_all [] pat rep = []"
| "replace_all (c # cs) pat rep =
     (if pat \<noteq> [] \<and> take (length pat) (c # cs) = pat
      then rep @ replace_all (drop (length pat) (c # cs)) pat rep
      else c # replace_all cs pat rep)"
  by pat_completeness auto
termination
  by (relation "measure (\<lambda>(s, pat, rep). length s)") auto

fun isLiteral :: "expression \<Rightarrow> bool" where
  "isLiteral (Literal _ _ _) = True"
| "isLiteral _ = False"

definition checkBooleanNotConstant :: "expression \<Rightarrow> string \<Rightarrow> unit M" where
  "checkBooleanNotConstant condition description =
     (if isLiteral condition then ret ()
      else
        seq interface_push
       (seq (bind (expr (ann condition)) addPathConjoinedExpression)
       (bind checkSatisfiable (\<lambda>positiveResult.
        seq interface_pop
       (seq interface_push
       (seq (bind (expr (ann condition)) (\<lambda>c. addPathConjoinedExpression (Smt_Not c)))
       (bind checkSatisfiable (\<lambda>negatedResult.
        seq interface_pop
         (if positiveResult = ERROR \<or> negatedResult = ERROR
          then warning (Some (node_location (ann condition)))
                 ''Error trying to invoke SMT solver.'' []
          else if positiveResult = CONFLICTING \<or> negatedResult = CONFLICTING
          then warning (Some (node_location (ann condition)))
                 ''At least two SMT solvers provided conflicting answers. Results might not be sound.'' []
          else if positiveResult = SATISFIABLE \<and> negatedResult = SATISFIABLE
          then ret ()
          else if positiveResult = UNKNOWN \<or> negatedResult = UNKNOWN
          then ret ()
          else if positiveResult = UNSATISFIABLE \<and> negatedResult = UNSATISFIABLE
          then warning (Some (node_location (ann condition))) ''Condition unreachable.'' []
          else
            bind (if positiveResult = SATISFIABLE
                  then seq (solAssert (negatedResult = UNSATISFIABLE)) (ret ''true'')
                  else seq (solAssert (positiveResult = UNSATISFIABLE))
                      (seq (solAssert (negatedResult = SATISFIABLE)) (ret ''false'')))
              (\<lambda>v. warning (Some (node_location (ann condition)))
                     (replace_all description ''$VALUE'' v) []))))))))))"

section \<open>The expression encoder\<close>

subsection \<open>Assignments (lines 255--284, 467--472, 689--719, 874--889)\<close>

definition eraseArrayKnowledge :: "unit M" where
  "eraseArrayKnowledge =
     bind (gets m_variables) (\<lambda>vars.
       forEach vars (\<lambda>(k, d, v).
         whenM (category_of (vd_type d) = Category_Mapping) (seq (newValue d) (ret ()))))"

definition arrayAssignment :: "unit M" where
  "arrayAssignment =
     seq (modify (\<lambda>s. s\<lparr>m_arrayAssignmentHappened := True\<rparr>)) eraseArrayKnowledge"

definition assignment :: "variable_declaration \<Rightarrow> smt_expr \<Rightarrow> location \<Rightarrow> unit M" where
  "assignment d v loc =
     seq (case vd_type d of
            IntegerType bits signed \<Rightarrow> checkUnderOverflow v bits signed loc
          | AddressType \<Rightarrow> checkUnderOverflow v 160 False loc
          | MappingType _ _ \<Rightarrow> arrayAssignment
          | _ \<Rightarrow> ret ())
         (bind (newValue d) (\<lambda>new. addAssertion (Smt_Eq new v)))"

definition assignment_of :: "variable_declaration \<Rightarrow> expression \<Rightarrow> location \<Rightarrow> unit M" where
  "assignment_of d e loc = bind (expr (ann e)) (\<lambda>v. assignment d v loc)"

definition arrayIndexAssignment :: "expr_ann \<Rightarrow> expression \<Rightarrow> expression \<Rightarrow> unit M" where
  "arrayIndexAssignment a lhs rhs =
     (case lhs of
        IndexAccess ia base index \<Rightarrow>
          (case base of
             Identifier _ _ r \<Rightarrow>
               (case r of
                  VariableRef d \<Rightarrow>
                    seq (bind (knownVariable d) solAssert)
                   (bind (variable_at (vd_id d)) (\<lambda>array.
                    bind (case index of None \<Rightarrow> throw NullDereference
                                      | Some i \<Rightarrow> expr (ann i)) (\<lambda>i.
                    bind (expr (ann rhs)) (\<lambda>v.
                    bind (newValue d) (\<lambda>new.
                      addAssertion (Smt_Eq new (Smt_Store (currentValue_of array) i v)))))))
                | _ \<Rightarrow> throw BadCast)
           | IndexAccess _ _ _ \<Rightarrow>
               warning (Some (node_location ia))
                 ''Assertion checker does not yet implement assignments to multi-dimensional mappings or arrays.'' []
           | _ \<Rightarrow>
               warning (Some (node_location a))
                 ''Assertion checker does not yet implement this expression.'' [])
      | _ \<Rightarrow> throw BadCast)"

definition endVisit_Assignment :: "expr_ann \<Rightarrow> token \<Rightarrow> expression \<Rightarrow> expression \<Rightarrow> unit M" where
  "endVisit_Assignment a op lhs rhs =
     (if op \<noteq> Token_Assign
      then warning (Some (node_location a))
             ''Assertion checker does not yet implement compound assignment.'' []
      else if \<not> isSupportedType (category_of (node_type a))
      then bind (gets m_library) (\<lambda>lib.
             warning (Some (node_location a))
               (''Assertion checker does not yet implement type '' @ typeToString lib (node_type a)) [])
      else (case lhs of
              Identifier _ _ r \<Rightarrow>
                (case r of
                   VariableRef d \<Rightarrow>
                     seq (bind (knownVariable d) solAssert)
                    (seq (assignment_of d rhs (node_location a))
                         (bind (expr (ann rhs)) (defineExpr a)))
                 | _ \<Rightarrow> throw BadCast)
            | IndexAccess _ _ _ \<Rightarrow>
                seq (arrayIndexAssignment a lhs rhs) (bind (expr (ann rhs)) (defineExpr a))
            | _ \<Rightarrow>
                warning (Some (node_location a))
                  ''Assertion checker does not yet implement such assignments.'' []))"

subsection \<open>Tuples, unary and binary operations (lines 286--299, 319--386, 756--872)\<close>

definition endVisit_TupleExpression :: "expr_ann \<Rightarrow> bool \<Rightarrow> expression option list \<Rightarrow> unit M" where
  "endVisit_TupleExpression a isInlineArray components =
     (if isInlineArray \<or> length components \<noteq> 1
      then warning (Some (node_location a))
             ''Assertion checker does not yet implement tuples and inline arrays.'' []
      else (case hd components of
              None \<Rightarrow> throw NullDereference
            | Some c \<Rightarrow>
                if \<not> isSupportedType (category_of (node_type (ann c)))
                then warning (Some (node_location a))
                       ''Assertion checker does not yet implement tuples and inline arrays.'' []
                else bind (expr (ann c)) (defineExpr a)))"

definition endVisit_UnaryOperation :: "expr_ann \<Rightarrow> token \<Rightarrow> bool \<Rightarrow> expression \<Rightarrow> unit M" where
  "endVisit_UnaryOperation a op isPrefixOperation sub =
     (if op = Token_Not
      then seq (solAssert (isBool (category_of (node_type a))))
               (bind (expr (ann sub)) (\<lambda>v. defineExpr a (Smt_Not v)))
      else if op = Token_Inc \<or> op = Token_Dec
      then seq (solAssert (isInteger (category_of (node_type a))))
          (seq (solAssert (lValueRequested (ann sub)))
               (case sub of
                  Identifier _ _ r \<Rightarrow>
                    (case r of
                       VariableRef d \<Rightarrow>
                         bind (knownVariable d) (\<lambda>known.
                           if known
                           then bind (currentValue d) (\<lambda>innerValue.
                                  let new = (if op = Token_Inc then Smt_Add innerValue (Smt_Int 1)
                                             else Smt_Sub innerValue (Smt_Int 1))
                                  in seq (assignment d new (node_location a))
                                         (defineExpr a (if isPrefixOperation then new else innerValue)))
                           else warning (Some (node_location a))
                                  ''Assertion checker does not yet implement such assignments.'' [])
                     | _ \<Rightarrow> throw BadCast)
                | _ \<Rightarrow>
                    warning (Some (node_location a))
                      ''Assertion checker does not yet implement such increments / decrements.'' []))
      else if op = Token_Sub
      then seq (bind (expr (ann sub)) (\<lambda>v. defineExpr a (Smt_Sub (Smt_Int 0) v)))
               (case node_type a of
                  IntegerType bits signed \<Rightarrow>
                    bind (expr a) (\<lambda>v. checkUnderOverflow v bits signed (node_location a))
                | _ \<Rightarrow> ret ())
      else warning (Some (node_location a))
             ''Assertion checker does not yet implement this operator.'' [])"

definition division :: "smt_expr \<Rightarrow> smt_expr \<Rightarrow> bool \<Rightarrow> smt_expr" where
  "division left right signed =
     (if signed
      then Smt_Ite (Smt_Ge left (Smt_Int 0))
             (Smt_Ite (Smt_Ge right (Smt_Int 0))
                (Smt_Div left right)
                (Smt_Sub (Smt_Int 0) (Smt_Div left (Smt_Sub (Smt_Int 0) right))))
             (Smt_Ite (Smt_Ge right (Smt_Int 0))
                (Smt_Sub (Smt_Int 0) (Smt_Div (Smt_Sub (Smt_Int 0) left) right))
                (Smt_Div (Smt_Sub (Smt_Int 0) left) (Smt_Sub (Smt_Int 0) right)))
      else Smt_Div left right)"

definition arithmeticOperation ::
  "expr_ann \<Rightarrow> token \<Rightarrow> sol_type option \<Rightarrow> expression \<Rightarrow> expression \<Rightarrow> unit M" where
  "arithmeticOperation a op commonType l r =
     (if op \<in> {Token_Add, Token_Sub, Token_Mul, Token_Div}
      then (case commonType of
              None \<Rightarrow> throw InternalCompilerError
            | Some t \<Rightarrow>
                (case t of
                   IntegerType bits signed \<Rightarrow>
                     bind (expr (ann l)) (\<lambda>left.
                     bind (expr (ann r)) (\<lambda>right.
                       let v = (if op = Token_Add then Smt_Add left right
                                else if op = Token_Sub then Smt_Sub left right
                                else if op = Token_Div then division left right signed
                                else Smt_Mul left right)
                       in seq (whenM (op = Token_Div)
                                 (seq (checkCondition (Smt_Eq right (Smt_Int 0)) (node_location a)
                                         ''Division by zero'' ''<result>'' (Some right))
                                      (addAssertion (smt_neq right (Smt_Int 0)))))
                         (seq (checkUnderOverflow v bits signed (node_location a))
                              (defineExpr a v))))
                 | _ \<Rightarrow>
                     warning (Some (node_location a))
                       ''Assertion checker does not yet implement this operator on non-integer types.'' []))
      else warning (Some (node_location a))
             ''Assertion checker does not yet implement this operator.'' [])"

definition compareOperation ::
  "expr_ann \<Rightarrow> token \<Rightarrow> sol_type option \<Rightarrow> expression \<Rightarrow> expression \<Rightarrow> unit M" where
  "compareOperation a op commonType l r =
     (case commonType of
        None \<Rightarrow> throw InternalCompilerError
      | Some t \<Rightarrow>
          if isSupportedType (category_of t)
          then bind (expr (ann l)) (\<lambda>left.
               bind (expr (ann r)) (\<lambda>right.
                 if isNumber (category_of t)
                 then defineExpr a
                        (if op = Token_Equal then Smt_Eq left right
                         else if op = Token_NotEqual then smt_neq left right
                         else if op = Token_LessThan then Smt_Lt left right
                         else if op = Token_LessThanOrEqual then Smt_Le left right
                         else if op = Token_GreaterThan then Smt_Gt left right
                         else Smt_Ge left right)
                 else if isBool (category_of t)
                 then defineExpr a
                        (if op = Token_Equal then Smt_Eq left right else smt_neq left right)
                 else throw UnimplementedFeatureError))
          else bind (gets m_library) (\<lambda>lib.
                 warning (Some (node_location a))
                   (''Assertion checker does not yet implement the type '' @ typeToString lib t @
                    '' for comparisons'') []))"

definition booleanOperation ::
  "expr_ann \<Rightarrow> token \<Rightarrow> sol_type option \<Rightarrow> expression \<Rightarrow> expression \<Rightarrow> unit M" where
  "booleanOperation a op commonType l r =
     seq (solAssert (op = Token_And \<or> op = Token_Or))
         (case commonType of
            None \<Rightarrow> throw InternalCompilerError
          | Some t \<Rightarrow>
              if category_of t = Category_Bool
              then bind (expr (ann l)) (\<lambda>left.
                   bind (expr (ann r)) (\<lambda>right.
                     if op = Token_And then defineExpr a (Smt_And left right)
                     else defineExpr a (Smt_Or left right)))
              else bind (gets m_library) (\<lambda>lib.
                     warning (Some (node_location a))
                       (''Assertion checker does not yet implement the type '' @ typeToString lib t @
                        '' for boolean operations'') []))"

definition endVisit_BinaryOperation ::
  "expr_ann \<Rightarrow> token \<Rightarrow> sol_type option \<Rightarrow> expression \<Rightarrow> expression \<Rightarrow> unit M" where
  "endVisit_BinaryOperation a op commonType l r =
     (if isArithmeticOp op then arithmeticOperation a op commonType l r
      else if isCompareOp op then compareOperation a op commonType l r
      else if isBooleanOp op then booleanOperation a op commonType l r
      else warning (Some (node_location a))
             ''Assertion checker does not yet implement this operator.'' [])"

subsection \<open>Function calls (lines 388--549, 1101--1127)\<close>

definition visitAssert :: "expr_ann \<Rightarrow> expression list \<Rightarrow> unit M" where
  "visitAssert a args =
     (case args of
        [arg] \<Rightarrow>
          seq (solAssert (category_of (node_type (ann arg)) = Category_Bool))
         (seq (bind (expr (ann arg)) (\<lambda>c.
                 checkCondition (Smt_Not c) (node_location a) ''Assertion violation'' [] None))
              (bind (expr (ann arg)) addPathImpliedExpression))
      | _ \<Rightarrow> throw InternalCompilerError)"

definition visitRequire :: "expr_ann \<Rightarrow> expression list \<Rightarrow> unit M" where
  "visitRequire a args =
     (case args of
        [arg] \<Rightarrow>
          seq (solAssert (category_of (node_type (ann arg)) = Category_Bool))
         (seq (bind isRootFunction (\<lambda>root.
                 whenM root (checkBooleanNotConstant arg ''Condition is always $VALUE.'')))
              (bind (expr (ann arg)) addPathImpliedExpression))
      | _ \<Rightarrow> throw InternalCompilerError)"

definition visitGasLeft :: "expr_ann \<Rightarrow> unit M" where
  "visitGasLeft a =
     seq (defineGlobalVariable ''gasleft()'' a True)
         (bind (global_at ''gasleft()'') (\<lambda>symbolicVar.
            seq (setUnknownValue_of symbolicVar)
                (whenM (sv_index symbolicVar > 0)
                   (addAssertion (Smt_Le (currentValue_of symbolicVar)
                      (valueAtIndex_of symbolicVar (sv_index symbolicVar - 1)))))))"

definition initializeFunctionCallParameters :: "fun_ann \<Rightarrow> smt_expr list \<Rightarrow> unit M" where
  "initializeFunctionCallParameters f callArgs =
     seq (solAssert (length (parameters f) = length callArgs))
    (seq (forEach (zip (parameters f) callArgs) (\<lambda>(p, arg).
            bind (createVariable p) (\<lambda>ok.
              whenM ok
                (seq (bind (newValue p) (\<lambda>new. addAssertion (Smt_Eq arg new)))
                     (whenM (category_of (vd_type p) = Category_Mapping)
                        (modify (\<lambda>s. s\<lparr>m_arrayAssignmentHappened := True\<rparr>)))))))
    (seq (forEach (localVariables f) (\<lambda>d.
            bind (createVariable d) (\<lambda>ok. whenM ok (seq (newValue d) (setZeroValue d)))))
         (case returnParameterList f of
            None \<Rightarrow> ret ()
          | Some ps \<Rightarrow>
              forEach ps (\<lambda>d.
                bind (createVariable d) (\<lambda>ok. whenM ok (seq (newValue d) (setZeroValue d)))))))"

fun referenced_of :: "expression \<Rightarrow> referenced option" where
  "referenced_of (Identifier _ _ r) = Some r"
| "referenced_of (MemberAccess _ _ r _) = Some r"
| "referenced_of _ = None"

text \<open>The expression that names the called function: the callee, or the only component of
  a callee that is a tuple (lines 476--483).\<close>

definition calledExpr :: "expression \<Rightarrow> error + expression option" where
  "calledExpr callee =
     (case callee of
        TupleExpression _ _ components \<Rightarrow>
          (case components of [c] \<Rightarrow> Inr c | _ \<Rightarrow> Inl InternalCompilerError)
      | _ \<Rightarrow> Inr (Some callee))"

definition calledFunction :: "expression \<Rightarrow> function_definition option" where
  "calledFunction callee =
     (case calledExpr callee of
        Inr (Some e) \<Rightarrow> (case referenced_of e of Some (FunctionRef f) \<Rightarrow> Some f | _ \<Rightarrow> None)
      | _ \<Rightarrow> None)"

text \<open>\<open>accept\<close> is the visit of a function definition by the checker itself
  (\<^verbatim>\<open>_funDef->accept(*this)\<close>, line 519).\<close>

definition inlineFunctionCall ::
  "(function_definition \<Rightarrow> unit M) \<Rightarrow> expr_ann \<Rightarrow> expression \<Rightarrow> expression list \<Rightarrow> unit M" where
  "inlineFunctionCall accept a callee args =
     (case calledExpr callee of
        Inl err \<Rightarrow> throw err
      | Inr None \<Rightarrow>
          warning (Some (node_location a))
            ''Assertion checker does not yet implement this type of function call.'' []
      | Inr (Some called) \<Rightarrow>
          (case referenced_of called of
             None \<Rightarrow>
               warning (Some (node_location a))
                 ''Assertion checker does not yet implement this type of function call.'' []
           | Some r \<Rightarrow>
               (case r of
                  FunctionRef funDef \<Rightarrow>
                    bind (visitedFunction (fun_info funDef)) (\<lambda>visited.
                      if visited
                      then warning (Some (node_location a))
                             ''Assertion checker does not support recursive function calls.''
                             [(''Starting from function:'', Some (fd_location (fun_info funDef)))]
                      else if isImplemented funDef
                      then (case node_type (ann called) of
                              FunctionType _ bound _ _ \<Rightarrow>
                                bind (if bound
                                      then (case called of
                                              MemberAccess _ _ _ e \<Rightarrow>
                                                bind (expr (ann e)) (\<lambda>x. ret [x])
                                            | _ \<Rightarrow> throw InternalCompilerError)
                                      else ret []) (\<lambda>receiver.
                                bind (mapM (\<lambda>arg. expr (ann arg)) args) (\<lambda>funArgs.
                                seq (initializeFunctionCallParameters (fun_info funDef)
                                       (receiver @ funArgs))
                               (seq (accept funDef)
                                    (case returnParameters (fun_info funDef) of
                                       [] \<Rightarrow> ret ()
                                     | [p] \<Rightarrow> bind (currentValue p) (defineExpr a)
                                     | _ \<Rightarrow>
                                         warning (Some (node_location a))
                                           ''Assertion checker does not yet support calls to functions that return more than one value.'' []))))
                            | _ \<Rightarrow> throw InternalCompilerError)
                      else warning (Some (node_location a))
                             ''Assertion checker does not support calls to functions without implementation.'' [])
                | _ \<Rightarrow> throw InternalCompilerError)))"

definition insert_term :: "expr_ann \<Rightarrow> expr_ann list \<Rightarrow> expr_ann list" where
  "insert_term a ts = (if node_id a \<in> node_id ` set ts then ts else insort_key node_id a ts)"

definition abstractFunctionCall :: "expr_ann \<Rightarrow> expression \<Rightarrow> expression list \<Rightarrow> unit M" where
  "abstractFunctionCall a callee args =
     bind (mapM (\<lambda>arg. expr (ann arg)) args) (\<lambda>smtArguments.
     bind (gets (\<lambda>s. m_expressions s (node_id (ann callee)))) (\<lambda>r.
       case r of
         None \<Rightarrow> throw OutOfRange
       | Some f \<Rightarrow>
           seq (defineExpr a (Smt_Apply (currentValue_of f) smtArguments))
          (seq (modify (\<lambda>s. s\<lparr>m_uninterpretedTerms := insert_term a (m_uninterpretedTerms s)\<rparr>))
               (bind (expr a) (\<lambda>e. setSymbolicUnknownValue e (node_type a))))))"

definition endVisit_FunctionCall ::
  "(function_definition \<Rightarrow> unit M) \<Rightarrow> expr_ann \<Rightarrow> call_kind \<Rightarrow> expression \<Rightarrow> expression list
     \<Rightarrow> unit M" where
  "endVisit_FunctionCall accept a kind callee args =
     seq (solAssert (kind \<noteq> Call_Unset))
         (if kind \<noteq> Call_FunctionCall
          then warning (Some (node_location a))
                 ''Assertion checker does not yet implement this expression.'' []
          else (case node_type (ann callee) of
                  FunctionType k _ _ _ \<Rightarrow>
                    if k = Kind_Assert then visitAssert a args
                    else if k = Kind_Require then visitRequire a args
                    else if k = Kind_GasLeft then visitGasLeft a
                    else if k = Kind_Internal then inlineFunctionCall accept a callee args
                    else if k \<in> {Kind_KECCAK256, Kind_ECRecover, Kind_SHA256, Kind_RIPEMD160,
                                 Kind_BlockHash, Kind_AddMod, Kind_MulMod}
                    then abstractFunctionCall a callee args
                    else warning (Some (node_location a))
                           ''Assertion checker does not yet implement this type of function call.'' []
                | _ \<Rightarrow> throw BadCast))"

subsection \<open>Identifiers, literals, member and index accesses (lines 551--605, 622--687)\<close>

definition visitFunctionIdentifier :: "expr_ann \<Rightarrow> nat \<Rightarrow> string \<Rightarrow> unit M" where
  "visitFunctionIdentifier a returnTypes richIdentifier =
     seq (whenM (returnTypes > 1)
            (warning (Some (node_location a))
               ''Assertion checker does not yet support functions with more than one return parameter.'' []))
    (seq (defineGlobalFunction richIdentifier a)
         (bind (global_at richIdentifier) (\<lambda>v.
            modify (\<lambda>s. if m_expressions s (node_id a) = None
                        then s\<lparr>m_expressions := (m_expressions s)(node_id a \<mapsto> v)\<rparr> else s))))"

definition endVisit_Identifier :: "expr_ann \<Rightarrow> string \<Rightarrow> referenced \<Rightarrow> unit M" where
  "endVisit_Identifier a name r =
     (if lValueRequested a then ret ()
      else (case node_type a of
              FunctionType _ _ returnTypes richIdentifier \<Rightarrow>
                visitFunctionIdentifier a returnTypes richIdentifier
            | _ \<Rightarrow>
                if isSupportedType (category_of (node_type a))
                then (case r of
                        VariableRef d \<Rightarrow> bind (currentValue d) (defineExpr a)
                      | _ \<Rightarrow>
                          if name = ''now'' then defineGlobalVariable name a False
                          else warning (Some (node_location a))
                                 ''Assertion checker does not yet support the type of this variable.'' [])
                else ret ()))"

definition endVisit_Literal :: "expr_ann \<Rightarrow> token \<Rightarrow> int \<Rightarrow> unit M" where
  "endVisit_Literal a tok literalValue =
     (if isNumber (category_of (node_type a)) then defineExpr a (Smt_Int literalValue)
      else if isBool (category_of (node_type a))
      then defineExpr a (Smt_Bool (tok = Token_TrueLiteral))
      else bind (gets m_library) (\<lambda>lib.
             warning (Some (node_location a))
               (''Assertion checker does not yet support the type of this literal ('' @
                typeToString lib (node_type a) @ '').'') []))"

definition visit_MemberAccess :: "expr_ann \<Rightarrow> string \<Rightarrow> expression \<Rightarrow> bool M" where
  "visit_MemberAccess a memberName e =
     (if category_of (node_type a) = Category_Function then ret True
      else if category_of (node_type (ann e)) = Category_Magic
      then bind (case e of
                   Identifier _ name _ \<Rightarrow> ret name
                 | _ \<Rightarrow>
                     seq (warning (Some (node_location a))
                            ''Assertion checker does not yet support this expression.'' [])
                         (ret []))
             (\<lambda>accessedName.
                seq (defineGlobalVariable (accessedName @ ''.'' @ memberName) a False) (ret False))
      else seq (warning (Some (node_location a))
                  ''Assertion checker does not yet support this expression.'' [])
               (ret True))"

definition defineIndexAccess :: "expr_ann \<Rightarrow> expression option \<Rightarrow> symbolic_variable \<Rightarrow> unit M" where
  "defineIndexAccess a index array =
     bind (case index of None \<Rightarrow> throw NullDereference | Some i \<Rightarrow> expr (ann i)) (\<lambda>i.
     seq (defineExpr a (Smt_Select (currentValue_of array) i))
    (seq (bind (expr a) (\<lambda>e. setSymbolicUnknownValue e (node_type a)))
         (modify (\<lambda>s. s\<lparr>m_uninterpretedTerms := insert_term a (m_uninterpretedTerms s)\<rparr>))))"

definition endVisit_IndexAccess :: "expr_ann \<Rightarrow> expression \<Rightarrow> expression option \<Rightarrow> unit M" where
  "endVisit_IndexAccess a base index =
     (case base of
        Identifier _ _ r \<Rightarrow>
          (case r of
             VariableRef d \<Rightarrow>
               seq (bind (knownVariable d) solAssert)
                   (bind (variable_at (vd_id d)) (defineIndexAccess a index))
           | _ \<Rightarrow> throw BadCast)
      | IndexAccess innerAccess _ _ \<Rightarrow>
          seq (bind (knownExpr innerAccess) solAssert)
              (bind (gets (\<lambda>s. m_expressions s (node_id innerAccess))) (\<lambda>r.
                 case r of None \<Rightarrow> throw InternalCompilerError
                         | Some array \<Rightarrow> defineIndexAccess a index array))
      | _ \<Rightarrow>
          warning (Some (node_location a))
            ''Assertion checker does not yet implement this expression.'' [])"

section \<open>The statement traverser\<close>

subsection \<open>Returns and declarations (lines 236--253, 607--620)\<close>

text \<open>A \<^verbatim>\<open>return\<close> without an expression has a null expression, which is not a key of the
  expressions; a declaration statement's single declaration that is null is not a key of the
  variables.\<close>

definition endVisit_Return :: "location \<Rightarrow> expression option \<Rightarrow> unit M" where
  "endVisit_Return loc e =
     (case e of
        None \<Rightarrow> ret ()
      | Some x \<Rightarrow>
          bind (knownExpr (ann x)) (\<lambda>known.
            whenM known
              (bind (gets m_functionPath) (\<lambda>path.
                 if path = [] then throw NullDereference
                 else (case returnParameters (last path) of
                         [] \<Rightarrow> ret ()
                       | [p] \<Rightarrow>
                           bind (expr (ann x)) (\<lambda>v.
                           bind (newValue p) (\<lambda>new. addAssertion (Smt_Eq v new)))
                       | _ \<Rightarrow>
                           warning (Some loc)
                             ''Assertion checker does not yet support more than one return value.'' [])))))"

definition endVisit_VariableDeclarationStatement ::
  "location \<Rightarrow> variable_declaration option list \<Rightarrow> expression option \<Rightarrow> unit M" where
  "endVisit_VariableDeclarationStatement loc declarations initialValue =
     (if length declarations \<noteq> 1
      then warning (Some loc)
             ''Assertion checker does not yet support such variable declarations.'' []
      else bind (case hd declarations of None \<Rightarrow> ret False | Some d \<Rightarrow> knownVariable d) (\<lambda>known.
             if known
             then (case (hd declarations, initialValue) of
                     (Some d, Some v) \<Rightarrow> assignment_of d v loc
                   | _ \<Rightarrow> ret ())
             else warning (Some loc)
                    ''Assertion checker does not yet implement such variable declarations.'' []))"

subsection \<open>The variables a subtree touches\<close>

text \<open>
  Modelled from the spec (section 4.3): \<^verbatim>\<open>VariableUsage::touchedVariables\<close> returns every variable
  declaration that is assigned, incremented or decremented, or is the base of an index write
  anywhere inside the subtree, in the order of the tree and with duplicates.  The body of a
  called function is not part of the subtree of the call.
\<close>

fun assigned_variable :: "expression \<Rightarrow> variable_declaration list" where
  "assigned_variable (Identifier _ _ (VariableRef d)) = [d]"
| "assigned_variable _ = []"

fun written_variable :: "expression \<Rightarrow> variable_declaration list" where
  "written_variable (Identifier _ _ (VariableRef d)) = [d]"
| "written_variable (IndexAccess _ base _) = assigned_variable base"
| "written_variable _ = []"

fun touchedE :: "expression \<Rightarrow> variable_declaration list"
  and touchedEs :: "expression list \<Rightarrow> variable_declaration list"
  and touchedEos :: "expression option list \<Rightarrow> variable_declaration list" where
  "touchedE (Literal _ _ _) = []"
| "touchedE (Identifier _ _ _) = []"
| "touchedE (UnaryOperation _ op _ sub) =
     (if op = Token_Inc \<or> op = Token_Dec then assigned_variable sub else []) @ touchedE sub"
| "touchedE (BinaryOperation _ _ _ l r) = touchedE l @ touchedE r"
| "touchedE (Assignment _ _ l r) = written_variable l @ touchedE l @ touchedE r"
| "touchedE (TupleExpression _ _ components) = touchedEos components"
| "touchedE (FunctionCall _ _ callee args) = touchedE callee @ touchedEs args"
| "touchedE (MemberAccess _ _ _ e) = touchedE e"
| "touchedE (IndexAccess _ base index) =
     touchedE base @ (case index of None \<Rightarrow> [] | Some i \<Rightarrow> touchedE i)"
| "touchedE (OtherExpression _ es) = touchedEs es"
| "touchedEs [] = []"
| "touchedEs (e # es) = touchedE e @ touchedEs es"
| "touchedEos [] = []"
| "touchedEos (None # es) = touchedEos es"
| "touchedEos (Some e # es) = touchedE e @ touchedEos es"

fun touchedS :: "statement \<Rightarrow> variable_declaration list"
  and touchedSs :: "statement list \<Rightarrow> variable_declaration list" where
  "touchedS (Block _ ss) = touchedSs ss"
| "touchedS (IfStatement _ c t f) =
     touchedE c @ touchedS t @ (case f of None \<Rightarrow> [] | Some s \<Rightarrow> touchedS s)"
| "touchedS (WhileStatement _ _ c b) = touchedE c @ touchedS b"
| "touchedS (ForStatement _ init c loopExpression b) =
     (case init of None \<Rightarrow> [] | Some s \<Rightarrow> touchedS s) @
     (case c of None \<Rightarrow> [] | Some e \<Rightarrow> touchedE e) @
     (case loopExpression of None \<Rightarrow> [] | Some s \<Rightarrow> touchedS s) @ touchedS b"
| "touchedS (VariableDeclarationStatement _ _ initialValue) =
     (case initialValue of None \<Rightarrow> [] | Some e \<Rightarrow> touchedE e)"
| "touchedS (ExpressionStatement _ e) = touchedE e"
| "touchedS (Return _ e) = (case e of None \<Rightarrow> [] | Some x \<Rightarrow> touchedE x)"
| "touchedS (OtherStatement _ es) = touchedEs es"
| "touchedSs [] = []"
| "touchedSs (s # ss) = touchedS s @ touchedSs ss"

subsection \<open>Branches and loops (lines 115--234, 891--907)\<close>

text \<open>In the visits below, an argument named \<open>accept_...\<close> is the visit of a child of the node
  by the checker (\<^verbatim>\<open>_node.condition().accept(*this)\<close>, ...).\<close>

definition visitBranch :: "unit M \<Rightarrow> smt_expr option \<Rightarrow> variable_indices M" where
  "visitBranch accept_statement condition =
     bind copyVariableIndices (\<lambda>indicesBeforeBranch.
     seq (case condition of Some c \<Rightarrow> pushPathCondition c | None \<Rightarrow> ret ())
    (seq accept_statement
    (seq (case condition of Some c \<Rightarrow> popPathCondition | None \<Rightarrow> ret ())
    (bind copyVariableIndices (\<lambda>indicesAfterBranch.
     seq (resetVariableIndices indicesBeforeBranch) (ret indicesAfterBranch))))))"

definition visit_IfStatement ::
  "unit M \<Rightarrow> unit M \<Rightarrow> unit M option \<Rightarrow> expression \<Rightarrow> statement \<Rightarrow> statement option \<Rightarrow> unit M" where
  "visit_IfStatement accept_condition accept_true accept_false condition trueStatement
       falseStatement =
     seq accept_condition
    (seq (bind isRootFunction (\<lambda>root.
            whenM root (checkBooleanNotConstant condition ''Condition is always $VALUE.'')))
    (bind (bind (expr (ann condition)) (\<lambda>c. visitBranch accept_true (Some c)))
       (\<lambda>indicesEndTrue.
     bind (case (accept_false, falseStatement) of
             (Some accept_f, Some f) \<Rightarrow>
               bind (bind (expr (ann condition)) (\<lambda>c. visitBranch accept_f (Some (Smt_Not c))))
                 (\<lambda>indicesEndFalse. ret (indicesEndFalse, touchedS trueStatement @ touchedS f))
           | _ \<Rightarrow>
               bind copyVariableIndices
                 (\<lambda>indicesEndFalse. ret (indicesEndFalse, touchedS trueStatement)))
       (\<lambda>(indicesEndFalse, touchedVariables).
     bind (expr (ann condition)) (\<lambda>c.
       mergeVariables touchedVariables c indicesEndTrue indicesEndFalse)))))"

definition visit_WhileStatement ::
  "unit M \<Rightarrow> unit M \<Rightarrow> statement \<Rightarrow> bool \<Rightarrow> expression \<Rightarrow> unit M" where
  "visit_WhileStatement accept_condition accept_body node isDoWhile condition =
     bind copyVariableIndices (\<lambda>indicesBeforeLoop.
     seq (resetVariables (touchedS node))
    (bind (if isDoWhile
           then bind (visitBranch accept_body None) (\<lambda>indicesAfterLoop.
                seq accept_condition
               (seq (bind isRootFunction (\<lambda>root.
                       whenM root
                         (checkBooleanNotConstant condition
                            ''Do-while loop condition is always $VALUE.'')))
                    (ret indicesAfterLoop)))
           else seq accept_condition
               (seq (bind isRootFunction (\<lambda>root.
                       whenM root
                         (checkBooleanNotConstant condition
                            ''While loop condition is always $VALUE.'')))
                    (bind (expr (ann condition)) (\<lambda>c. visitBranch accept_body (Some c)))))
       (\<lambda>indicesAfterLoop.
     seq (resetVariableIndices indicesBeforeLoop)
    (seq (whenM (\<not> isDoWhile) accept_condition)
    (bind (expr (ann condition)) (\<lambda>c.
     bind copyVariableIndices (\<lambda>indicesEndFalse.
     seq (mergeVariables (touchedS node) c indicesAfterLoop indicesEndFalse)
         (modify (\<lambda>s. s\<lparr>m_loopExecutionHappened := True\<rparr>)))))))))"

definition visit_ForStatement ::
  "unit M option \<Rightarrow> unit M option \<Rightarrow> unit M option \<Rightarrow> unit M
     \<Rightarrow> expression option \<Rightarrow> statement option \<Rightarrow> statement \<Rightarrow> unit M" where
  "visit_ForStatement accept_init accept_condition accept_loopExpression accept_body
       condition loopExpression loopBody =
     seq (case accept_init of Some accept_i \<Rightarrow> accept_i | None \<Rightarrow> ret ())
    (bind copyVariableIndices (\<lambda>indicesBeforeLoop.
     let touchedVariables =
           uniqueVars (touchedS loopBody
             @ (case condition of Some c \<Rightarrow> touchedE c | None \<Rightarrow> [])
             @ (case loopExpression of Some l \<Rightarrow> touchedS l | None \<Rightarrow> []))
     in
     seq (resetVariables touchedVariables)
    (seq (case (accept_condition, condition) of
            (Some accept_c, Some c) \<Rightarrow>
              seq accept_c
                  (bind isRootFunction (\<lambda>root.
                     whenM root
                       (checkBooleanNotConstant c ''For loop condition is always $VALUE.'')))
          | _ \<Rightarrow> ret ())
    (seq interface_push
    (seq (case condition of
            Some c \<Rightarrow> bind (expr (ann c)) addAssertion
          | None \<Rightarrow> ret ())
    (seq accept_body
    (seq (case accept_loopExpression of Some accept_l \<Rightarrow> accept_l | None \<Rightarrow> ret ())
    (seq interface_pop
    (bind copyVariableIndices (\<lambda>indicesAfterLoop.
     seq (resetVariableIndices indicesBeforeLoop)
    (seq (case accept_condition of Some accept_c \<Rightarrow> accept_c | None \<Rightarrow> ret ())
    (bind (case condition of
             Some c \<Rightarrow> expr (ann c)
           | None \<Rightarrow> ret (Smt_Bool True)) (\<lambda>forCondition.
     bind copyVariableIndices (\<lambda>indicesEndFalse.
     seq (mergeVariables touchedVariables forCondition indicesAfterLoop indicesEndFalse)
         (modify (\<lambda>s. s\<lparr>m_loopExecutionHappened := True\<rparr>))))))))))))))))"

subsection \<open>Function definitions (lines 78--113)\<close>

definition visit_FunctionDefinition :: "fun_ann \<Rightarrow> expression list \<Rightarrow> unit M" where
  "visit_FunctionDefinition f modifierInvocations =
     seq (whenM (modifierInvocations \<noteq> [] \<or> isConstructor f)
            (warning (Some (fd_location f))
               ''Assertion checker does not yet support constructors and functions with modifiers.'' []))
    (seq (modify (\<lambda>s. s\<lparr>m_functionPath := m_functionPath s @ [f]\<rparr>))
         (bind isRootFunction (\<lambda>root.
            whenM root
              (seq interface_reset
              (seq (modify (\<lambda>s. s\<lparr>m_pathConditions := [], m_expressions := Map.empty,
                                   m_globalContext := [], m_uninterpretedTerms := []\<rparr>))
              (seq resetStateVariables
              (seq (initializeLocalVariables f)
                   (modify (\<lambda>s. s\<lparr>m_loopExecutionHappened := False,
                                    m_arrayAssignmentHappened := False\<rparr>)))))))))"

definition endVisit_FunctionDefinition :: "unit M" where
  "endVisit_FunctionDefinition =
     seq (bind isRootFunction (\<lambda>root. whenM root removeLocalVariables))
         (modify (\<lambda>s. s\<lparr>m_functionPath := butlast (m_functionPath s)\<rparr>))"

section \<open>The visitor\<close>

lemma inlineFunctionCall_cong [fundef_cong]:
  assumes "callee = callee'" and "a = a'" and "args = args'"
    and "\<And>f. calledFunction callee' = Some f \<Longrightarrow> accept f = accept' f"
  shows "inlineFunctionCall accept a callee args = inlineFunctionCall accept' a' callee' args'"
proof -
  have "accept f = accept' f"
    if "calledExpr callee' = Inr (Some e)" "referenced_of e = Some (FunctionRef f)" for e f
    using assms(4) [of f] that by (simp add: calledFunction_def)
  then show ?thesis
    unfolding inlineFunctionCall_def assms(1-3)
    by (auto split: sum.splits option.splits referenced.splits
        cong: sol_type.case_cong if_cong)
qed

lemma endVisit_FunctionCall_cong [fundef_cong]:
  assumes "callee = callee'" and "a = a'" and "args = args'" and "kind = kind'"
    and "\<And>f. calledFunction callee' = Some f \<Longrightarrow> accept f = accept' f"
  shows "endVisit_FunctionCall accept a kind callee args
       = endVisit_FunctionCall accept' a' kind' callee' args'"
proof -
  have "inlineFunctionCall accept a callee args = inlineFunctionCall accept' a' callee' args'"
    by (rule inlineFunctionCall_cong) (use assms in auto)
  then show ?thesis
    using assms(1-4) by (simp add: endVisit_FunctionCall_def cong: sol_type.case_cong if_cong)
qed

lemma referenced_of_size: "referenced_of e = Some r \<Longrightarrow> size r < size e"
  by (cases e) auto

lemma calledFunction_size: "calledFunction callee = Some f \<Longrightarrow> size f < size callee"
  by (cases callee)
    (auto simp: calledFunction_def calledExpr_def dest!: referenced_of_size
      split: list.splits option.splits referenced.splits)

text \<open>
  The traversal of the tree (\<^verbatim>\<open>accept\<close>): a node's children are visited in their order
  unless \<^verbatim>\<open>visit\<close> returns false, then \<^verbatim>\<open>endVisit\<close> runs.  The declarations inside a
  function (parameters and the declarations of a declaration statement) have no value, so
  \<^verbatim>\<open>endVisit(VariableDeclaration)\<close> (line 72) does nothing for them.
\<close>

function (sequential) acceptE :: "expression \<Rightarrow> unit M"
  and acceptEs :: "expression list \<Rightarrow> unit M"
  and acceptEos :: "expression option list \<Rightarrow> unit M"
  and acceptS :: "statement \<Rightarrow> unit M"
  and acceptSs :: "statement list \<Rightarrow> unit M"
  and acceptF :: "function_definition \<Rightarrow> unit M" where
  "acceptE (Literal a tok v) = endVisit_Literal a tok v"
| "acceptE (Identifier a name r) = endVisit_Identifier a name r"
| "acceptE (UnaryOperation a op isPrefixOperation sub) =
     seq (acceptE sub) (endVisit_UnaryOperation a op isPrefixOperation sub)"
| "acceptE (BinaryOperation a op commonType l r) =
     seq (acceptE l) (seq (acceptE r) (endVisit_BinaryOperation a op commonType l r))"
| "acceptE (Assignment a op l r) =
     seq (acceptE l) (seq (acceptE r) (endVisit_Assignment a op l r))"
| "acceptE (TupleExpression a isInlineArray components) =
     seq (acceptEos components) (endVisit_TupleExpression a isInlineArray components)"
| "acceptE (FunctionCall a kind callee args) =
     seq (acceptE callee) (seq (acceptEs args) (endVisit_FunctionCall acceptF a kind callee args))"
| "acceptE (MemberAccess a memberName r e) =
     bind (visit_MemberAccess a memberName e) (\<lambda>descend. whenM descend (acceptE e))"
| "acceptE (IndexAccess a base index) =
     seq (acceptE base)
    (seq (case index of None \<Rightarrow> ret () | Some i \<Rightarrow> acceptE i)
         (endVisit_IndexAccess a base index))"
| "acceptE (OtherExpression a es) = acceptEs es"
| "acceptEs [] = ret ()"
| "acceptEs (e # es) = seq (acceptE e) (acceptEs es)"
| "acceptEos [] = ret ()"
| "acceptEos (None # es) = acceptEos es"
| "acceptEos (Some e # es) = seq (acceptE e) (acceptEos es)"
| "acceptS (Block loc ss) = acceptSs ss"
| "acceptS (IfStatement loc c t f) =
     visit_IfStatement (acceptE c) (acceptS t)
       (case f of None \<Rightarrow> None | Some s \<Rightarrow> Some (acceptS s)) c t f"
| "acceptS (WhileStatement loc isDoWhile c b) =
     visit_WhileStatement (acceptE c) (acceptS b) (WhileStatement loc isDoWhile c b) isDoWhile c"
| "acceptS (ForStatement loc init c loopExpression b) =
     visit_ForStatement
       (case init of None \<Rightarrow> None | Some s \<Rightarrow> Some (acceptS s))
       (case c of None \<Rightarrow> None | Some e \<Rightarrow> Some (acceptE e))
       (case loopExpression of None \<Rightarrow> None | Some s \<Rightarrow> Some (acceptS s))
       (acceptS b) c loopExpression b"
| "acceptS (VariableDeclarationStatement loc declarations initialValue) =
     seq (case initialValue of None \<Rightarrow> ret () | Some e \<Rightarrow> acceptE e)
         (endVisit_VariableDeclarationStatement loc declarations initialValue)"
| "acceptS (ExpressionStatement loc e) = acceptE e"
| "acceptS (Return loc e) =
     seq (case e of None \<Rightarrow> ret () | Some x \<Rightarrow> acceptE x) (endVisit_Return loc e)"
| "acceptS (OtherStatement loc es) = acceptEs es"
| "acceptSs [] = ret ()"
| "acceptSs (s # ss) = seq (acceptS s) (acceptSs ss)"
| "acceptF (FunctionDefinition f modifierInvocations b) =
     seq (visit_FunctionDefinition f modifierInvocations)
    (seq (acceptEs modifierInvocations)
    (seq (case b of None \<Rightarrow> ret () | Some s \<Rightarrow> acceptS s)
         endVisit_FunctionDefinition))"
  by pat_completeness auto
termination
  by (relation "measure (case_sum
        (case_sum size (case_sum (size_list size) (size_list (size_option size))))
        (case_sum size (case_sum (size_list size) size)))")
    (auto dest: calledFunction_size)


section \<open>Observations and examples\<close>

text \<open>What a run of the checker leaves in the solver and in the error reporter.\<close>

definition run_calls :: "'a M \<Rightarrow> checker \<Rightarrow> error + solver_call list" where
  "run_calls m s = map_sum id (\<lambda>(r, s'). calls (m_interface s')) (m s)"

definition run_warnings :: "'a M \<Rightarrow> checker \<Rightarrow> error + warning list" where
  "run_warnings m s = map_sum id (\<lambda>(r, s'). m_errorReporter s') (m s)"

definition returns :: "'a M \<Rightarrow> checker \<Rightarrow> bool" where
  "returns m s = (case m s of Inr _ \<Rightarrow> True | Inl _ \<Rightarrow> False)"

definition run_indices :: "'a M \<Rightarrow> checker \<Rightarrow> error + variable_indices" where
  "run_indices m s = map_sum id (\<lambda>(r, s'). map (\<lambda>(k, d, v). (k, sv_index v)) (m_variables s')) (m s)"

text \<open>The current path condition (lines 1314--1319).\<close>

definition pathCondition :: "checker \<Rightarrow> smt_expr" where
  "pathCondition s = (if m_pathConditions s = [] then Smt_Bool True else last (m_pathConditions s))"

text \<open>The result of a query and the warning of a failed query (lines 1065--1094).\<close>

definition result_of :: "check_response \<Rightarrow> check_result" where
  "result_of r = (case r of Response res _ \<Rightarrow> res | SolverError _ \<Rightarrow> ERROR)"

definition query_errors :: "check_response \<Rightarrow> warning list" where
  "query_errors r =
     (case r of
        Response _ _ \<Rightarrow> []
      | SolverError c \<Rightarrow>
          [Warning None (''Error querying SMT solver'' @ (case c of Some t \<Rightarrow> '': '' @ t | None \<Rightarrow> [])) []])"

definition with_calls :: "solver_call list \<Rightarrow> checker \<Rightarrow> checker" where
  "with_calls cs s = s\<lparr>m_interface := (m_interface s)\<lparr>calls := cs\<rparr>\<rparr>"

definition with_warnings :: "warning list \<Rightarrow> checker \<Rightarrow> checker" where
  "with_warnings ws s = s\<lparr>m_errorReporter := m_errorReporter s @ ws\<rparr>"

text \<open>The dispatch on the two results of \<^verbatim>\<open>checkBooleanNotConstant\<close> (lines 1033--1062).\<close>

definition notConstant_verdict ::
  "location option \<Rightarrow> string \<Rightarrow> check_result \<Rightarrow> check_result \<Rightarrow> unit M" where
  "notConstant_verdict loc description positiveResult negatedResult =
         (if positiveResult = ERROR \<or> negatedResult = ERROR
          then warning loc ''Error trying to invoke SMT solver.'' []
          else if positiveResult = CONFLICTING \<or> negatedResult = CONFLICTING
          then warning loc
                 ''At least two SMT solvers provided conflicting answers. Results might not be sound.'' []
          else if positiveResult = SATISFIABLE \<and> negatedResult = SATISFIABLE
          then ret ()
          else if positiveResult = UNKNOWN \<or> negatedResult = UNKNOWN
          then ret ()
          else if positiveResult = UNSATISFIABLE \<and> negatedResult = UNSATISFIABLE
          then warning loc ''Condition unreachable.'' []
          else
            bind (if positiveResult = SATISFIABLE
                  then seq (solAssert (negatedResult = UNSATISFIABLE)) (ret ''true'')
                  else seq (solAssert (positiveResult = UNSATISFIABLE))
                      (seq (solAssert (negatedResult = SATISFIABLE)) (ret ''false'')))
              (\<lambda>v. warning loc (replace_all description ''$VALUE'' v) []))"

text \<open>The values of a response as the checker prints them (lines 1083--1092), and the
  warnings of a goal by the result of its query (lines 973--1013).\<close>

definition values_of :: "library \<Rightarrow> check_response \<Rightarrow> string list" where
  "values_of lib r =
     (case r of
        Response _ values \<Rightarrow>
          map (\<lambda>v. case bigint lib v of Some n \<Rightarrow> formatNumberReadable lib n | None \<Rightarrow> v) values
      | SolverError _ \<Rightarrow> [])"

definition goal_report ::
  "location \<Rightarrow> string \<Rightarrow> bool \<Rightarrow> (smt_expr \<times> string) list \<Rightarrow> string \<Rightarrow> check_result
     \<Rightarrow> string list \<Rightarrow> warning list" where
  "goal_report loc description inFunction evals comment result values =
     (case result of
        SATISFIABLE \<Rightarrow>
          if inFunction
          then [Warning (Some loc) (description @ '' happens here'')
                  [(modelMessage evals values, None), (comment, None)]]
          else [Warning (Some loc) (description @ '' happens here.'') [(comment, None)]]
      | UNSATISFIABLE \<Rightarrow> []
      | UNKNOWN \<Rightarrow> [Warning (Some loc) (description @ '' might happen here.'') [(comment, None)]]
      | CONFLICTING \<Rightarrow>
          [Warning (Some loc)
             ''At least two SMT solvers provided conflicting answers. Results might not be sound.'' []]
      | ERROR \<Rightarrow> [Warning (Some loc) ''Error trying to invoke SMT solver.'' []])"

text \<open>The solver calls of a goal (lines 917--918, 961, 1014).\<close>

definition goal_calls :: "smt_expr \<Rightarrow> smt_expr \<Rightarrow> smt_expr list \<Rightarrow> solver_call list" where
  "goal_calls pathCond goal es =
     [Solver_push, Solver_addAssertion (Smt_And pathCond goal), Solver_check es, Solver_pop]"

text \<open>The solver calls of the two queries of \<^verbatim>\<open>checkBooleanNotConstant\<close>
  (lines 1023--1031).\<close>

definition notConstant_calls :: "smt_expr \<Rightarrow> smt_expr \<Rightarrow> solver_call list" where
  "notConstant_calls pathCond c =
     [Solver_push, Solver_addAssertion (Smt_And pathCond c), Solver_check [], Solver_pop,
      Solver_push, Solver_addAssertion (Smt_And pathCond (Smt_Not c)), Solver_check [], Solver_pop]"

text \<open>One step of the loop of \<^verbatim>\<open>mergeVariables\<close> (lines 1182--1190), and what its two
  assertions ask of a variable.\<close>

definition mergeVariable ::
  "smt_expr \<Rightarrow> variable_indices \<Rightarrow> variable_indices \<Rightarrow> variable_declaration \<Rightarrow> unit M" where
  "mergeVariable condition indicesEndTrue indicesEndFalse d =
     (case (map_of indicesEndTrue (vd_id d), map_of indicesEndFalse (vd_id d)) of
         (Some trueIndex, Some falseIndex) \<Rightarrow>
           seq (solAssert (trueIndex \<noteq> falseIndex))
               (bind (newValue d) (\<lambda>new.
                bind (valueAtIndex d trueIndex) (\<lambda>t.
                bind (valueAtIndex d falseIndex) (\<lambda>f.
                  addAssertion (Smt_Eq new (Smt_Ite condition t f))))))
       | _ \<Rightarrow> throw InternalCompilerError)"

definition merge_calls ::
  "(nat \<times> variable_declaration \<times> symbolic_variable) list \<Rightarrow> smt_expr \<Rightarrow> variable_indices
     \<Rightarrow> variable_indices \<Rightarrow> variable_declaration \<Rightarrow> solver_call list" where
  "merge_calls vars condition indicesEndTrue indicesEndFalse d =
     (case (map_of vars (vd_id d), map_of indicesEndTrue (vd_id d),
            map_of indicesEndFalse (vd_id d)) of
        (Some (_, v), Some trueIndex, Some falseIndex) \<Rightarrow>
          [Solver_addAssertion
             (Smt_Eq (Smt_Var (sv_name v) (sv_nextFreeIndex v))
                (Smt_Ite condition (Smt_Var (sv_name v) trueIndex)
                   (Smt_Var (sv_name v) falseIndex)))]
      | _ \<Rightarrow> [])"

definition merge_ok :: "variable_indices \<Rightarrow> variable_indices \<Rightarrow> nat \<Rightarrow> bool" where
  "merge_ok iT iF k \<longleftrightarrow>
     (case (map_of iT k, map_of iF k) of (Some t, Some f) \<Rightarrow> t \<noteq> f | _ \<Rightarrow> False)"

subsection \<open>Example programs\<close>

definition example_library :: library where
  "example_library =
     \<lparr>formatNumberReadable = int_to_string, bigint = (\<lambda>_. None), typeToString = (\<lambda>_. ''type'')\<rparr>"

text \<open>A backend that answers the \<open>n\<close>-th query with the \<open>n\<close>-th result of a list (with
  \<^verbatim>\<open>UNKNOWN\<close> when the list is used up), and every requested value with \<open>0\<close>.\<close>

fun is_check :: "solver_call \<Rightarrow> bool" where
  "is_check (Solver_check _) = True"
| "is_check _ = False"

fun requested :: "solver_call list \<Rightarrow> smt_expr list" where
  "requested [] = []"
| "requested cs = (case last cs of Solver_check es \<Rightarrow> es | _ \<Rightarrow> [])"

definition answers :: "check_result list \<Rightarrow> solver_call list \<Rightarrow> check_response" where
  "answers rs cs =
     Response (case drop (length (filter is_check cs) - 1) rs of r # _ \<Rightarrow> r | [] \<Rightarrow> UNKNOWN)
       (map (\<lambda>_. ''0'') (requested cs))"

text \<open>The checker when the analysis of a source unit starts.\<close>

definition initial_checker :: "(solver_call list \<Rightarrow> check_response) \<Rightarrow> checker" where
  "initial_checker b =
     \<lparr>m_interface = \<lparr>calls = [], backend = b\<rparr>, m_errorReporter = [], m_variables = [],
      m_expressions = Map.empty, m_globalContext = [], m_uninterpretedTerms = [],
      m_pathConditions = [], m_functionPath = [], m_loopExecutionHappened = False,
      m_arrayAssignmentHappened = False, m_scanner = Some (\<lambda>_. ''source''),
      m_library = example_library\<rparr>"

definition uint256 :: sol_type where
  "uint256 = IntegerType 256 False"

definition int8 :: sol_type where
  "int8 = IntegerType 8 True"

definition node :: "nat \<Rightarrow> sol_type \<Rightarrow> expr_ann" where
  "node i t = \<lparr>node_id = i, node_location = (i, i), node_type = t, lValueRequested = False\<rparr>"

definition lvalue :: "nat \<Rightarrow> sol_type \<Rightarrow> expr_ann" where
  "lvalue i t = \<lparr>node_id = i, node_location = (i, i), node_type = t, lValueRequested = True\<rparr>"

definition local_variable :: "nat \<Rightarrow> string \<Rightarrow> sol_type \<Rightarrow> variable_declaration" where
  "local_variable i n t =
     \<lparr>vd_id = i, vd_name = n, vd_type = t, vd_location = (i, i), isLocalVariable = True,
      isStateVariable = False\<rparr>"

definition var_x :: variable_declaration where
  "var_x = local_variable 1 ''x'' uint256"

definition var_y :: variable_declaration where
  "var_y = local_variable 2 ''y'' uint256"

definition number :: "nat \<Rightarrow> int \<Rightarrow> expression" where
  "number i v = Literal (node i RationalNumberType) Token_Number v"

definition read_var :: "nat \<Rightarrow> variable_declaration \<Rightarrow> expression" where
  "read_var i d = Identifier (node i (vd_type d)) (vd_name d) (VariableRef d)"

definition write_var :: "nat \<Rightarrow> variable_declaration \<Rightarrow> expression" where
  "write_var i d = Identifier (lvalue i (vd_type d)) (vd_name d) (VariableRef d)"

definition function_of ::
  "variable_declaration list \<Rightarrow> variable_declaration list \<Rightarrow> statement list \<Rightarrow> function_definition" where
  "function_of params results stmts =
     FunctionDefinition
       \<lparr>fd_id = 100, fd_location = (100, 100), isConstructor = False, parameters = params,
        returnParameterList = Some results, localVariables = []\<rparr>
       [] (Some (Block (100, 100) stmts))"

text \<open>The checker inside a root function with the parameters \<open>x\<close> and \<open>y\<close>, after the
  comparison \<open>x > y\<close> (node 5) has been encoded.\<close>

definition x_gt_y :: expression where
  "x_gt_y = BinaryOperation (node 5 BoolType) Token_GreaterThan (Some uint256)
              (read_var 3 var_x) (read_var 4 var_y)"

definition inside_function :: "(solver_call list \<Rightarrow> check_response) \<Rightarrow> error + unit \<times> checker" where
  "inside_function b =
     seq (visit_FunctionDefinition (fun_info (function_of [var_x, var_y] [] [])) [])
         (acceptE x_gt_y) (initial_checker b)"


definition in_function :: "(solver_call list \<Rightarrow> check_response) \<Rightarrow> checker" where
  "in_function b = (case inside_function b of Inr (_, s) \<Rightarrow> s | Inl _ \<Rightarrow> initial_checker b)"


text \<open>The checker inside a root function \<open>f\<close>, after the expressions \<open>es\<close> have been
  encoded.\<close>

definition entered ::
  "function_definition \<Rightarrow> expression list \<Rightarrow> (solver_call list \<Rightarrow> check_response) \<Rightarrow> checker" where
  "entered f es b =
     (case seq (visit_FunctionDefinition (fun_info f) (fun_modifiers f)) (acceptEs es)
             (initial_checker b) of
        Inr (_, s) \<Rightarrow> s
      | Inl _ \<Rightarrow> initial_checker b)"

definition var_r :: variable_declaration where
  "var_r = local_variable 3 ''r'' uint256"

definition uint8 :: sol_type where
  "uint8 = IntegerType 8 False"

definition var_a :: variable_declaration where
  "var_a = local_variable 4 ''a'' uint8"

definition var_b :: variable_declaration where
  "var_b = local_variable 5 ''b'' uint8"

definition divide :: "nat \<Rightarrow> expression \<Rightarrow> expression \<Rightarrow> expression" where
  "divide i l r = BinaryOperation (node i uint8) Token_Div (Some uint8) l r"

definition assign :: "nat \<Rightarrow> expression \<Rightarrow> expression \<Rightarrow> expression" where
  "assign i l r = Assignment (node i (node_type (ann l))) Token_Assign l r"

definition assert_call :: "nat \<Rightarrow> nat \<Rightarrow> expression \<Rightarrow> expression" where
  "assert_call i j e =
     FunctionCall (node i (OtherType False)) Call_FunctionCall
       (Identifier (node j (FunctionType Kind_Assert False 0 ''assert'')) ''assert'' OtherDeclaration)
       [e]"

definition statement_of :: "nat \<Rightarrow> expression \<Rightarrow> statement" where
  "statement_of i e = ExpressionStatement (i, i) e"

text \<open>\<^verbatim>\<open>function f(uint x, uint y, uint8 a, uint8 b) { for (;;) { a / b; } assert(x > y); }\<close>\<close>

definition division_in_loop :: function_definition where
  "division_in_loop =
     function_of [var_x, var_y, var_a, var_b] []
       [ForStatement (20, 20) None None None
          (statement_of 9 (divide 8 (read_var 6 var_a) (read_var 7 var_b))),
        statement_of 12 (assert_call 11 10 x_gt_y)]"

text \<open>\<^verbatim>\<open>if (x > y) a = b;\<close>, the condition \<^verbatim>\<open>(a = a) > b\<close>, and the loops
  \<^verbatim>\<open>while ((a = a) > b) { a = b; }\<close> and \<^verbatim>\<open>do { a = b; } while ((a = a) > b);\<close>.\<close>

definition if_example :: statement where
  "if_example =
     IfStatement (15, 15) x_gt_y
       (statement_of 14 (assign 13 (write_var 11 var_a) (read_var 12 var_b))) None"

definition assigning_condition :: expression where
  "assigning_condition =
     BinaryOperation (node 25 BoolType) Token_GreaterThan (Some uint8)
       (assign 23 (write_var 21 var_a) (read_var 22 var_a)) (read_var 24 var_b)"

definition loop_example :: "bool \<Rightarrow> statement" where
  "loop_example isDoWhile =
     WhileStatement (30, 30) isDoWhile assigning_condition
       (Block (29, 29) [statement_of 28 (assign 27 (write_var 26 var_a) (read_var 20 var_b))])"

text \<open>The checker when the body of \<^verbatim>\<open>function f(uint x, uint y, uint8 a, uint8 b)\<close> is
  entered.\<close>

definition at_body :: "(solver_call list \<Rightarrow> check_response) \<Rightarrow> checker" where
  "at_body b = entered (function_of [var_x, var_y, var_a, var_b] [] []) [] b"

text \<open>The assertions the solver holds at each of the queries of a history of calls, from the
  scopes \<open>sc\<close> on.\<close>

fun query_assumptions :: "smt_expr list list \<Rightarrow> solver_call list \<Rightarrow> smt_expr list list" where
  "query_assumptions sc [] = []"
| "query_assumptions sc (c # cs) =
     (if is_check c then [concat sc] else []) @ query_assumptions (scopes_step sc c) cs"

section \<open>Invariants of a traversal\<close>

text \<open>
  The scope depth after a sequence of solver calls that starts at depth \<open>d\<close>; it is undefined
  when the sequence pops a scope it did not push, queries the solver outside of every scope it
  pushed, or resets the solver.
\<close>

fun scan :: "nat \<Rightarrow> solver_call list \<Rightarrow> nat option" where
  "scan d [] = Some d"
| "scan d (Solver_push # cs) = scan (Suc d) cs"
| "scan d (Solver_pop # cs) = (case d of 0 \<Rightarrow> None | Suc d' \<Rightarrow> scan d' cs)"
| "scan d (Solver_check _ # cs) = (case d of 0 \<Rightarrow> None | Suc _ \<Rightarrow> scan d cs)"
| "scan d (Solver_addAssertion _ # cs) = scan d cs"
| "scan d (Solver_reset # cs) = None"

definition well_scoped :: "solver_call list \<Rightarrow> bool" where
  "well_scoped ext \<longleftrightarrow> scan 0 ext = Some 0"

definition extends :: "checker \<Rightarrow> checker \<Rightarrow> bool" where
  "extends s s' \<longleftrightarrow>
     backend (m_interface s') = backend (m_interface s) \<and>
     (\<exists>ext. calls (m_interface s') = calls (m_interface s) @ ext \<and> well_scoped ext)"

text \<open>The indices that \<^verbatim>\<open>copyVariableIndices\<close> saves (lines 1341--1347) and the variables
  after \<^verbatim>\<open>resetVariableIndices\<close> has written saved indices back (lines 1349--1353).\<close>

definition indices :: "checker \<Rightarrow> variable_indices" where
  "indices s = map (\<lambda>(k, d, v). (k, sv_index v)) (m_variables s)"

definition reset_indices ::
  "variable_indices \<Rightarrow> (nat \<times> variable_declaration \<times> symbolic_variable) list
     \<Rightarrow> (nat \<times> variable_declaration \<times> symbolic_variable) list" where
  "reset_indices idx vars =
     foldl (\<lambda>vs (k, i). update_variable k (\<lambda>v. v\<lparr>sv_index := i\<rparr>) vs) vars idx"

text \<open>Every variable's current index was handed out before, and a later state knows every
  variable of an earlier one, under its name and with a next free index that is not smaller.\<close>

definition ssa_wellformed :: "checker \<Rightarrow> bool" where
  "ssa_wellformed s \<longleftrightarrow>
     distinct (map fst (m_variables s)) \<and>
     (\<forall>(k, d, v) \<in> set (m_variables s). sv_index v < sv_nextFreeIndex v)"

definition ssa_grows :: "checker \<Rightarrow> checker \<Rightarrow> bool" where
  "ssa_grows s s' \<longleftrightarrow>
     (\<forall>k d v. map_of (m_variables s) k = Some (d, v) \<longrightarrow>
        (\<exists>v'. map_of (m_variables s') k = Some (d, v') \<and> sv_name v' = sv_name v
              \<and> sv_nextFreeIndex v \<le> sv_nextFreeIndex v'))"

definition advances :: "checker \<Rightarrow> checker \<Rightarrow> bool" where
  "advances s s' \<longleftrightarrow>
     m_functionPath s' = m_functionPath s \<and> m_pathConditions s' = m_pathConditions s
     \<and> extends s s' \<and> (ssa_wellformed s \<longrightarrow> ssa_wellformed s' \<and> ssa_grows s s')"

text \<open>A part of the traversal of a function body: it leaves the path of visited functions and
  the path conditions as it found them, and the state advances.\<close>

definition inside :: "'a M \<Rightarrow> bool" where
  "inside m \<longleftrightarrow>
     (\<forall>s r s'. m s = Inr (r, s') \<longrightarrow> m_functionPath s \<noteq> [] \<longrightarrow> advances s s')"

text \<open>A step that leaves the solver, the variables, the path of visited functions and the path
  conditions alone.\<close>

definition quiet :: "'a M \<Rightarrow> bool" where
  "quiet m \<longleftrightarrow>
     (\<forall>s r s'. m s = Inr (r, s') \<longrightarrow>
        m_interface s' = m_interface s \<and> m_variables s' = m_variables s
        \<and> m_functionPath s' = m_functionPath s \<and> m_pathConditions s' = m_pathConditions s)"

text \<open>A step that only adds warnings and terms of expressions.\<close>

definition noted :: "checker \<Rightarrow> checker \<Rightarrow> bool" where
  "noted s s' \<longleftrightarrow>
     m_interface s' = m_interface s \<and> m_variables s' = m_variables s
     \<and> m_functionPath s' = m_functionPath s \<and> m_pathConditions s' = m_pathConditions s
     \<and> m_library s' = m_library s \<and> loopComment s' = loopComment s
     \<and> (\<forall>n v. m_expressions s n = Some v \<longrightarrow> m_expressions s' n = Some v)
     \<and> (\<exists>ws. m_errorReporter s' = m_errorReporter s @ ws)"


section \<open>Runs of the checker\<close>

lemma ret_run [simp]: "ret x s = Inr (r, s') \<longleftrightarrow> r = x \<and> s' = s"
  by (auto simp: ret_def)

lemma throw_run [simp]: "throw e s = Inr p \<longleftrightarrow> False"
  by (simp add: throw_def)

lemma gets_run [simp]: "gets f s = Inr (r, s') \<longleftrightarrow> r = f s \<and> s' = s"
  by (auto simp: gets_def)

lemma modify_run [simp]: "modify f s = Inr (r, s') \<longleftrightarrow> s' = f s"
  by (auto simp: modify_def)

lemma bind_run: "bind m f s = Inr (r, s') \<longleftrightarrow> (\<exists>x s1. m s = Inr (x, s1) \<and> f x s1 = Inr (r, s'))"
  by (auto simp: bind_def split: sum.splits)

lemma seq_run: "seq m n s = Inr (r, s') \<longleftrightarrow> (\<exists>x s1. m s = Inr (x, s1) \<and> n s1 = Inr (r, s'))"
  by (simp add: seq_def bind_run)

lemma whenM_run: "whenM b m s = Inr (r, s') \<longleftrightarrow> (if b then m s = Inr (r, s') else s' = s)"
  by (simp add: whenM_def)

lemma solAssert_run [simp]: "solAssert b s = Inr (r, s') \<longleftrightarrow> b \<and> s' = s"
  by (simp add: solAssert_def)

lemma bind_Inl: "bind m f s = Inl e \<longleftrightarrow> m s = Inl e \<or> (\<exists>x s1. m s = Inr (x, s1) \<and> f x s1 = Inl e)"
  by (auto simp: bind_def split: sum.splits)

lemma seq_Inl: "seq m n s = Inl e \<longleftrightarrow> m s = Inl e \<or> (\<exists>x s1. m s = Inr (x, s1) \<and> n s1 = Inl e)"
  by (simp add: seq_def bind_Inl)

lemma warning_run [simp]:
  "warning l msg sec s = Inr (r, s') \<longleftrightarrow> s' = s\<lparr>m_errorReporter := m_errorReporter s @ [Warning l msg sec]\<rparr>"
  by (simp add: warning_def)

lemma interface_call_run [simp]:
  "interface_call c s = Inr (r, s') \<longleftrightarrow>
     s' = s\<lparr>m_interface := (m_interface s)\<lparr>calls := calls (m_interface s) @ [c]\<rparr>\<rparr>"
  by (simp add: interface_call_def)

lemma currentPathConditions_run [simp]:
  "currentPathConditions s = Inr (r, s') \<longleftrightarrow>
     r = (if m_pathConditions s = [] then Smt_Bool True else last (m_pathConditions s)) \<and> s' = s"
  by (auto simp: currentPathConditions_def)

lemma expr_known:
  "m_expressions s (node_id a) = Some v \<Longrightarrow> expr a s = Inr (currentValue_of v, s)"
  by (simp add: expr_def bind_def seq_def knownExpr_def gets_def whenM_def ret_def)

lemma checkSatisfiable_run:
  "checkSatisfiable s = Inr (r, s') \<longleftrightarrow>
     (let cs = calls (m_interface s) @ [Solver_check []];
          s1 = s\<lparr>m_interface := (m_interface s)\<lparr>calls := cs\<rparr>\<rparr>
      in case backend (m_interface s) cs of
           Response res vs \<Rightarrow> r = res \<and> s' = s1
         | SolverError c \<Rightarrow> r = ERROR \<and>
             s' = s1\<lparr>m_errorReporter := m_errorReporter s @
                 [Warning None (''Error querying SMT solver'' @ (case c of Some t \<Rightarrow> '': '' @ t | None \<Rightarrow> [])) []]\<rparr>)"
  by (auto simp: checkSatisfiable_def checkSatisfiableAndGenerateModel_def interface_check_def
      bind_run seq_run Let_def split: check_response.splits)


lemma checkSatisfiable_eq:
  "checkSatisfiable s =
     Inr (result_of (backend (m_interface s) (calls (m_interface s) @ [Solver_check []])),
          with_warnings (query_errors (backend (m_interface s) (calls (m_interface s) @ [Solver_check []])))
            (with_calls (calls (m_interface s) @ [Solver_check []]) s))"
  by (simp add: checkSatisfiable_def checkSatisfiableAndGenerateModel_def interface_check_def
      interface_call_def bind_def seq_def gets_def modify_def ret_def warning_def
      result_of_def query_errors_def with_calls_def with_warnings_def
      split: check_response.splits)

lemma checkBooleanNotConstant_unfold:
  "checkBooleanNotConstant condition description =
     (if isLiteral condition then ret ()
      else
        seq interface_push
       (seq (bind (expr (ann condition)) addPathConjoinedExpression)
       (bind checkSatisfiable (\<lambda>positiveResult.
        seq interface_pop
       (seq interface_push
       (seq (bind (expr (ann condition)) (\<lambda>c. addPathConjoinedExpression (Smt_Not c)))
       (bind checkSatisfiable (\<lambda>negatedResult.
        seq interface_pop
          (notConstant_verdict (Some (node_location (ann condition))) description
             positiveResult negatedResult)))))))))"
  unfolding checkBooleanNotConstant_def notConstant_verdict_def by (rule refl)

lemma checkBooleanNotConstant_eq:
  assumes "\<not> isLiteral cond" and "m_expressions s (node_id (ann cond)) = Some v"
  shows "checkBooleanNotConstant cond description s =
     (let c = currentValue_of v;
          calls1 = calls (m_interface s) @
            [Solver_push, Solver_addAssertion (Smt_And (pathCondition s) c), Solver_check []];
          calls2 = calls1 @
            [Solver_pop, Solver_push, Solver_addAssertion (Smt_And (pathCondition s) (Smt_Not c)),
             Solver_check []];
          r1 = backend (m_interface s) calls1;
          r2 = backend (m_interface s) calls2
      in notConstant_verdict (Some (node_location (ann cond))) description (result_of r1) (result_of r2)
           (with_calls (calls2 @ [Solver_pop]) (with_warnings (query_errors r1 @ query_errors r2) s)))"
  using assms
  by (simp add: checkBooleanNotConstant_unfold checkSatisfiable_eq
      addPathConjoinedExpression_def currentPathConditions_def addAssertion_def
      interface_push_def interface_pop_def interface_call_def expr_def knownExpr_def whenM_def
      bind_def seq_def gets_def modify_def ret_def Let_def pathCondition_def
      with_calls_def with_warnings_def)


lemma query_errors_empty: "result_of r \<noteq> ERROR \<Longrightarrow> query_errors r = []"
  by (cases r) (simp_all add: result_of_def query_errors_def)

lemma checkBooleanNotConstant_literal:
  "isLiteral cond \<Longrightarrow> checkBooleanNotConstant cond description s = Inr ((), s)"
  by (simp add: checkBooleanNotConstant_def ret_def)

lemma notConstant_verdict_rows:
  assumes "m_errorReporter s1 = ws @ query_errors r1 @ query_errors r2"
    and "pos = result_of r1" and "neg = result_of r2"
  shows "\<exists>s' new. notConstant_verdict loc description pos neg s1 = Inr ((), s')
      \<and> m_interface s' = m_interface s1
      \<and> m_errorReporter s' = ws @ new
      \<and> (pos = SATISFIABLE \<and> neg = SATISFIABLE \<longrightarrow> new = [])
      \<and> (pos = SATISFIABLE \<and> neg = UNSATISFIABLE \<longrightarrow>
            new = [Warning loc (replace_all description ''$VALUE'' ''true'') []])
      \<and> (pos = UNSATISFIABLE \<and> neg = SATISFIABLE \<longrightarrow>
            new = [Warning loc (replace_all description ''$VALUE'' ''false'') []])
      \<and> (pos = UNSATISFIABLE \<and> neg = UNSATISFIABLE \<longrightarrow>
            new = [Warning loc ''Condition unreachable.'' []])
      \<and> ((pos = UNKNOWN \<or> neg = UNKNOWN) \<and> pos \<notin> {CONFLICTING, ERROR}
            \<and> neg \<notin> {CONFLICTING, ERROR} \<longrightarrow> new = [])
      \<and> ((pos = CONFLICTING \<or> neg = CONFLICTING) \<and> pos \<noteq> ERROR \<and> neg \<noteq> ERROR \<longrightarrow>
            new = [Warning loc
              ''At least two SMT solvers provided conflicting answers. Results might not be sound.'' []])
      \<and> (pos = ERROR \<or> neg = ERROR \<longrightarrow>
            new \<noteq> [] \<and> last new = Warning loc ''Error trying to invoke SMT solver.'' [])"
proof -
  have q: "pos \<noteq> ERROR \<Longrightarrow> neg \<noteq> ERROR \<Longrightarrow> query_errors r1 @ query_errors r2 = []"
    using assms(2,3) by (simp add: query_errors_empty)
  show ?thesis
    using assms(1) q
    by (cases pos; cases neg)
      (simp_all add: notConstant_verdict_def warning_def modify_def ret_def bind_def seq_def
        solAssert_def)
qed


lemma map_of_update_variable:
  "map_of (update_variable k f vars) k' =
     (if k' = k then map_option (\<lambda>(d, v). (d, f v)) (map_of vars k) else map_of vars k')"
  by (induction vars) (auto simp: update_variable_def)

lemma knownVariable_run [simp]:
  "knownVariable d s = Inr (r, s') \<longleftrightarrow> r = (map_of (m_variables s) (vd_id d) \<noteq> None) \<and> s' = s"
  by (auto simp: knownVariable_def)

lemma variable_at_run:
  "variable_at k s = Inr (r, s') \<longleftrightarrow> (\<exists>d. map_of (m_variables s) k = Some (d, r)) \<and> s' = s"
  by (auto simp: variable_at_def bind_run split: option.splits)

lemma newValue_run:
  "newValue d s = Inr (r, s') \<longleftrightarrow>
     (\<exists>d' v. map_of (m_variables s) (vd_id d) = Some (d', v) \<and> r = currentValue_of (increaseIndex v)
        \<and> s' = s\<lparr>m_variables := update_variable (vd_id d) increaseIndex (m_variables s)\<rparr>)"
  by (auto simp: newValue_def bind_run seq_run variable_at_run map_of_update_variable)

lemma newValue_Inl:
  "newValue d s = Inl e \<longleftrightarrow> e = InternalCompilerError \<and> map_of (m_variables s) (vd_id d) = None"
  by (auto simp: newValue_def knownVariable_def variable_at_def solAssert_def bind_def seq_def
      gets_def modify_def ret_def throw_def map_of_update_variable split: option.splits)

lemma valueAtIndex_run:
  "valueAtIndex d i s = Inr (r, s') \<longleftrightarrow>
     (\<exists>d' v. map_of (m_variables s) (vd_id d) = Some (d', v) \<and> r = valueAtIndex_of v i) \<and> s' = s"
  by (auto simp: valueAtIndex_def bind_run seq_run variable_at_run)

lemma valueAtIndex_Inl:
  "valueAtIndex d i s = Inl e \<longleftrightarrow> e = InternalCompilerError \<and> map_of (m_variables s) (vd_id d) = None"
  by (auto simp: valueAtIndex_def knownVariable_def variable_at_def solAssert_def bind_def seq_def
      gets_def ret_def throw_def split: option.splits)

lemma addAssertion_run [simp]:
  "addAssertion e s = Inr (r, s') \<longleftrightarrow>
     s' = s\<lparr>m_interface := (m_interface s)\<lparr>calls := calls (m_interface s) @ [Solver_addAssertion e]\<rparr>\<rparr>"
  by (simp add: addAssertion_def)

lemma addAssertion_Inl [simp]: "addAssertion e s \<noteq> Inl err"
  by (simp add: addAssertion_def interface_call_def modify_def)

subsection \<open>Iteration\<close>

lemma forEach_run_each:
  "forEach xs f s = Inr (r, s') \<Longrightarrow> x \<in> set xs \<Longrightarrow> \<exists>s1 s2. f x s1 = Inr ((), s2)"
  by (induction xs arbitrary: s) (auto simp: seq_run)

lemma forEach_Inl_only:
  assumes "\<And>x s e. x \<in> set xs \<Longrightarrow> f x s = Inl e \<Longrightarrow> e = err"
    and "forEach xs f s = Inl e"
  shows "e = err"
  using assms by (induction xs arbitrary: s) (auto simp: seq_Inl ret_def)

lemma forEach_fails:
  assumes "x \<in> set xs" and "\<And>s. \<exists>e. f x s = Inl e"
  shows "\<exists>e. forEach xs f s = Inl e"
  using assms
proof (induction xs arbitrary: s)
  case Nil
  then show ?case by simp
next
  case (Cons y ys)
  show ?case
  proof (cases "f y s")
    case (Inl e)
    then show ?thesis by (auto simp: seq_Inl)
  next
    case (Inr p)
    then obtain u s1 where p: "f y s = Inr (u, s1)" by (cases p) auto
    show ?thesis
    proof (cases "x = y")
      case True
      with Cons.prems(2) [of s] p show ?thesis by simp
    next
      case False
      with Cons.prems have "x \<in> set ys" by simp
      from Cons.IH [OF this Cons.prems(2), of s1] p show ?thesis by (auto simp: seq_Inl)
    qed
  qed
qed

subsection \<open>The variables of a merge\<close>

lemma uniqueVars_ids_aux:
  "vd_id ` set (foldl (\<lambda>acc d. if vd_id d \<in> vd_id ` set acc then acc else insort_key vd_id d acc) acc vars)
     = vd_id ` set acc \<union> vd_id ` set vars"
  by (induction vars arbitrary: acc) (auto simp: set_insort_key)

lemma uniqueVars_ids: "vd_id ` set (uniqueVars vars) = vd_id ` set vars"
  by (simp add: uniqueVars_def uniqueVars_ids_aux)

lemma uniqueVars_subset_aux:
  "set (foldl (\<lambda>acc d. if vd_id d \<in> vd_id ` set acc then acc else insort_key vd_id d acc) acc vars)
     \<subseteq> set acc \<union> set vars"
proof (induction vars arbitrary: acc)
  case Nil
  show ?case by simp
next
  case (Cons a vars)
  show ?case
    using Cons.IH [of "if vd_id a \<in> vd_id ` set acc then acc else insort_key vd_id a acc"]
    by (auto simp: set_insort_key split: if_splits)
qed

lemma uniqueVars_subset: "set (uniqueVars vars) \<subseteq> set vars"
  using uniqueVars_subset_aux [of "[]" vars] by (simp add: uniqueVars_def)

lemma mergeVariables_forEach:
  "mergeVariables vars c iT iF = forEach (uniqueVars vars) (mergeVariable c iT iF)"
  unfolding mergeVariables_def mergeVariable_def by (rule refl)

lemma mergeVariable_run_ok:
  "mergeVariable c iT iF d s = Inr (r, s') \<Longrightarrow> merge_ok iT iF (vd_id d)"
  by (auto simp: mergeVariable_def merge_ok_def seq_run split: option.splits)

lemma mergeVariable_Inl:
  "mergeVariable c iT iF d s = Inl e \<Longrightarrow> e = InternalCompilerError"
  by (auto simp: mergeVariable_def seq_Inl bind_Inl newValue_Inl valueAtIndex_Inl throw_def
      solAssert_def ret_def split: option.splits if_splits)

lemma mergeVariable_not_ok:
  "\<not> merge_ok iT iF (vd_id d) \<Longrightarrow> \<exists>e. mergeVariable c iT iF d s = Inl e"
  by (auto simp: mergeVariable_def merge_ok_def seq_def bind_def solAssert_def throw_def
      split: option.splits)

lemma mergeVariables_checks:
  "(mergeVariables vars c iT iF s = Inr (r, s') \<longrightarrow> (\<forall>d\<in>set vars. merge_ok iT iF (vd_id d)))
   \<and> ((\<exists>d\<in>set vars. \<not> merge_ok iT iF (vd_id d)) \<longrightarrow>
         mergeVariables vars c iT iF s = Inl InternalCompilerError)"
proof (intro conjI impI)
  assume run: "mergeVariables vars c iT iF s = Inr (r, s')"
  show "\<forall>d\<in>set vars. merge_ok iT iF (vd_id d)"
  proof
    fix d assume "d \<in> set vars"
    then have "vd_id d \<in> vd_id ` set (uniqueVars vars)" by (simp add: uniqueVars_ids)
    then obtain d' where d': "d' \<in> set (uniqueVars vars)" "vd_id d' = vd_id d" by auto
    from forEach_run_each [OF run [unfolded mergeVariables_forEach] d'(1)]
    show "merge_ok iT iF (vd_id d)" using d'(2) by (auto dest: mergeVariable_run_ok)
  qed
next
  assume "\<exists>d\<in>set vars. \<not> merge_ok iT iF (vd_id d)"
  then obtain d where d: "d \<in> set vars" "\<not> merge_ok iT iF (vd_id d)" by auto
  then have "vd_id d \<in> vd_id ` set (uniqueVars vars)" by (simp add: uniqueVars_ids)
  then obtain d' where d': "d' \<in> set (uniqueVars vars)" "vd_id d' = vd_id d" by auto
  have "\<exists>e. forEach (uniqueVars vars) (mergeVariable c iT iF) s = Inl e"
    by (rule forEach_fails [OF d'(1)]) (use d(2) d'(2) in \<open>auto intro: mergeVariable_not_ok\<close>)
  then obtain e where e: "forEach (uniqueVars vars) (mergeVariable c iT iF) s = Inl e" by auto
  have "e = InternalCompilerError"
    by (rule forEach_Inl_only [OF _ e]) (auto dest: mergeVariable_Inl)
  with e show "mergeVariables vars c iT iF s = Inl InternalCompilerError"
    by (simp add: mergeVariables_forEach)
qed


section \<open>Division\<close>

lemma division_signed_eval:
  "eval \<sigma> (division l r True) =
     (case (eval \<sigma> l, eval \<sigma> r) of
        (Some (IntV a), Some (IntV b)) \<Rightarrow> if b = 0 then None else Some (IntV (a sdiv b))
      | _ \<Rightarrow> None)"
proof (cases "eval \<sigma> l")
  case None
  then show ?thesis by (simp add: division_def)
next
  case (Some x)
  note l = this
  show ?thesis
  proof (cases x)
    case (BoolV t)
    with l show ?thesis by (simp add: division_def)
  next
    case (IntV a)
    note a = this
    show ?thesis
    proof (cases "eval \<sigma> r")
      case None
      with l a show ?thesis by (simp add: division_def)
    next
      case (Some y)
      with l a show ?thesis
        by (cases y) (auto simp: division_def signed_divide_int_def sgn_if)
    qed
  qed
qed

lemma smt_div_eval:
  "eval \<sigma> (Smt_Div l r) =
     (case (eval \<sigma> l, eval \<sigma> r) of
        (Some (IntV a), Some (IntV b)) \<Rightarrow> if b = 0 then None else Some (IntV (a div b))
      | _ \<Rightarrow> None)"
proof (cases "eval \<sigma> l")
  case None
  then show ?thesis by simp
next
  case (Some x)
  note l = this
  show ?thesis
  proof (cases x)
    case (BoolV t)
    with l show ?thesis by simp
  next
    case (IntV a)
    note a = this
    show ?thesis
    proof (cases "eval \<sigma> r")
      case None
      with l a show ?thesis by simp
    next
      case (Some y)
      with l a show ?thesis by (cases y) auto
    qed
  qed
qed

lemma arithmeticOperation_Div:
  "arithmeticOperation a Token_Div (Some (IntegerType bits signed)) l r =
     bind (expr (ann l)) (\<lambda>left.
     bind (expr (ann r)) (\<lambda>right.
       seq (seq (checkCondition (Smt_Eq right (Smt_Int 0)) (node_location a)
                   ''Division by zero'' ''<result>'' (Some right))
                (addAssertion (smt_neq right (Smt_Int 0))))
      (seq (checkUnderOverflow (division left right signed) bits signed (node_location a))
           (defineExpr a (division left right signed)))))"
  by (simp add: arithmeticOperation_def whenM_def Let_def)


section \<open>Quiet steps\<close>

named_theorems quiet_intros

lemma quietI:
  "(\<And>s r s'. m s = Inr (r, s') \<Longrightarrow> m_interface s' = m_interface s \<and> m_variables s' = m_variables s
        \<and> m_functionPath s' = m_functionPath s \<and> m_pathConditions s' = m_pathConditions s)
   \<Longrightarrow> quiet m"
  by (simp add: quiet_def)

lemma quietD:
  "quiet m \<Longrightarrow> m s = Inr (r, s') \<Longrightarrow> m_interface s' = m_interface s \<and> m_variables s' = m_variables s
        \<and> m_functionPath s' = m_functionPath s \<and> m_pathConditions s' = m_pathConditions s"
  by (simp add: quiet_def)

lemma quiet_ret [quiet_intros]: "quiet (ret x)"
  by (simp add: quiet_def)

lemma quiet_throw [quiet_intros]: "quiet (throw e)"
  by (simp add: quiet_def)

lemma quiet_gets [quiet_intros]: "quiet (gets f)"
  by (simp add: quiet_def)

lemma quiet_solAssert [quiet_intros]: "quiet (solAssert b)"
  by (simp add: quiet_def)

lemma quiet_bind [quiet_intros]:
  assumes "quiet m" and "\<And>x. quiet (f x)"
  shows "quiet (bind m f)"
proof (rule quietI)
  fix s r s'
  assume "bind m f s = Inr (r, s')"
  then obtain x s1 where a: "m s = Inr (x, s1)" and b: "f x s1 = Inr (r, s')"
    by (auto simp: bind_run)
  from quietD [OF assms(1) a] quietD [OF assms(2) b]
  show "m_interface s' = m_interface s \<and> m_variables s' = m_variables s
        \<and> m_functionPath s' = m_functionPath s \<and> m_pathConditions s' = m_pathConditions s"
    by simp
qed

lemma quiet_seq [quiet_intros]: "quiet m \<Longrightarrow> quiet n \<Longrightarrow> quiet (seq m n)"
  by (simp add: seq_def quiet_bind)

lemma quiet_whenM [quiet_intros]: "quiet m \<Longrightarrow> quiet (whenM b m)"
  by (simp add: whenM_def quiet_ret)

lemma quiet_warning [quiet_intros]: "quiet (warning l msg sec)"
  by (simp add: quiet_def)

lemma quiet_modify:
  "(\<And>s. m_interface (f s) = m_interface s \<and> m_variables (f s) = m_variables s
      \<and> m_functionPath (f s) = m_functionPath s \<and> m_pathConditions (f s) = m_pathConditions s)
   \<Longrightarrow> quiet (modify f)"
  by (simp add: quiet_def)

lemma quiet_forEach [quiet_intros]: "(\<And>x. x \<in> set xs \<Longrightarrow> quiet (f x)) \<Longrightarrow> quiet (forEach xs f)"
  by (induction xs) (auto intro: quiet_intros)

lemma quiet_mapM [quiet_intros]: "(\<And>x. x \<in> set xs \<Longrightarrow> quiet (f x)) \<Longrightarrow> quiet (mapM f xs)"
  by (induction xs) (auto intro!: quiet_intros)

lemma quiet_knownExpr [quiet_intros]: "quiet (knownExpr a)"
  by (simp add: knownExpr_def quiet_gets)

lemma quiet_createExpr [quiet_intros]: "quiet (createExpr a)"
  unfolding createExpr_def
  by (auto intro!: quiet_intros quiet_modify split: option.splits prod.splits)

lemma quiet_expr [quiet_intros]: "quiet (expr a)"
  unfolding expr_def
  by (auto intro!: quiet_intros quiet_modify split: option.splits prod.splits)

lemma quiet_currentPathConditions [quiet_intros]: "quiet currentPathConditions"
  by (simp add: currentPathConditions_def quiet_gets)

lemma quiet_isRootFunction [quiet_intros]: "quiet isRootFunction"
  by (simp add: isRootFunction_def quiet_gets)

lemma quiet_visitedFunction [quiet_intros]: "quiet (visitedFunction f)"
  by (simp add: visitedFunction_def quiet_gets)

lemma quiet_knownVariable [quiet_intros]: "quiet (knownVariable d)"
  by (simp add: knownVariable_def quiet_gets)

lemma quiet_variable_at [quiet_intros]: "quiet (variable_at k)"
  unfolding variable_at_def by (auto intro!: quiet_intros split: option.splits)

lemma quiet_currentValue [quiet_intros]: "quiet (currentValue d)"
  unfolding currentValue_def by (auto intro!: quiet_intros)

lemma quiet_valueAtIndex [quiet_intros]: "quiet (valueAtIndex d i)"
  unfolding valueAtIndex_def by (auto intro!: quiet_intros)

lemma quiet_copyVariableIndices [quiet_intros]: "quiet copyVariableIndices"
  by (simp add: copyVariableIndices_def quiet_gets)

lemma quiet_knownGlobalSymbol [quiet_intros]: "quiet (knownGlobalSymbol n)"
  by (simp add: knownGlobalSymbol_def quiet_gets)

lemma quiet_global_at [quiet_intros]: "quiet (global_at n)"
  unfolding global_at_def by (auto intro!: quiet_intros split: option.splits)

lemma quiet_defineGlobalFunction [quiet_intros]: "quiet (defineGlobalFunction n a)"
  unfolding defineGlobalFunction_def
  by (auto intro!: quiet_intros quiet_modify split: option.splits prod.splits)

lemma quiet_visitFunctionIdentifier [quiet_intros]: "quiet (visitFunctionIdentifier a n r)"
  unfolding visitFunctionIdentifier_def
  by (auto intro!: quiet_intros quiet_modify split: option.splits prod.splits)


lemma quiet_defineExpr_parts:
  "quiet (seq (createExpr a) (solAssert b))"
  by (auto intro!: quiet_intros)

section \<open>Scopes\<close>

lemma scan_append:
  "scan d (a @ b) = (case scan d a of None \<Rightarrow> None | Some d' \<Rightarrow> scan d' b)"
  by (induction d a rule: scan.induct) (auto split: nat.splits)

lemma scan_shift: "scan d ext = Some d' \<Longrightarrow> scan (d + k) ext = Some (d' + k)"
  by (induction d ext arbitrary: d' rule: scan.induct) (auto split: nat.splits)

lemma well_scoped_Nil [simp]: "well_scoped []"
  by (simp add: well_scoped_def)

lemma well_scoped_append: "well_scoped a \<Longrightarrow> well_scoped b \<Longrightarrow> well_scoped (a @ b)"
  by (simp add: well_scoped_def scan_append)

lemma well_scoped_addAssertion [simp]: "well_scoped [Solver_addAssertion e]"
  by (simp add: well_scoped_def)

lemma well_scoped_pushed: "well_scoped ext \<Longrightarrow> well_scoped (Solver_push # ext @ [Solver_pop])"
  using scan_shift [of 0 ext 0 1] by (simp add: well_scoped_def scan_append)

lemma well_scoped_goal [simp]:
  "well_scoped [Solver_push, Solver_addAssertion e, Solver_check es, Solver_pop]"
  by (simp add: well_scoped_def)

lemma extends_refl [simp]: "extends s s"
  by (simp add: extends_def)

lemma extends_trans: "extends a b \<Longrightarrow> extends b c \<Longrightarrow> extends a c"
  by (auto simp: extends_def intro: well_scoped_append)

lemma extends_same:
  "m_interface s' = m_interface s \<Longrightarrow> extends s s'"
  by (simp add: extends_def)

lemma ssa_grows_refl [simp]: "ssa_grows s s"
  by (simp add: ssa_grows_def)

lemma ssa_grows_trans:
  assumes "ssa_grows a b" and "ssa_grows b c"
  shows "ssa_grows a c"
  unfolding ssa_grows_def
proof (intro allI impI)
  fix k d v
  assume "map_of (m_variables a) k = Some (d, v)"
  with assms(1) obtain v' where v': "map_of (m_variables b) k = Some (d, v')"
    "sv_name v' = sv_name v" "sv_nextFreeIndex v \<le> sv_nextFreeIndex v'"
    unfolding ssa_grows_def by blast
  with assms(2) obtain v'' where "map_of (m_variables c) k = Some (d, v'')"
    "sv_name v'' = sv_name v'" "sv_nextFreeIndex v' \<le> sv_nextFreeIndex v''"
    unfolding ssa_grows_def by blast
  with v' show "\<exists>v'. map_of (m_variables c) k = Some (d, v') \<and> sv_name v' = sv_name v
      \<and> sv_nextFreeIndex v \<le> sv_nextFreeIndex v'"
    by auto
qed

lemma advances_refl [simp]: "advances s s"
  by (simp add: advances_def)

lemma advances_trans: "advances a b \<Longrightarrow> advances b c \<Longrightarrow> advances a c"
  by (auto simp: advances_def intro: extends_trans ssa_grows_trans)

lemma advances_same:
  "m_interface s' = m_interface s \<Longrightarrow> m_variables s' = m_variables s \<Longrightarrow>
   m_functionPath s' = m_functionPath s \<Longrightarrow> m_pathConditions s' = m_pathConditions s \<Longrightarrow>
   advances s s'"
  by (simp add: advances_def extends_same ssa_wellformed_def ssa_grows_def)

section \<open>Steps inside a function\<close>

named_theorems inside_intros

lemma insideD:
  "inside m \<Longrightarrow> m s = Inr (r, s') \<Longrightarrow> m_functionPath s \<noteq> [] \<Longrightarrow> advances s s'"
  by (simp add: inside_def)

lemma advances_path: "advances s s' \<Longrightarrow> m_functionPath s' = m_functionPath s"
  by (simp add: advances_def)

lemma quiet_inside: "quiet m \<Longrightarrow> inside m"
  by (auto simp: quiet_def inside_def intro: advances_same)

lemma inside_ret [inside_intros]: "inside (ret x)"
  by (simp add: quiet_inside quiet_ret)

lemma inside_throw [inside_intros]: "inside (throw e)"
  by (simp add: inside_def)

lemma insideI:
  "(\<And>s r s'. m s = Inr (r, s') \<Longrightarrow> m_functionPath s \<noteq> [] \<Longrightarrow> advances s s') \<Longrightarrow> inside m"
  by (simp add: inside_def)

lemma inside_bind [inside_intros]:
  assumes "inside m" and "\<And>x. inside (f x)"
  shows "inside (bind m f)"
proof (rule insideI)
  fix s r s'
  assume "bind m f s = Inr (r, s')" and p: "m_functionPath s \<noteq> []"
  then obtain x s1 where a: "m s = Inr (x, s1)" and b: "f x s1 = Inr (r, s')"
    by (auto simp: bind_run)
  from insideD [OF assms(1) a p] have 1: "advances s s1" .
  with p have "m_functionPath s1 \<noteq> []" by (simp add: advances_def)
  from insideD [OF assms(2) b this] have "advances s1 s'" .
  with 1 show "advances s s'" by (rule advances_trans)
qed

lemma inside_seq [inside_intros]: "inside m \<Longrightarrow> inside n \<Longrightarrow> inside (seq m n)"
  by (simp add: seq_def inside_bind)

lemma inside_whenM [inside_intros]: "inside m \<Longrightarrow> inside (whenM b m)"
  by (simp add: whenM_def inside_ret)

lemma inside_forEach [inside_intros]: "(\<And>x. x \<in> set xs \<Longrightarrow> inside (f x)) \<Longrightarrow> inside (forEach xs f)"
  by (induction xs) (auto intro: inside_intros)

lemma inside_addAssertion [inside_intros]: "inside (addAssertion e)"
  by (auto simp: inside_def advances_def extends_def ssa_wellformed_def ssa_grows_def)


section \<open>Defined expressions\<close>

lemma createExpr_known:
  "createExpr a s = Inr (r, s1) \<Longrightarrow> \<exists>v. m_expressions s1 (node_id a) = Some v"
  by (auto simp: createExpr_def bind_run seq_run whenM_run split: option.splits prod.splits if_splits)

lemma defineExpr_run:
  assumes "defineExpr a v s = Inr (r, s')"
  shows "\<exists>e. calls (m_interface s') = calls (m_interface s) @ [Solver_addAssertion (Smt_Eq e v)]
      \<and> expr a s' = Inr (e, s')"
proof -
  from assms obtain u s1 e s2 where c: "createExpr a s = Inr (u, s1)"
    and e: "expr a s1 = Inr (e, s2)"
    and a: "addAssertion (Smt_Eq e v) s2 = Inr (r, s')"
    by (auto simp: defineExpr_def seq_run bind_run)
  from createExpr_known [OF c] obtain w where w: "m_expressions s1 (node_id a) = Some w" by auto
  from expr_known [OF w] e have s2: "s2 = s1" and ew: "e = currentValue_of w" by simp_all
  from quietD [OF quiet_createExpr c] have i: "m_interface s1 = m_interface s" by simp
  from a s2 have s': "s' = s1\<lparr>m_interface := (m_interface s1)\<lparr>calls := calls (m_interface s1) @ [Solver_addAssertion (Smt_Eq e v)]\<rparr>\<rparr>"
    by simp
  have "m_expressions s' (node_id a) = Some w" using w s' by simp
  from expr_known [OF this] ew i s' show ?thesis by auto
qed

lemma arithmeticOperation_Div_run:
  assumes "arithmeticOperation a Token_Div (Some (IntegerType bits signed)) l r s = Inr (u, s')"
  shows "\<exists>left right s1 s2 e cs.
      expr (ann l) s = Inr (left, s1) \<and> expr (ann r) s1 = Inr (right, s2)
      \<and> calls (m_interface s') = cs @ [Solver_addAssertion (Smt_Eq e (division left right signed))]
      \<and> expr a s' = Inr (e, s')"
proof -
  from assms obtain left s1 right s2 s3 u' where l: "expr (ann l) s = Inr (left, s1)"
    and r: "expr (ann r) s1 = Inr (right, s2)"
    and d: "defineExpr a (division left right signed) s3 = Inr (u', s')"
    by (auto simp: arithmeticOperation_Div bind_run seq_run)
  from defineExpr_run [OF d] l r show ?thesis by blast
qed

text \<open>
  C3.  The term of a signed division is the case split on the signs of the operands; under every
  valuation it has a value exactly when both operands have integer values and the divisor is not
  zero, and the value is the quotient rounded toward zero (\<open>sdiv\<close>), while the solver's own
  division rounds toward minus infinity (\<open>div\<close>).  The term of an unsigned division is the
  solver's division.  A division node of integer common type is defined as that term of the terms
  of its operands.
\<close>

theorem division_rounds_toward_zero:
  "division left right True =
     Smt_Ite (Smt_Ge left (Smt_Int 0))
       (Smt_Ite (Smt_Ge right (Smt_Int 0))
          (Smt_Div left right)
          (Smt_Sub (Smt_Int 0) (Smt_Div left (Smt_Sub (Smt_Int 0) right))))
       (Smt_Ite (Smt_Ge right (Smt_Int 0))
          (Smt_Sub (Smt_Int 0) (Smt_Div (Smt_Sub (Smt_Int 0) left) right))
          (Smt_Div (Smt_Sub (Smt_Int 0) left) (Smt_Sub (Smt_Int 0) right)))
   \<and> eval \<sigma> (division left right True) =
       (case (eval \<sigma> left, eval \<sigma> right) of
          (Some (IntV a), Some (IntV b)) \<Rightarrow> if b = 0 then None else Some (IntV (a sdiv b))
        | _ \<Rightarrow> None)
   \<and> eval \<sigma> (Smt_Div left right) =
       (case (eval \<sigma> left, eval \<sigma> right) of
          (Some (IntV a), Some (IntV b)) \<Rightarrow> if b = 0 then None else Some (IntV (a div b))
        | _ \<Rightarrow> None)
   \<and> division left right False = Smt_Div left right
   \<and> (arithmeticOperation n Token_Div (Some (IntegerType bits signed)) l r s = Inr (u, s') \<longrightarrow>
        (\<exists>tl tr s1 s2 e cs.
           expr (ann l) s = Inr (tl, s1) \<and> expr (ann r) s1 = Inr (tr, s2)
           \<and> calls (m_interface s') = cs @ [Solver_addAssertion (Smt_Eq e (division tl tr signed))]
           \<and> expr n s' = Inr (e, s')))"
  using division_signed_eval [of \<sigma> left right] smt_div_eval [of \<sigma> left right]
    arithmeticOperation_Div_run [of n bits signed l r s u s']
  by (simp add: division_def)


lemma returnsD: "returns m s \<Longrightarrow> \<exists>r s'. m s = Inr (r, s')"
  by (auto simp: returns_def split: sum.splits)

lemma division_example:
  "returns (arithmeticOperation (node 6 int8) Token_Div (Some int8) (read_var 3 var_x)
      (read_var 4 var_y)) (in_function (answers []))"
  by code_simp

theorem division_rounds_toward_zero_witness:
  "eval (\<lambda>_ _. IntV 0) (division (Smt_Int (- 7)) (Smt_Int 2) True) = Some (IntV (- 3))
   \<and> eval (\<lambda>_ _. IntV 0) (Smt_Div (Smt_Int (- 7)) (Smt_Int 2)) = Some (IntV (- 4))
   \<and> (\<exists>u s' tl tr s1 s2 e cs.
         arithmeticOperation (node 6 int8) Token_Div (Some int8) (read_var 3 var_x)
           (read_var 4 var_y) (in_function (answers [])) = Inr (u, s')
         \<and> expr (ann (read_var 3 var_x)) (in_function (answers [])) = Inr (tl, s1)
         \<and> expr (ann (read_var 4 var_y)) s1 = Inr (tr, s2)
         \<and> calls (m_interface s') = cs @ [Solver_addAssertion (Smt_Eq e (division tl tr True))]
         \<and> expr (node 6 int8) s' = Inr (e, s'))"
proof -
  from returnsD [OF division_example] obtain u s' where
    run: "arithmeticOperation (node 6 int8) Token_Div (Some (IntegerType 8 True)) (read_var 3 var_x)
           (read_var 4 var_y) (in_function (answers [])) = Inr (u, s')"
    by (auto simp: int8_def)
  have 1: "eval (\<lambda>_ _. IntV 0) (division (Smt_Int (- 7)) (Smt_Int 2) True) = Some (IntV (- 3))"
    using division_rounds_toward_zero [of "Smt_Int (- 7)" "Smt_Int 2" "\<lambda>_ _. IntV 0"]
    by (simp add: signed_divide_int_def)
  have 2: "eval (\<lambda>_ _. IntV 0) (Smt_Div (Smt_Int (- 7)) (Smt_Int 2)) = Some (IntV (- 4))"
    by simp
  from division_rounds_toward_zero [of _ _ _ "node 6 int8" 8 True "read_var 3 var_x"
      "read_var 4 var_y" "in_function (answers [])" u s'] run
  have "\<exists>tl tr s1 s2 e cs.
         expr (ann (read_var 3 var_x)) (in_function (answers [])) = Inr (tl, s1)
         \<and> expr (ann (read_var 4 var_y)) s1 = Inr (tr, s2)
         \<and> calls (m_interface s') = cs @ [Solver_addAssertion (Smt_Eq e (division tl tr True))]
         \<and> expr (node 6 int8) s' = Inr (e, s')"
    by blast
  with run 1 2 show ?thesis unfolding int8_def by blast
qed


text \<open>
  C10.  \<^verbatim>\<open>mergeVariables\<close> returns only if every variable of the list has an index in both
  snapshots and the two indices differ; when a variable of the list misses an index or has the
  same index in both, the merge ends the analysis with an internal compiler error (the failed
  \<^verbatim>\<open>solAssert\<close>), it does not warn.  So a variable that is reported as touched must have got a
  new index in one of the two merged branches.
\<close>

theorem mergeVariables_asserts_distinct_indices:
  "(mergeVariables vars c indicesEndTrue indicesEndFalse s = Inr (r, s') \<longrightarrow>
      (\<forall>d\<in>set vars. \<exists>t f. map_of indicesEndTrue (vd_id d) = Some t
          \<and> map_of indicesEndFalse (vd_id d) = Some f \<and> t \<noteq> f))
   \<and> ((\<exists>d\<in>set vars. map_of indicesEndTrue (vd_id d) = None
          \<or> map_of indicesEndFalse (vd_id d) = None
          \<or> map_of indicesEndTrue (vd_id d) = map_of indicesEndFalse (vd_id d)) \<longrightarrow>
       mergeVariables vars c indicesEndTrue indicesEndFalse s = Inl InternalCompilerError)"
proof -
  have ok: "merge_ok indicesEndTrue indicesEndFalse k \<longleftrightarrow>
      (\<exists>t f. map_of indicesEndTrue k = Some t \<and> map_of indicesEndFalse k = Some f \<and> t \<noteq> f)" for k
    by (auto simp: merge_ok_def split: option.splits)
  have "\<exists>d\<in>set vars. \<not> merge_ok indicesEndTrue indicesEndFalse (vd_id d)"
    if "\<exists>d\<in>set vars. map_of indicesEndTrue (vd_id d) = None
          \<or> map_of indicesEndFalse (vd_id d) = None
          \<or> map_of indicesEndTrue (vd_id d) = map_of indicesEndFalse (vd_id d)"
  proof -
    from that obtain d where d: "d \<in> set vars"
      and bad: "map_of indicesEndTrue (vd_id d) = None
          \<or> map_of indicesEndFalse (vd_id d) = None
          \<or> map_of indicesEndTrue (vd_id d) = map_of indicesEndFalse (vd_id d)"
      by blast
    from bad have "\<not> merge_ok indicesEndTrue indicesEndFalse (vd_id d)"
      by (auto simp: merge_ok_def split: option.splits)
    with d show ?thesis by blast
  qed
  with mergeVariables_checks [of vars c indicesEndTrue indicesEndFalse s r s']
  show ?thesis unfolding ok by blast
qed

lemma merge_examples:
  "returns (mergeVariables [var_x] (Smt_Bool True) [(1, 1), (2, 0)] [(1, 0), (2, 0)])
     (in_function (answers []))"
  "run_calls (acceptS (IfStatement (9, 9) x_gt_y
      (ExpressionStatement (8, 8)
         (Assignment (node 8 uint256) Token_AssignAdd (write_var 6 var_x) (number 7 1))) None))
     (in_function (answers [])) = Inl InternalCompilerError"
  by code_simp+

theorem mergeVariables_asserts_distinct_indices_witness:
  "(\<exists>r s'. mergeVariables [var_x] (Smt_Bool True) [(1, 1), (2, 0)] [(1, 0), (2, 0)]
        (in_function (answers [])) = Inr (r, s'))
   \<and> (\<exists>t f. map_of [(1, 1), (2, 0)] (vd_id var_x) = Some t
         \<and> map_of [(1, 0), (2, 0 :: nat)] (vd_id var_x) = Some f \<and> t \<noteq> (f :: nat))
   \<and> map_of [(1, 0 :: nat)] (vd_id var_x) = map_of [(1, 0 :: nat)] (vd_id var_x)
   \<and> mergeVariables [var_x] (Smt_Bool True) [(1, 0)] [(1, 0)] (in_function (answers []))
       = Inl InternalCompilerError
   \<and> run_calls (acceptS (IfStatement (9, 9) x_gt_y
        (ExpressionStatement (8, 8)
           (Assignment (node 8 uint256) Token_AssignAdd (write_var 6 var_x) (number 7 1))) None))
       (in_function (answers [])) = Inl InternalCompilerError"
proof -
  from returnsD [OF merge_examples(1)] obtain r s' where
    run: "mergeVariables [var_x] (Smt_Bool True) [(1, 1), (2, 0)] [(1, 0), (2, 0)]
        (in_function (answers [])) = Inr (r, s')" by blast
  from mergeVariables_asserts_distinct_indices [of "[var_x]" "Smt_Bool True" "[(1, 1), (2, 0)]"
      "[(1, 0), (2, 0)]" "in_function (answers [])" r s'] run
  have 1: "\<exists>t f. map_of [(1, 1), (2, 0)] (vd_id var_x) = Some t
         \<and> map_of [(1, 0), (2, 0 :: nat)] (vd_id var_x) = Some f \<and> t \<noteq> (f :: nat)"
    by simp
  from mergeVariables_asserts_distinct_indices [of "[var_x]" "Smt_Bool True" "[(1, 0)]"
      "[(1, 0)]" "in_function (answers [])"]
  have 2: "mergeVariables [var_x] (Smt_Bool True) [(1, 0)] [(1, 0)] (in_function (answers []))
       = Inl InternalCompilerError"
    by simp
  from run 1 2 merge_examples(2) show ?thesis by blast
qed


section \<open>Return statements\<close>

lemma knownExpr_run [simp]:
  "knownExpr a s = Inr (r, s') \<longleftrightarrow> r = (m_expressions s (node_id a) \<noteq> None) \<and> s' = s"
  by (auto simp: knownExpr_def)

lemma endVisit_Return_unknown:
  "e = None \<or> (\<exists>x. e = Some x \<and> m_expressions s (node_id (ann x)) = None)
     \<Longrightarrow> endVisit_Return loc e s = Inr ((), s)"
  by (auto simp: endVisit_Return_def knownExpr_def bind_def gets_def whenM_def ret_def)

lemma endVisit_Return_known:
  "m_expressions s (node_id (ann x)) = Some vx \<Longrightarrow> m_functionPath s \<noteq> [] \<Longrightarrow>
   endVisit_Return loc (Some x) s =
     (case returnParameters (last (m_functionPath s)) of
        [] \<Rightarrow> ret ()
      | [p] \<Rightarrow> bind (newValue p) (\<lambda>new. addAssertion (Smt_Eq (currentValue_of vx) new))
      | _ \<Rightarrow> warning (Some loc)
               ''Assertion checker does not yet support more than one return value.'' []) s"
  by (simp add: endVisit_Return_def knownExpr_def bind_def gets_def whenM_def ret_def expr_def
      seq_def split: list.splits)

text \<open>
  C9 (amended).  A return statement whose expression has a term, in a function with exactly one
  return parameter, gives the parameter the next index and asserts that the term of the expression
  equals the parameter at the new index.  With more than one return parameter and an expression
  that has a term, the checker only warns that it does not support more than one return value.
  In every other case (a return without an expression, an expression without a term, or a
  function without return parameters) the statement changes nothing and emits nothing.
\<close>

theorem endVisit_Return_cases:
  assumes "m_functionPath s \<noteq> []"
  shows "(e = None \<or> (\<exists>x. e = Some x \<and> m_expressions s (node_id (ann x)) = None)
            \<longrightarrow> endVisit_Return loc e s = Inr ((), s))
   \<and> (\<forall>x vx. e = Some x \<and> m_expressions s (node_id (ann x)) = Some vx \<longrightarrow>
        (returnParameters (last (m_functionPath s)) = [] \<longrightarrow> endVisit_Return loc e s = Inr ((), s))
      \<and> (\<forall>p d vp. returnParameters (last (m_functionPath s)) = [p]
              \<and> map_of (m_variables s) (vd_id p) = Some (d, vp) \<longrightarrow>
            endVisit_Return loc e s =
              Inr ((), with_calls (calls (m_interface s) @
                         [Solver_addAssertion (Smt_Eq (currentValue_of vx)
                            (Smt_Var (sv_name vp) (sv_nextFreeIndex vp)))])
                       (s\<lparr>m_variables := update_variable (vd_id p) increaseIndex (m_variables s)\<rparr>)))
      \<and> (\<forall>p q ps. returnParameters (last (m_functionPath s)) = p # q # ps \<longrightarrow>
            endVisit_Return loc e s =
              Inr ((), with_warnings
                [Warning (Some loc)
                   ''Assertion checker does not yet support more than one return value.'' []] s)))"
proof (intro conjI allI impI)
  assume "e = None \<or> (\<exists>x. e = Some x \<and> m_expressions s (node_id (ann x)) = None)"
  then show "endVisit_Return loc e s = Inr ((), s)" by (rule endVisit_Return_unknown)
next
  fix x vx
  assume k: "e = Some x \<and> m_expressions s (node_id (ann x)) = Some vx"
    and "returnParameters (last (m_functionPath s)) = []"
  then show "endVisit_Return loc e s = Inr ((), s)"
    using endVisit_Return_known [of s x vx loc] assms by (simp add: ret_def)
next
  fix x vx p d vp
  assume k: "e = Some x \<and> m_expressions s (node_id (ann x)) = Some vx"
    and p: "returnParameters (last (m_functionPath s)) = [p]
              \<and> map_of (m_variables s) (vd_id p) = Some (d, vp)"
  have "newValue p s = Inr (currentValue_of (increaseIndex vp),
      s\<lparr>m_variables := update_variable (vd_id p) increaseIndex (m_variables s)\<rparr>)"
    using p by (simp add: newValue_run)
  then show "endVisit_Return loc e s =
      Inr ((), with_calls (calls (m_interface s) @
                 [Solver_addAssertion (Smt_Eq (currentValue_of vx)
                    (Smt_Var (sv_name vp) (sv_nextFreeIndex vp)))])
               (s\<lparr>m_variables := update_variable (vd_id p) increaseIndex (m_variables s)\<rparr>))"
    using endVisit_Return_known [of s x vx loc] assms k p
    by (simp add: bind_def addAssertion_def interface_call_def modify_def with_calls_def
        currentValue_of_def valueAtIndex_of_def increaseIndex_def)
next
  fix x vx p q ps
  assume k: "e = Some x \<and> m_expressions s (node_id (ann x)) = Some vx"
    and "returnParameters (last (m_functionPath s)) = p # q # ps"
  then show "endVisit_Return loc e s =
      Inr ((), with_warnings
        [Warning (Some loc)
           ''Assertion checker does not yet support more than one return value.'' []] s)"
    using endVisit_Return_known [of s x vx loc] assms
    by (simp add: warning_def modify_def with_warnings_def)
qed

lemma return_example:
  "m_functionPath (entered (function_of [var_x] [var_r] []) [read_var 4 var_x] (answers [])) \<noteq> []"
  "m_expressions (entered (function_of [var_x] [var_r] []) [read_var 4 var_x] (answers []))
       (node_id (ann (read_var 4 var_x)))
     = Some \<lparr>sv_type = uint256, sv_name = ''expr_4'', sv_index = 0, sv_nextFreeIndex = 1\<rparr>"
  "returnParameters (last (m_functionPath
       (entered (function_of [var_x] [var_r] []) [read_var 4 var_x] (answers [])))) = [var_r]"
  "map_of (m_variables (entered (function_of [var_x] [var_r] []) [read_var 4 var_x] (answers [])))
       (vd_id var_r)
     = Some (var_r, \<lparr>sv_type = uint256, sv_name = ''r_3'', sv_index = 0, sv_nextFreeIndex = 1\<rparr>)"
  by code_simp+

theorem endVisit_Return_cases_witness:
  "m_functionPath (entered (function_of [var_x] [var_r] []) [read_var 4 var_x] (answers [])) \<noteq> []
   \<and> run_calls (endVisit_Return (9, 9) (Some (read_var 4 var_x)))
        (entered (function_of [var_x] [var_r] []) [read_var 4 var_x] (answers []))
     = Inr (calls (m_interface
              (entered (function_of [var_x] [var_r] []) [read_var 4 var_x] (answers []))) @
            [Solver_addAssertion (Smt_Eq (Smt_Var ''expr_4'' 0) (Smt_Var ''r_3'' 1))])"
  using endVisit_Return_cases [OF return_example(1), of "Some (read_var 4 var_x)" "(9, 9)"]
    return_example
  by (simp add: run_calls_def with_calls_def currentValue_of_def valueAtIndex_of_def)

text \<open>A function without return parameters: \<^verbatim>\<open>return;\<close> emits no warning.\<close>

theorem return_without_parameters_is_silent:
  "returnParameters (last (m_functionPath (in_function (answers [])))) = []
   \<and> run_calls (acceptS (Return (9, 9) None)) (in_function (answers []))
       = Inr (calls (m_interface (in_function (answers []))))
   \<and> run_warnings (acceptS (Return (9, 9) None)) (in_function (answers [])) = Inr []"
  by code_simp


section \<open>Goals\<close>

lemma noted_refl [simp]: "noted s s"
  by (simp add: noted_def)

lemma noted_trans: "noted a b \<Longrightarrow> noted b c \<Longrightarrow> noted a c"
  by (auto simp: noted_def)

lemma expr_noted:
  assumes "expr a s = Inr (e, s')"
  shows "noted s s'"
proof (cases "m_expressions s (node_id a)")
  case (Some v)
  from expr_known [OF this] assms have "s' = s" by simp
  then show ?thesis by simp
next
  case None
  with assms show ?thesis
    by (auto simp: expr_def createExpr_def knownExpr_def bind_run seq_run whenM_run noted_def
        loopComment_def split: option.splits prod.splits if_splits)
qed

lemma mapM_expr_noted:
  assumes "mapM (\<lambda>uf. bind (expr uf) (\<lambda>e. ret (e, f uf))) ufs s = Inr (r, s')"
  shows "noted s s'"
  using assms
proof (induction ufs arbitrary: s r)
  case Nil
  then show ?case by simp
next
  case (Cons uf ufs)
  from Cons.prems obtain e s1 rs where e: "expr uf s = Inr (e, s1)"
    and m: "mapM (\<lambda>uf. bind (expr uf) (\<lambda>e. ret (e, f uf))) ufs s1 = Inr (rs, s')"
    by (auto simp: bind_run)
  from expr_noted [OF e] Cons.IH [OF m] show ?case by (rule noted_trans)
qed

lemma expressionsToEvaluate_run:
  assumes "expressionsToEvaluate name val s = Inr (evals, s')"
  shows "noted s s' \<and> (\<exists>rest. evals = (case val of Some v \<Rightarrow> [(v, name)] | None \<Rightarrow> []) @ rest)"
proof -
  from assms obtain sourceAt :: "location \<Rightarrow> string" and ufTerms where
    m: "mapM (\<lambda>uf. bind (expr uf) (\<lambda>e. ret (e, sourceAt (node_location uf))))
          (filter (\<lambda>uf. isValueType (node_type uf)) (m_uninterpretedTerms s)) s = Inr (ufTerms, s')"
    and e: "\<exists>rest. evals = (case val of Some v \<Rightarrow> [(v, name)] | None \<Rightarrow> []) @ rest"
    by (auto simp: expressionsToEvaluate_def bind_run split: option.splits)
  from mapM_expr_noted [OF m] e show ?thesis by blast
qed

lemma seq_assoc: "seq (seq a b) c = seq a (seq b c)"
  by (simp add: seq_def bind_def fun_eq_iff split: sum.splits prod.splits)

lemma checkSatisfiableAndGenerateModel_eq:
  "checkSatisfiableAndGenerateModel es s =
     Inr ((result_of (backend (m_interface s) (calls (m_interface s) @ [Solver_check es])),
           values_of (m_library s) (backend (m_interface s) (calls (m_interface s) @ [Solver_check es]))),
          with_warnings (query_errors (backend (m_interface s) (calls (m_interface s) @ [Solver_check es])))
            (with_calls (calls (m_interface s) @ [Solver_check es]) s))"
proof (cases "backend (m_interface s) (calls (m_interface s) @ [Solver_check es])")
  case (Response res vs)
  then show ?thesis
    by (simp add: checkSatisfiableAndGenerateModel_def interface_check_def
      interface_call_def bind_def seq_def gets_def modify_def ret_def
      result_of_def query_errors_def with_calls_def with_warnings_def values_of_def
      cong: option.case_cong)
next
  case (SolverError c)
  then show ?thesis
    by (simp add: checkSatisfiableAndGenerateModel_def interface_check_def
      interface_call_def bind_def seq_def gets_def modify_def ret_def warning_def
      result_of_def query_errors_def with_calls_def with_warnings_def values_of_def)
qed

lemma goal_verdict_run:
  assumes "(case res of
            SATISFIABLE \<Rightarrow>
              if inFunction
              then seq (solAssert (length vals = length evals))
                       (warning (Some loc) (description @ '' happens here'')
                          [(modelMessage evals vals, None), (comment, None)])
              else warning (Some loc) (description @ '' happens here.'') [(comment, None)]
          | UNSATISFIABLE \<Rightarrow> ret ()
          | UNKNOWN \<Rightarrow>
              warning (Some loc) (description @ '' might happen here.'') [(comment, None)]
          | CONFLICTING \<Rightarrow>
              warning (Some loc)
                ''At least two SMT solvers provided conflicting answers. Results might not be sound.'' []
          | ERROR \<Rightarrow> warning (Some loc) ''Error trying to invoke SMT solver.'' []) s = Inr (u, s')"
  shows "s' = with_warnings (goal_report loc description inFunction evals comment res vals) s"
  using assms
  by (cases res) (auto simp: goal_report_def with_warnings_def seq_run split: if_splits)

lemma checkCondition_run:
  assumes "checkCondition c loc description name val s = Inr (u, s')"
  shows "\<exists>evals ws r.
      calls (m_interface s') = calls (m_interface s) @ goal_calls (pathCondition s) c (map fst evals)
    \<and> backend (m_interface s') = backend (m_interface s)
    \<and> m_variables s' = m_variables s \<and> m_functionPath s' = m_functionPath s
    \<and> m_pathConditions s' = m_pathConditions s
    \<and> (\<forall>n v. m_expressions s n = Some v \<longrightarrow> m_expressions s' n = Some v)
    \<and> (if m_functionPath s = [] then evals = []
        else \<exists>rest. evals = (case val of Some v \<Rightarrow> [(v, name)] | None \<Rightarrow> []) @ rest)
    \<and> r = backend (m_interface s)
            (calls (m_interface s) @
               [Solver_push, Solver_addAssertion (Smt_And (pathCondition s) c),
                Solver_check (map fst evals)])
    \<and> m_errorReporter s' = m_errorReporter s @ ws @
         goal_report loc description (m_functionPath s \<noteq> []) evals (loopComment s) (result_of r)
           (values_of (m_library s) r)"
proof -
  define s1 where "s1 = with_calls (calls (m_interface s) @
      [Solver_push, Solver_addAssertion (Smt_And (pathCondition s) c)]) s"
  have 1: "seq interface_push (addPathConjoinedExpression c) s = Inr ((), s1)"
    by (simp add: s1_def seq_def bind_def interface_push_def interface_call_def modify_def
        addPathConjoinedExpression_def currentPathConditions_def gets_def addAssertion_def
        with_calls_def pathCondition_def)
  have unf: "checkCondition c loc description name val =
     seq (seq interface_push (addPathConjoinedExpression c))
    (bind (gets (\<lambda>s. m_functionPath s \<noteq> [])) (\<lambda>inFunction.
     bind (if inFunction then expressionsToEvaluate name val
           else ret []) (\<lambda>evals.
     bind (checkSatisfiableAndGenerateModel (map fst evals)) (\<lambda>r.
     bind (gets loopComment) (\<lambda>comment.
     seq (case fst r of
            SATISFIABLE \<Rightarrow>
              if inFunction
              then seq (solAssert (length (snd r) = length evals))
                       (warning (Some loc) (description @ '' happens here'')
                          [(modelMessage evals (snd r), None), (comment, None)])
              else warning (Some loc) (description @ '' happens here.'') [(comment, None)]
          | UNSATISFIABLE \<Rightarrow> ret ()
          | UNKNOWN \<Rightarrow>
              warning (Some loc) (description @ '' might happen here.'') [(comment, None)]
          | CONFLICTING \<Rightarrow>
              warning (Some loc)
                ''At least two SMT solvers provided conflicting answers. Results might not be sound.'' []
          | ERROR \<Rightarrow> warning (Some loc) ''Error trying to invoke SMT solver.'' [])
         interface_pop)))))"
    unfolding checkCondition_def seq_assoc by (rule refl)
  from assms [unfolded unf] have "\<exists>evals s2 r s3 u3 s4.
      (if m_functionPath s1 \<noteq> [] then expressionsToEvaluate name val else ret []) s1 = Inr (evals, s2)
    \<and> checkSatisfiableAndGenerateModel (map fst evals) s2 = Inr (r, s3)
    \<and> (case fst r of
            SATISFIABLE \<Rightarrow>
              if m_functionPath s1 \<noteq> []
              then seq (solAssert (length (snd r) = length evals))
                       (warning (Some loc) (description @ '' happens here'')
                          [(modelMessage evals (snd r), None), (loopComment s3, None)])
              else warning (Some loc) (description @ '' happens here.'') [(loopComment s3, None)]
          | UNSATISFIABLE \<Rightarrow> ret ()
          | UNKNOWN \<Rightarrow>
              warning (Some loc) (description @ '' might happen here.'') [(loopComment s3, None)]
          | CONFLICTING \<Rightarrow>
              warning (Some loc)
                ''At least two SMT solvers provided conflicting answers. Results might not be sound.'' []
          | ERROR \<Rightarrow> warning (Some loc) ''Error trying to invoke SMT solver.'' []) s3 = Inr (u3, s4)
    \<and> interface_pop s4 = Inr (u, s')"
    by (simp add: seq_run bind_run 1)
  then obtain evals s2 r0 s3 u3 s4 where
    ev: "(if m_functionPath s1 \<noteq> [] then expressionsToEvaluate name val else ret []) s1 = Inr (evals, s2)"
    and ch0: "checkSatisfiableAndGenerateModel (map fst evals) s2 = Inr (r0, s3)"
    and vd0: "(case fst r0 of
            SATISFIABLE \<Rightarrow>
              if m_functionPath s1 \<noteq> []
              then seq (solAssert (length (snd r0) = length evals))
                       (warning (Some loc) (description @ '' happens here'')
                          [(modelMessage evals (snd r0), None), (loopComment s3, None)])
              else warning (Some loc) (description @ '' happens here.'') [(loopComment s3, None)]
          | UNSATISFIABLE \<Rightarrow> ret ()
          | UNKNOWN \<Rightarrow>
              warning (Some loc) (description @ '' might happen here.'') [(loopComment s3, None)]
          | CONFLICTING \<Rightarrow>
              warning (Some loc)
                ''At least two SMT solvers provided conflicting answers. Results might not be sound.'' []
          | ERROR \<Rightarrow> warning (Some loc) ''Error trying to invoke SMT solver.'' []) s3 = Inr (u3, s4)"
    and pop: "interface_pop s4 = Inr (u, s')"
    by blast
  define res where "res = fst r0"
  define vals where "vals = snd r0"
  have ch: "checkSatisfiableAndGenerateModel (map fst evals) s2 = Inr ((res, vals), s3)"
    using ch0 by (simp add: res_def vals_def)
  note vd = vd0 [folded res_def vals_def]
  have p1: "m_functionPath s1 = m_functionPath s" by (simp add: s1_def with_calls_def)
  have n2: "noted s1 s2" and evals: "if m_functionPath s = [] then evals = []
        else \<exists>rest. evals = (case val of Some v \<Rightarrow> [(v, name)] | None \<Rightarrow> []) @ rest"
  proof -
    show "noted s1 s2"
    proof (cases "m_functionPath s = []")
      case True
      with ev p1 show ?thesis by simp
    next
      case False
      with ev p1 have "expressionsToEvaluate name val s1 = Inr (evals, s2)" by simp
      from expressionsToEvaluate_run [OF this] show ?thesis by simp
    qed
    show "if m_functionPath s = [] then evals = []
        else \<exists>rest. evals = (case val of Some v \<Rightarrow> [(v, name)] | None \<Rightarrow> []) @ rest"
    proof (cases "m_functionPath s = []")
      case True
      with ev p1 show ?thesis by simp
    next
      case False
      with ev p1 have "expressionsToEvaluate name val s1 = Inr (evals, s2)" by simp
      from expressionsToEvaluate_run [OF this] False show ?thesis by simp
    qed
  qed
  from n2 obtain ws where e2': "m_errorReporter s2 = m_errorReporter s1 @ ws"
    by (auto simp: noted_def)
  define r where "r = backend (m_interface s)
            (calls (m_interface s) @
               [Solver_push, Solver_addAssertion (Smt_And (pathCondition s) c),
                Solver_check (map fst evals)])"
  have i2: "m_interface s2 = m_interface s1" using n2 by (simp add: noted_def)
  have l2: "m_library s2 = m_library s" using n2 by (simp add: noted_def s1_def with_calls_def)
  have r2: "backend (m_interface s2) (calls (m_interface s2) @ [Solver_check (map fst evals)]) = r"
    by (simp add: i2 r_def s1_def with_calls_def)
  from ch have res: "res = result_of r" and vals: "vals = values_of (m_library s) r"
    and s3: "s3 = with_warnings (query_errors r)
            (with_calls (calls (m_interface s2) @ [Solver_check (map fst evals)]) s2)"
    by (simp_all add: checkSatisfiableAndGenerateModel_eq r2 l2)
  have "loopComment s2 = loopComment s"
    using n2 by (simp add: noted_def s1_def with_calls_def loopComment_def)
  then have c3: "loopComment s3 = loopComment s"
    by (simp add: s3 loopComment_def with_warnings_def with_calls_def)
  from goal_verdict_run [OF vd] have s4: "s4 = with_warnings
      (goal_report loc description (m_functionPath s \<noteq> []) evals (loopComment s) (result_of r)
         (values_of (m_library s) r)) s3"
    by (simp add: p1 c3 res vals)
  from pop have s': "s' = with_calls (calls (m_interface s4) @ [Solver_pop]) s4"
    by (simp add: interface_pop_def with_calls_def)
  have e1: "m_errorReporter s1 = m_errorReporter s" by (simp add: s1_def with_calls_def)
  have e2: "m_errorReporter s2 = m_errorReporter s @ ws" by (simp add: e2' e1)
  have "m_errorReporter s' = m_errorReporter s @ (ws @ query_errors r) @
         goal_report loc description (m_functionPath s \<noteq> []) evals (loopComment s) (result_of r)
           (values_of (m_library s) r)"
    by (simp add: s' s4 s3 e2 with_warnings_def with_calls_def)
  moreover have "calls (m_interface s') =
      calls (m_interface s) @ goal_calls (pathCondition s) c (map fst evals)"
    by (simp add: s' s4 s3 i2 with_warnings_def with_calls_def s1_def goal_calls_def)
  moreover have "backend (m_interface s') = backend (m_interface s)"
    by (simp add: s' s4 s3 i2 with_warnings_def with_calls_def s1_def)
  moreover have "m_variables s' = m_variables s \<and> m_functionPath s' = m_functionPath s
    \<and> m_pathConditions s' = m_pathConditions s"
    using n2 by (simp add: s' s4 s3 noted_def with_warnings_def with_calls_def s1_def)
  moreover have "\<forall>n v. m_expressions s n = Some v \<longrightarrow> m_expressions s' n = Some v"
    using n2 by (simp add: s' s4 s3 noted_def with_warnings_def with_calls_def s1_def)
  moreover have "if m_functionPath s = [] then evals = []
        else \<exists>rest. evals = (case val of Some v \<Rightarrow> [(v, name)] | None \<Rightarrow> []) @ rest"
    using evals .
  ultimately show ?thesis using r_def by blast
qed


section \<open>Require and assert\<close>

lemma notConstant_verdict_warns:
  "notConstant_verdict loc description pos neg s = Inr (u, s') \<Longrightarrow> \<exists>ws. s' = with_warnings ws s"
  by (cases pos; cases neg)
    (auto simp: notConstant_verdict_def with_warnings_def bind_run seq_run
      intro: exI [of _ "[]"])

lemma notConstant_verdict_returns:
  "\<exists>s'. notConstant_verdict loc description pos neg s = Inr ((), s')"
  by (cases pos; cases neg)
    (simp_all add: notConstant_verdict_def warning_def modify_def ret_def bind_def seq_def
      solAssert_def)

lemma checkBooleanNotConstant_run:
  assumes "\<not> isLiteral cond" and "m_expressions s (node_id (ann cond)) = Some v"
  shows "\<exists>ws. checkBooleanNotConstant cond description s =
      Inr ((), with_warnings ws
        (with_calls (calls (m_interface s) @ notConstant_calls (pathCondition s) (currentValue_of v)) s))"
proof -
  define c where "c = currentValue_of v"
  define calls1 where "calls1 = calls (m_interface s) @
      [Solver_push, Solver_addAssertion (Smt_And (pathCondition s) c), Solver_check []]"
  define calls2 where "calls2 = calls1 @
      [Solver_pop, Solver_push, Solver_addAssertion (Smt_And (pathCondition s) (Smt_Not c)),
       Solver_check []]"
  define r1 where "r1 = backend (m_interface s) calls1"
  define r2 where "r2 = backend (m_interface s) calls2"
  define s1 where "s1 = with_calls (calls2 @ [Solver_pop])
      (with_warnings (query_errors r1 @ query_errors r2) s)"
  have eq: "checkBooleanNotConstant cond description s =
      notConstant_verdict (Some (node_location (ann cond))) description (result_of r1) (result_of r2) s1"
    using checkBooleanNotConstant_eq [OF assms, of description]
    by (simp add: Let_def c_def calls1_def calls2_def r1_def r2_def s1_def)
  from notConstant_verdict_returns obtain s' where
    v: "notConstant_verdict (Some (node_location (ann cond))) description (result_of r1)
          (result_of r2) s1 = Inr ((), s')"
    by blast
  from notConstant_verdict_warns [OF v] obtain ws where "s' = with_warnings ws s1" by blast
  then have "s' = with_warnings ((query_errors r1 @ query_errors r2) @ ws)
        (with_calls (calls (m_interface s) @ notConstant_calls (pathCondition s) (currentValue_of v)) s)"
    by (simp add: s1_def with_warnings_def with_calls_def calls2_def calls1_def c_def
        notConstant_calls_def)
  with eq v show ?thesis by auto
qed

lemma scopes_snoc: "scopes (cs @ [c]) = scopes_step (scopes cs) c"
  by (simp add: scopes_def)

lemma active_assertions_addAssertion:
  "active_assertions (cs @ [Solver_addAssertion e]) = insert e (active_assertions cs)"
  by (auto simp: active_assertions_def scopes_snoc split: list.splits)


section \<open>The steps of the checker inside a function\<close>

lemmas inside_quiet_steps [inside_intros] =
  quiet_gets [THEN quiet_inside] quiet_solAssert [THEN quiet_inside]
  quiet_warning [THEN quiet_inside] quiet_knownExpr [THEN quiet_inside]
  quiet_createExpr [THEN quiet_inside] quiet_expr [THEN quiet_inside]
  quiet_currentPathConditions [THEN quiet_inside] quiet_isRootFunction [THEN quiet_inside]
  quiet_visitedFunction [THEN quiet_inside] quiet_knownVariable [THEN quiet_inside]
  quiet_variable_at [THEN quiet_inside] quiet_currentValue [THEN quiet_inside]
  quiet_valueAtIndex [THEN quiet_inside] quiet_copyVariableIndices [THEN quiet_inside]
  quiet_knownGlobalSymbol [THEN quiet_inside] quiet_global_at [THEN quiet_inside]
  quiet_defineGlobalFunction [THEN quiet_inside] quiet_visitFunctionIdentifier [THEN quiet_inside]

lemma inside_modify:
  "(\<And>s. m_interface (f s) = m_interface s \<and> m_variables (f s) = m_variables s
      \<and> m_functionPath (f s) = m_functionPath s \<and> m_pathConditions (f s) = m_pathConditions s)
   \<Longrightarrow> inside (modify f)"
  by (rule quiet_inside) (rule quiet_modify)

lemma inside_mapM [inside_intros]: "(\<And>x. x \<in> set xs \<Longrightarrow> inside (f x)) \<Longrightarrow> inside (mapM f xs)"
  by (induction xs) (auto intro!: inside_intros)

subsection \<open>Variables\<close>

lemma update_variable_keys [simp]: "map fst (update_variable k f vars) = map fst vars"
  by (induction vars) (auto simp: update_variable_def)

lemma update_variable_set:
  "(k', d, v') \<in> set (update_variable k f vars) \<longleftrightarrow>
     (\<exists>v. (k', d, v) \<in> set vars \<and> v' = (if k' = k then f v else v))"
  unfolding update_variable_def by (force simp: image_iff split: if_splits)

lemma advances_update_variable:
  assumes "\<And>v. sv_name (f v) = sv_name v \<and> sv_nextFreeIndex v \<le> sv_nextFreeIndex (f v)
      \<and> (sv_index v < sv_nextFreeIndex v \<longrightarrow> sv_index (f v) < sv_nextFreeIndex (f v))"
  shows "advances s (s\<lparr>m_variables := update_variable k f (m_variables s)\<rparr>)"
  unfolding advances_def
proof (intro conjI impI)
  assume wf: "ssa_wellformed s"
  show "ssa_wellformed (s\<lparr>m_variables := update_variable k f (m_variables s)\<rparr>)"
    using wf assms by (fastforce simp: ssa_wellformed_def update_variable_set)
  show "ssa_grows s (s\<lparr>m_variables := update_variable k f (m_variables s)\<rparr>)"
    using assms by (auto simp: ssa_grows_def map_of_update_variable)
qed (simp_all add: extends_same)

lemma inside_newValue [inside_intros]: "inside (newValue d)"
proof (rule insideI)
  fix s r s'
  assume "newValue d s = Inr (r, s')"
  then have "s' = s\<lparr>m_variables := update_variable (vd_id d) increaseIndex (m_variables s)\<rparr>"
    by (auto simp: newValue_run)
  then show "advances s s'"
    by (simp add: advances_update_variable increaseIndex_def)
qed

lemma advances_new_variable:
  assumes "map_of (m_variables s) k = None" and "sv_index v < sv_nextFreeIndex v"
  shows "advances s (s\<lparr>m_variables := insort_key fst (k, d, v) (m_variables s)\<rparr>)"
  unfolding advances_def
proof (intro conjI impI)
  assume wf: "ssa_wellformed s"
  from assms(1) have k: "k \<notin> fst ` set (m_variables s)"
    by (simp add: map_of_eq_None_iff)
  show wf': "ssa_wellformed (s\<lparr>m_variables := insort_key fst (k, d, v) (m_variables s)\<rparr>)"
    using wf assms(2) k
    by (auto simp: ssa_wellformed_def distinct_insort_key set_insort_key)
  show "ssa_grows s (s\<lparr>m_variables := insort_key fst (k, d, v) (m_variables s)\<rparr>)"
    unfolding ssa_grows_def
  proof (intro allI impI)
    fix k' d' v'
    assume a: "map_of (m_variables s) k' = Some (d', v')"
    then have "(k', d', v') \<in> set (m_variables s)" by (rule map_of_SomeD)
    then have "(k', d', v') \<in> set (insort_key fst (k, d, v) (m_variables s))"
      by (simp add: set_insort_key)
    moreover from wf' have "distinct (map fst (insort_key fst (k, d, v) (m_variables s)))"
      by (simp add: ssa_wellformed_def)
    ultimately have "map_of (insort_key fst (k, d, v) (m_variables s)) k' = Some (d', v')"
      by (simp add: map_of_eq_Some_iff)
    then show "\<exists>v''. map_of (m_variables
        (s\<lparr>m_variables := insort_key fst (k, d, v) (m_variables s)\<rparr>)) k' = Some (d', v'')
        \<and> sv_name v'' = sv_name v' \<and> sv_nextFreeIndex v' \<le> sv_nextFreeIndex v''"
      by simp
  qed
qed (simp_all add: extends_same)

lemma newSymbolicVariable_fresh:
  "newSymbolicVariable t n = (abstract, v) \<Longrightarrow> sv_index v < sv_nextFreeIndex v"
  by (auto simp: newSymbolicVariable_def split: if_splits)

lemma inside_createVariable [inside_intros]: "inside (createVariable d)"
proof (rule insideI)
  fix s r s'
  assume run: "createVariable d s = Inr (r, s')"
  show "advances s s'"
  proof (cases "map_of (m_variables s) (vd_id d)")
    case (Some x)
    with run have "s' = s"
      by (simp add: createVariable_def bind_def knownVariable_def gets_def ret_def)
    then show ?thesis by simp
  next
    case None
    obtain abstract v where n: "newSymbolicVariable (vd_type d) (vd_name d @ ''_'' @ to_string (vd_id d))
        = (abstract, v)"
      by (cases "newSymbolicVariable (vd_type d) (vd_name d @ ''_'' @ to_string (vd_id d))")
    define s1 where "s1 = s\<lparr>m_variables := insort_key fst (vd_id d, d, v) (m_variables s)\<rparr>"
    have 1: "advances s s1"
      unfolding s1_def using None newSymbolicVariable_fresh [OF n] by (rule advances_new_variable)
    from run None n have "s' = s1 \<or> (\<exists>w. s' = s1\<lparr>m_errorReporter := w\<rparr>)"
      by (auto simp: createVariable_def bind_run seq_run s1_def split: if_splits)
    then have "advances s1 s'"
      by (auto intro: advances_same)
    with 1 show ?thesis by (rule advances_trans)
  qed
qed

lemma inside_setSymbolicZeroValue [inside_intros]: "inside (setSymbolicZeroValue e t)"
  unfolding setSymbolicZeroValue_def by (auto intro!: inside_intros)

lemma inside_setSymbolicUnknownValue [inside_intros]: "inside (setSymbolicUnknownValue e t)"
  unfolding setSymbolicUnknownValue_def by (auto intro!: inside_intros split: sol_type.splits)

lemma inside_setZeroValue_of [inside_intros]: "inside (setZeroValue_of v)"
  unfolding setZeroValue_of_def by (rule inside_intros)

lemma inside_setUnknownValue_of [inside_intros]: "inside (setUnknownValue_of v)"
  unfolding setUnknownValue_of_def by (rule inside_intros)

lemma inside_setZeroValue [inside_intros]: "inside (setZeroValue d)"
  unfolding setZeroValue_def by (auto intro!: inside_intros)

lemma inside_setUnknownValue [inside_intros]: "inside (setUnknownValue d)"
  unfolding setUnknownValue_def by (auto intro!: inside_intros)

lemma inside_resetVariables [inside_intros]: "inside (resetVariables vars)"
  unfolding resetVariables_def by (auto intro!: inside_intros)

lemma inside_eraseArrayKnowledge [inside_intros]: "inside eraseArrayKnowledge"
  unfolding eraseArrayKnowledge_def by (auto intro!: inside_intros)

lemma inside_arrayAssignment [inside_intros]: "inside arrayAssignment"
  unfolding arrayAssignment_def by (auto intro!: inside_intros inside_modify)

subsection \<open>Expressions and goals\<close>

lemma inside_defineExpr [inside_intros]: "inside (defineExpr a v)"
  unfolding defineExpr_def by (auto intro!: inside_intros)

lemma well_scoped_goal_calls [simp]: "well_scoped (goal_calls pc c es)"
  by (simp add: well_scoped_def goal_calls_def)

lemma well_scoped_notConstant_calls [simp]: "well_scoped (notConstant_calls pc c)"
  by (simp add: well_scoped_def notConstant_calls_def)

lemma advances_calls:
  assumes "calls (m_interface s') = calls (m_interface s) @ ext" and "well_scoped ext"
    and "backend (m_interface s') = backend (m_interface s)"
    and "m_variables s' = m_variables s" and "m_functionPath s' = m_functionPath s"
    and "m_pathConditions s' = m_pathConditions s"
  shows "advances s s'"
  using assms by (auto simp: advances_def extends_def ssa_wellformed_def ssa_grows_def)

lemma inside_checkCondition [inside_intros]: "inside (checkCondition c loc description name val)"
proof (rule insideI)
  fix s r s'
  assume "checkCondition c loc description name val s = Inr (r, s')"
  from checkCondition_run [OF this] obtain evals :: "(smt_expr \<times> string) list" where
    "calls (m_interface s') = calls (m_interface s) @ goal_calls (pathCondition s) c (map fst evals)"
    "backend (m_interface s') = backend (m_interface s)"
    "m_variables s' = m_variables s" "m_functionPath s' = m_functionPath s"
    "m_pathConditions s' = m_pathConditions s"
    by blast
  then show "advances s s'"
    by (rule advances_calls [OF _ well_scoped_goal_calls])
qed

lemma inside_checkUnderOverflow [inside_intros]: "inside (checkUnderOverflow v bits signed loc)"
  unfolding checkUnderOverflow_def by (auto intro!: inside_intros)


lemma addPathConjoinedExpression_run:
  "addPathConjoinedExpression e s = Inr (u, s') \<longleftrightarrow>
     s' = with_calls (calls (m_interface s) @ [Solver_addAssertion (Smt_And (pathCondition s) e)]) s"
  by (auto simp: addPathConjoinedExpression_def bind_run with_calls_def pathCondition_def)

lemma checkSatisfiable_frame:
  assumes "checkSatisfiable s = Inr (r, s')"
  shows "calls (m_interface s') = calls (m_interface s) @ [Solver_check []]
    \<and> backend (m_interface s') = backend (m_interface s)
    \<and> m_variables s' = m_variables s \<and> m_functionPath s' = m_functionPath s
    \<and> m_pathConditions s' = m_pathConditions s"
  using assms by (auto simp: checkSatisfiable_eq with_calls_def with_warnings_def)

lemma checkBooleanNotConstant_calls:
  assumes "checkBooleanNotConstant cond description s = Inr (u, s')"
  shows "\<exists>ext. calls (m_interface s') = calls (m_interface s) @ ext \<and> well_scoped ext
    \<and> (\<not> isLiteral cond \<longrightarrow> (\<exists>e1 e2. ext =
          [Solver_push, Solver_addAssertion (Smt_And (pathCondition s) e1), Solver_check [],
           Solver_pop, Solver_push,
           Solver_addAssertion (Smt_And (pathCondition s) (Smt_Not e2)), Solver_check [],
           Solver_pop]))
    \<and> backend (m_interface s') = backend (m_interface s)
    \<and> m_variables s' = m_variables s \<and> m_functionPath s' = m_functionPath s
    \<and> m_pathConditions s' = m_pathConditions s"
proof (cases "isLiteral cond")
  case True
  with assms have "s' = s" by (simp add: checkBooleanNotConstant_literal)
  with True show ?thesis by (intro exI [of _ "[]"]) simp
next
  case False
  from assms False have "\<exists>u1 s1 e1 s2 u3 s3 r1 s4 u5 s5 u6 s6 e2 s7 u8 s8 r2 s9 u10 s10.
      interface_push s = Inr (u1, s1) \<and> expr (ann cond) s1 = Inr (e1, s2)
    \<and> addPathConjoinedExpression e1 s2 = Inr (u3, s3) \<and> checkSatisfiable s3 = Inr (r1, s4)
    \<and> interface_pop s4 = Inr (u5, s5) \<and> interface_push s5 = Inr (u6, s6)
    \<and> expr (ann cond) s6 = Inr (e2, s7)
    \<and> addPathConjoinedExpression (Smt_Not e2) s7 = Inr (u8, s8)
    \<and> checkSatisfiable s8 = Inr (r2, s9) \<and> interface_pop s9 = Inr (u10, s10)
    \<and> notConstant_verdict (Some (node_location (ann cond))) description r1 r2 s10 = Inr (u, s')"
    unfolding checkBooleanNotConstant_unfold by (simp add: seq_run bind_run) blast
  then obtain u1 s1 e1 s2 u3 s3 r1 s4 u5 s5 u6 s6 e2 s7 u8 s8 r2 s9 u10 s10 where
    1: "interface_push s = Inr (u1, s1)" and 2: "expr (ann cond) s1 = Inr (e1, s2)"
    and 3: "addPathConjoinedExpression e1 s2 = Inr (u3, s3)"
    and 4: "checkSatisfiable s3 = Inr (r1, s4)"
    and 5: "interface_pop s4 = Inr (u5, s5)" and 6: "interface_push s5 = Inr (u6, s6)"
    and 7: "expr (ann cond) s6 = Inr (e2, s7)"
    and 8: "addPathConjoinedExpression (Smt_Not e2) s7 = Inr (u8, s8)"
    and 9: "checkSatisfiable s8 = Inr (r2, s9)" and 10: "interface_pop s9 = Inr (u10, s10)"
    and 11: "notConstant_verdict (Some (node_location (ann cond))) description r1 r2 s10 = Inr (u, s')"
    by blast
  note q2 = quietD [OF quiet_expr 2] and q7 = quietD [OF quiet_expr 7]
  note f4 = checkSatisfiable_frame [OF 4] and f9 = checkSatisfiable_frame [OF 9]
  from notConstant_verdict_warns [OF 11] obtain ws where s': "s' = with_warnings ws s10" by blast
  from 1 have s1: "s1 = with_calls (calls (m_interface s) @ [Solver_push]) s"
    by (simp add: interface_push_def with_calls_def)
  from 3 have s3: "s3 = with_calls (calls (m_interface s2) @
      [Solver_addAssertion (Smt_And (pathCondition s2) e1)]) s2"
    by (simp add: addPathConjoinedExpression_run)
  from 5 have s5: "s5 = with_calls (calls (m_interface s4) @ [Solver_pop]) s4"
    by (simp add: interface_pop_def with_calls_def)
  from 6 have s6: "s6 = with_calls (calls (m_interface s5) @ [Solver_push]) s5"
    by (simp add: interface_push_def with_calls_def)
  from 8 have s8: "s8 = with_calls (calls (m_interface s7) @
      [Solver_addAssertion (Smt_And (pathCondition s7) (Smt_Not e2))]) s7"
    by (simp add: addPathConjoinedExpression_run)
  from 10 have s10: "s10 = with_calls (calls (m_interface s9) @ [Solver_pop]) s9"
    by (simp add: interface_pop_def with_calls_def)
  have pcs: "pathCondition s2 = pathCondition s" "pathCondition s7 = pathCondition s"
    using q2 q7 f4 f9
    by (simp_all add: s8 s6 s5 s3 s1 with_calls_def with_warnings_def pathCondition_def)
  have c: "calls (m_interface s') = calls (m_interface s) @
      [Solver_push, Solver_addAssertion (Smt_And (pathCondition s) e1), Solver_check [],
       Solver_pop, Solver_push, Solver_addAssertion (Smt_And (pathCondition s) (Smt_Not e2)),
       Solver_check [], Solver_pop]"
    using q2 q7 f4 f9 pcs
    by (simp add: s' s10 s8 s6 s5 s3 s1 with_calls_def with_warnings_def)
  have b: "backend (m_interface s') = backend (m_interface s)"
    using q2 q7 f4 f9
    by (simp add: s' s10 s8 s6 s5 s3 s1 with_calls_def with_warnings_def)
  have v: "m_variables s' = m_variables s \<and> m_functionPath s' = m_functionPath s
    \<and> m_pathConditions s' = m_pathConditions s"
    using q2 q7 f4 f9
    by (simp add: s' s10 s8 s6 s5 s3 s1 with_calls_def with_warnings_def)
  have "well_scoped [Solver_push, Solver_addAssertion (Smt_And (pathCondition s) e1), Solver_check [],
       Solver_pop, Solver_push, Solver_addAssertion (Smt_And (pathCondition s) (Smt_Not e2)),
       Solver_check [], Solver_pop]"
    by (simp add: well_scoped_def)
  with c b v show ?thesis by blast
qed

lemma inside_checkBooleanNotConstant [inside_intros]:
  "inside (checkBooleanNotConstant cond description)"
proof (rule insideI)
  fix s r s'
  assume "checkBooleanNotConstant cond description s = Inr (r, s')"
  from checkBooleanNotConstant_calls [OF this] show "advances s s'"
    by (auto intro: advances_calls)
qed

subsection \<open>Handlers of expressions\<close>

lemma inside_defineGlobalVariable [inside_intros]: "inside (defineGlobalVariable n a increase)"
  unfolding defineGlobalVariable_def
  by (auto intro!: inside_intros inside_modify split: prod.splits)

lemma inside_assignment [inside_intros]: "inside (assignment d v loc)"
  unfolding assignment_def by (auto intro!: inside_intros split: sol_type.splits)

lemma inside_assignment_of [inside_intros]: "inside (assignment_of d e loc)"
  unfolding assignment_of_def by (auto intro!: inside_intros)

lemma inside_arrayIndexAssignment [inside_intros]: "inside (arrayIndexAssignment a lhs rhs)"
  unfolding arrayIndexAssignment_def
  by (auto intro!: inside_intros split: expression.splits referenced.splits option.splits)

lemma inside_endVisit_Assignment [inside_intros]: "inside (endVisit_Assignment a op lhs rhs)"
  unfolding endVisit_Assignment_def
  by (auto intro!: inside_intros split: expression.splits referenced.splits)

lemma inside_endVisit_TupleExpression [inside_intros]:
  "inside (endVisit_TupleExpression a isInlineArray components)"
  unfolding endVisit_TupleExpression_def
  by (auto intro!: inside_intros split: option.splits)

lemma inside_endVisit_UnaryOperation [inside_intros]:
  "inside (endVisit_UnaryOperation a op isPrefixOperation sub)"
  unfolding endVisit_UnaryOperation_def Let_def
  by (auto intro!: inside_intros split: expression.splits referenced.splits sol_type.splits)

lemma inside_arithmeticOperation [inside_intros]: "inside (arithmeticOperation a op commonType l r)"
  unfolding arithmeticOperation_def Let_def
  by (auto intro!: inside_intros split: option.splits sol_type.splits)

lemma inside_compareOperation [inside_intros]: "inside (compareOperation a op commonType l r)"
  unfolding compareOperation_def
  by (auto intro!: inside_intros split: option.splits)

lemma inside_booleanOperation [inside_intros]: "inside (booleanOperation a op commonType l r)"
  unfolding booleanOperation_def
  by (auto intro!: inside_intros split: option.splits)

lemma inside_endVisit_BinaryOperation [inside_intros]:
  "inside (endVisit_BinaryOperation a op commonType l r)"
  unfolding endVisit_BinaryOperation_def by (auto intro!: inside_intros)

lemma inside_addPathImpliedExpression [inside_intros]: "inside (addPathImpliedExpression e)"
  unfolding addPathImpliedExpression_def by (auto intro!: inside_intros)

lemma inside_visitAssert [inside_intros]: "inside (visitAssert a args)"
  unfolding visitAssert_def by (auto intro!: inside_intros split: list.splits)

lemma inside_visitRequire [inside_intros]: "inside (visitRequire a args)"
  unfolding visitRequire_def by (auto intro!: inside_intros split: list.splits)

lemma inside_visitGasLeft [inside_intros]: "inside (visitGasLeft a)"
  unfolding visitGasLeft_def by (auto intro!: inside_intros)

lemma inside_initializeFunctionCallParameters [inside_intros]:
  "inside (initializeFunctionCallParameters f callArgs)"
  unfolding initializeFunctionCallParameters_def
  by (auto intro!: inside_intros inside_modify split: option.splits)

lemma inside_inlineFunctionCall:
  assumes "\<And>f. calledFunction callee = Some f \<Longrightarrow> inside (accept f)"
  shows "inside (inlineFunctionCall accept a callee args)"
proof -
  have "inside (accept f)"
    if "calledExpr callee = Inr (Some e)" "referenced_of e = Some (FunctionRef f)" for e f
    using assms [of f] that by (simp add: calledFunction_def)
  then show ?thesis
    unfolding inlineFunctionCall_def
    by (auto intro!: inside_intros
        split: sum.splits option.splits referenced.splits sol_type.splits expression.splits
          list.splits)
qed

lemma inside_abstractFunctionCall [inside_intros]: "inside (abstractFunctionCall a callee args)"
  unfolding abstractFunctionCall_def
  by (auto intro!: inside_intros inside_modify split: option.splits)

lemma inside_endVisit_FunctionCall:
  assumes "\<And>f. calledFunction callee = Some f \<Longrightarrow> inside (accept f)"
  shows "inside (endVisit_FunctionCall accept a kind callee args)"
  unfolding endVisit_FunctionCall_def
  using inside_inlineFunctionCall [of callee accept a args, OF assms]
  by (auto intro!: inside_intros split: sol_type.splits)

lemma inside_endVisit_Identifier [inside_intros]: "inside (endVisit_Identifier a name r)"
  unfolding endVisit_Identifier_def
  by (auto intro!: inside_intros split: sol_type.splits referenced.splits)

lemma inside_endVisit_Literal [inside_intros]: "inside (endVisit_Literal a tok v)"
  unfolding endVisit_Literal_def by (auto intro!: inside_intros)

lemma inside_visit_MemberAccess [inside_intros]: "inside (visit_MemberAccess a memberName e)"
  unfolding visit_MemberAccess_def
  by (auto intro!: inside_intros split: expression.splits)

lemma inside_defineIndexAccess [inside_intros]: "inside (defineIndexAccess a index array)"
  unfolding defineIndexAccess_def
  by (auto intro!: inside_intros inside_modify split: option.splits)

lemma inside_endVisit_IndexAccess [inside_intros]: "inside (endVisit_IndexAccess a base index)"
  unfolding endVisit_IndexAccess_def
  by (auto intro!: inside_intros split: expression.splits referenced.splits option.splits)

lemma inside_endVisit_Return [inside_intros]: "inside (endVisit_Return loc e)"
  unfolding endVisit_Return_def
  by (auto intro!: inside_intros split: option.splits list.splits)

lemma inside_endVisit_VariableDeclarationStatement [inside_intros]:
  "inside (endVisit_VariableDeclarationStatement loc declarations initialValue)"
  unfolding endVisit_VariableDeclarationStatement_def
  by (auto intro!: inside_intros split: option.splits)


section \<open>Saved and restored indices\<close>

lemma copyVariableIndices_run [simp]:
  "copyVariableIndices s = Inr (r, s') \<longleftrightarrow> r = indices s \<and> s' = s"
  by (auto simp: copyVariableIndices_def indices_def)

lemma reset_indices_Nil [simp]: "reset_indices [] vars = vars"
  by (simp add: reset_indices_def)

lemma reset_indices_Cons [simp]:
  "reset_indices ((k, i) # idx) vars =
     reset_indices idx (update_variable k (\<lambda>v. v\<lparr>sv_index := i\<rparr>) vars)"
  by (simp add: reset_indices_def)

lemma resetVariableIndices_run:
  "resetVariableIndices idx s = Inr (u, s') \<Longrightarrow>
     s' = s\<lparr>m_variables := reset_indices idx (m_variables s)\<rparr>"
proof (induction idx arbitrary: s)
  case Nil
  then show ?case by (simp add: resetVariableIndices_def)
next
  case (Cons p idx)
  obtain k i where p: "p = (k, i)" by (cases p)
  from Cons.prems p obtain s1 where
    1: "s1 = s\<lparr>m_variables := update_variable k (\<lambda>v. v\<lparr>sv_index := i\<rparr>) (m_variables s)\<rparr>"
    and 2: "resetVariableIndices idx s1 = Inr (u, s')"
    by (auto simp: resetVariableIndices_def seq_run bind_run variable_at_run)
  from Cons.IH [OF 2] show ?case by (simp add: 1 p)
qed

lemma reset_indices_keys [simp]: "map fst (reset_indices idx vars) = map fst vars"
  by (induction idx arbitrary: vars) auto

lemma reset_indices_set:
  "(k, d, v') \<in> set (reset_indices idx vars) \<Longrightarrow>
     \<exists>v. (k, d, v) \<in> set vars \<and> v' = v\<lparr>sv_index := sv_index v'\<rparr>
       \<and> (sv_index v' = sv_index v \<or> (k, sv_index v') \<in> set idx)"
proof (induction idx arbitrary: vars)
  case Nil
  then show ?case by auto
next
  case (Cons p idx)
  obtain k0 i where p: "p = (k0, i)" by (cases p)
  from Cons.prems p have "(k, d, v') \<in> set (reset_indices idx
      (update_variable k0 (\<lambda>v. v\<lparr>sv_index := i\<rparr>) vars))"
    by simp
  from Cons.IH [OF this] obtain v1 where
    1: "(k, d, v1) \<in> set (update_variable k0 (\<lambda>v. v\<lparr>sv_index := i\<rparr>) vars)"
    and 2: "v' = v1\<lparr>sv_index := sv_index v'\<rparr>"
    and 3: "sv_index v' = sv_index v1 \<or> (k, sv_index v') \<in> set idx"
    by blast
  from 1 obtain v where 4: "(k, d, v) \<in> set vars"
    and 5: "v1 = (if k = k0 then v\<lparr>sv_index := i\<rparr> else v)"
    by (auto simp: update_variable_set)
  have "v' = v\<lparr>sv_index := sv_index v'\<rparr>"
    by (subst 2) (simp add: 5)
  moreover have "sv_index v' = sv_index v \<or> (k, sv_index v') \<in> set (p # idx)"
    using 3 5 p by (auto split: if_splits)
  ultimately show ?case using 4 by blast
qed

lemma reset_indices_map_of:
  "map_of (reset_indices idx vars) k = Some (d, v') \<Longrightarrow>
     \<exists>v. map_of vars k = Some (d, v) \<and> v' = v\<lparr>sv_index := sv_index v'\<rparr>"
proof (induction idx arbitrary: vars)
  case Nil
  then show ?case by auto
next
  case (Cons p idx)
  obtain k0 i where p: "p = (k0, i)" by (cases p)
  from Cons.prems p have "map_of (reset_indices idx
      (update_variable k0 (\<lambda>v. v\<lparr>sv_index := i\<rparr>) vars)) k = Some (d, v')"
    by simp
  from Cons.IH [OF this] obtain v1 where
    1: "map_of (update_variable k0 (\<lambda>v. v\<lparr>sv_index := i\<rparr>) vars) k = Some (d, v1)"
    and 2: "v' = v1\<lparr>sv_index := sv_index v'\<rparr>"
    by blast
  from 1 obtain v where 4: "map_of vars k = Some (d, v)"
    and 5: "v1 = (if k = k0 then v\<lparr>sv_index := i\<rparr> else v)"
    by (auto simp: map_of_update_variable split: if_splits)
  have "v' = v\<lparr>sv_index := sv_index v'\<rparr>"
    by (subst 2) (simp add: 5)
  with 4 show ?case by blast
qed

lemma reset_indices_defined:
  "map_of vars k = Some (d, v) \<Longrightarrow> \<exists>v'. map_of (reset_indices idx vars) k = Some (d, v')
     \<and> sv_name v' = sv_name v \<and> sv_nextFreeIndex v' = sv_nextFreeIndex v \<and> sv_type v' = sv_type v"
proof (induction idx arbitrary: vars v)
  case Nil
  then show ?case by auto
next
  case (Cons p idx)
  obtain k0 i where p: "p = (k0, i)" by (cases p)
  from Cons.prems have "\<exists>v1. map_of (update_variable k0 (\<lambda>v. v\<lparr>sv_index := i\<rparr>) vars) k = Some (d, v1)
      \<and> sv_name v1 = sv_name v \<and> sv_nextFreeIndex v1 = sv_nextFreeIndex v \<and> sv_type v1 = sv_type v"
    by (auto simp: map_of_update_variable)
  then obtain v1 where 1: "map_of (update_variable k0 (\<lambda>v. v\<lparr>sv_index := i\<rparr>) vars) k = Some (d, v1)"
    and 2: "sv_name v1 = sv_name v \<and> sv_nextFreeIndex v1 = sv_nextFreeIndex v \<and> sv_type v1 = sv_type v"
    by blast
  from Cons.IH [OF 1] 2 show ?case by (auto simp: p)
qed

text \<open>Indices that were saved in a state the checker advanced from can be written back.\<close>

lemma advances_restore:
  assumes adv: "advances s0 s2"
    and reset: "resetVariableIndices (indices s0) s2 = Inr (u, s4)"
  shows "advances s0 s4"
proof -
  from resetVariableIndices_run [OF reset]
  have s4: "s4 = s2\<lparr>m_variables := reset_indices (indices s0) (m_variables s2)\<rparr>" .
  have frame: "m_functionPath s4 = m_functionPath s0" "m_pathConditions s4 = m_pathConditions s0"
    "extends s0 s4"
    using adv by (simp_all add: s4 advances_def extends_def)
  have ssa: "ssa_wellformed s4 \<and> ssa_grows s0 s4" if wf0: "ssa_wellformed s0"
  proof
    from adv wf0 have wf2: "ssa_wellformed s2" and g: "ssa_grows s0 s2"
      by (simp_all add: advances_def)
    have d2: "distinct (map fst (m_variables s2))" using wf2 by (simp add: ssa_wellformed_def)
    have d0: "distinct (map fst (m_variables s0))" using wf0 by (simp add: ssa_wellformed_def)
    show "ssa_wellformed s4"
      unfolding ssa_wellformed_def
    proof (intro conjI ballI)
      show "distinct (map fst (m_variables s4))" using d2 by (simp add: s4)
    next
      fix x
      assume x: "x \<in> set (m_variables s4)"
      obtain k d v' where xe: "x = (k, d, v')" by (cases x)
      with x have "(k, d, v') \<in> set (reset_indices (indices s0) (m_variables s2))"
        by (simp add: s4)
      from reset_indices_set [OF this] obtain v where v: "(k, d, v) \<in> set (m_variables s2)"
        and v': "v' = v\<lparr>sv_index := sv_index v'\<rparr>"
        and i: "sv_index v' = sv_index v \<or> (k, sv_index v') \<in> set (indices s0)"
        by blast
      have n: "sv_nextFreeIndex v' = sv_nextFreeIndex v" by (subst v') simp
      from wf2 v have lt: "sv_index v < sv_nextFreeIndex v"
        by (auto simp: ssa_wellformed_def)
      from i have "sv_index v' < sv_nextFreeIndex v"
      proof
        assume "sv_index v' = sv_index v"
        with lt show ?thesis by simp
      next
        assume "(k, sv_index v') \<in> set (indices s0)"
        then obtain d0 v0 where v0: "(k, d0, v0) \<in> set (m_variables s0)"
          and e: "sv_index v' = sv_index v0"
          by (auto simp: indices_def)
        from wf0 v0 have lt0: "sv_index v0 < sv_nextFreeIndex v0"
          by (auto simp: ssa_wellformed_def)
        from v0 d0 have "map_of (m_variables s0) k = Some (d0, v0)"
          by (simp add: map_of_eq_Some_iff)
        with g obtain v2 where "map_of (m_variables s2) k = Some (d0, v2)"
          and le: "sv_nextFreeIndex v0 \<le> sv_nextFreeIndex v2"
          unfolding ssa_grows_def by blast
        then have "(k, d0, v2) \<in> set (m_variables s2)" by (simp add: map_of_SomeD)
        with v d2 have "v2 = v" by (auto dest: eq_key_imp_eq_value)
        with le lt0 e show ?thesis by simp
      qed
      with n show "case x of (k, d, v) \<Rightarrow> sv_index v < sv_nextFreeIndex v"
        by (simp add: xe)
    qed
    show "ssa_grows s0 s4"
      unfolding ssa_grows_def
    proof (intro allI impI)
      fix k d v
      assume "map_of (m_variables s0) k = Some (d, v)"
      with g obtain v2 where 2: "map_of (m_variables s2) k = Some (d, v2)"
        and n2: "sv_name v2 = sv_name v" "sv_nextFreeIndex v \<le> sv_nextFreeIndex v2"
        unfolding ssa_grows_def by blast
      from reset_indices_defined [OF 2, of "indices s0"] n2
      show "\<exists>v'. map_of (m_variables s4) k = Some (d, v') \<and> sv_name v' = sv_name v
          \<and> sv_nextFreeIndex v \<le> sv_nextFreeIndex v'"
        by (auto simp: s4)
    qed
  qed
  from frame ssa show ?thesis by (simp add: advances_def)
qed

lemma seq_bind: "seq a (bind b f) = bind (seq a b) f"
  by (simp add: seq_def bind_def fun_eq_iff split: sum.splits prod.splits)

lemma bind_assoc: "bind (bind m f) g = bind m (\<lambda>x. bind (f x) g)"
  by (simp add: bind_def fun_eq_iff split: sum.splits prod.splits)

lemma inside_restoring:
  assumes "inside m" and "\<And>x. inside (n x)"
  shows "inside (bind copyVariableIndices (\<lambda>idx.
           bind m (\<lambda>x. seq (resetVariableIndices idx) (n x))))"
proof (rule insideI)
  fix s r s'
  assume run: "bind copyVariableIndices (\<lambda>idx.
           bind m (\<lambda>x. seq (resetVariableIndices idx) (n x))) s = Inr (r, s')"
    and p: "m_functionPath s \<noteq> []"
  then obtain x s2 u s4 where m: "m s = Inr (x, s2)"
    and reset: "resetVariableIndices (indices s) s2 = Inr (u, s4)"
    and n: "n x s4 = Inr (r, s')"
    by (auto simp: bind_run seq_run)
  from insideD [OF assms(1) m p] have "advances s s2" .
  from advances_restore [OF this reset] have 1: "advances s s4" .
  with p have "m_functionPath s4 \<noteq> []" by (simp add: advances_def)
  from insideD [OF assms(2) n this] have "advances s4 s'" .
  with 1 show "advances s s'" by (rule advances_trans)
qed

section \<open>Branches, loops and function bodies\<close>

lemma inside_under_condition:
  assumes "inside m"
  shows "inside (seq (case c of Some e \<Rightarrow> pushPathCondition e | None \<Rightarrow> ret ())
           (seq m (seq (case c of Some e \<Rightarrow> popPathCondition | None \<Rightarrow> ret ())
                       copyVariableIndices)))"
proof (cases c)
  case None
  then show ?thesis using assms by (auto intro!: inside_intros)
next
  case (Some e)
  show ?thesis
  proof (rule insideI)
    fix s r s'
    assume run: "seq (case c of Some e \<Rightarrow> pushPathCondition e | None \<Rightarrow> ret ())
           (seq m (seq (case c of Some e \<Rightarrow> popPathCondition | None \<Rightarrow> ret ())
                       copyVariableIndices)) s = Inr (r, s')"
      and p: "m_functionPath s \<noteq> []"
    define s1 where "s1 = s\<lparr>m_pathConditions := m_pathConditions s @ [Smt_And (pathCondition s) e]\<rparr>"
    have 1: "pushPathCondition e s = Inr ((), s1)"
      by (simp add: pushPathCondition_def bind_def currentPathConditions_def gets_def modify_def
          s1_def pathCondition_def)
    from run Some 1 obtain u s2 where m: "m s1 = Inr (u, s2)"
      and pop: "popPathCondition s2 = Inr ((), s')"
      by (auto simp: seq_run)
    have p1: "m_functionPath s1 \<noteq> []" using p by (simp add: s1_def)
    from insideD [OF assms m p1] have a: "advances s1 s2" .
    from pop have s': "s' = s2\<lparr>m_pathConditions := butlast (m_pathConditions s2)\<rparr>"
      by (auto simp: popPathCondition_def seq_run bind_run)
    from a have pc: "m_pathConditions s2 = m_pathConditions s @ [Smt_And (pathCondition s) e]"
      by (simp add: advances_def s1_def)
    show "advances s s'"
      using a pc
      by (auto simp: advances_def s' s1_def extends_def ssa_wellformed_def ssa_grows_def)
  qed
qed

lemma visitBranch_alt:
  "visitBranch accept_statement condition =
     bind copyVariableIndices (\<lambda>idx.
       bind (seq (case condition of Some c \<Rightarrow> pushPathCondition c | None \<Rightarrow> ret ())
              (seq accept_statement
                (seq (case condition of Some c \<Rightarrow> popPathCondition | None \<Rightarrow> ret ())
                     copyVariableIndices)))
         (\<lambda>indicesAfterBranch. seq (resetVariableIndices idx) (ret indicesAfterBranch)))"
  unfolding visitBranch_def seq_def bind_assoc by (rule refl)

lemma inside_visitBranch [inside_intros]:
  "inside accept_statement \<Longrightarrow> inside (visitBranch accept_statement condition)"
  unfolding visitBranch_alt
  by (intro inside_restoring inside_under_condition inside_ret)

lemma inside_mergeVariables [inside_intros]: "inside (mergeVariables vars c iT iF)"
  unfolding mergeVariables_def
  by (auto intro!: inside_intros split: option.splits)

lemma inside_visit_IfStatement:
  assumes "inside accept_condition" and "inside accept_true"
    and "\<And>m. accept_false = Some m \<Longrightarrow> inside m"
  shows "inside (visit_IfStatement accept_condition accept_true accept_false condition
           trueStatement falseStatement)"
  unfolding visit_IfStatement_def
  using assms by (auto intro!: inside_intros split: option.splits)


lemma inside_scoped:
  assumes "inside m"
  shows "inside (seq interface_push (seq m interface_pop))"
proof (rule insideI)
  fix s r s'
  assume run: "seq interface_push (seq m interface_pop) s = Inr (r, s')"
    and p: "m_functionPath s \<noteq> []"
  define s1 where "s1 = with_calls (calls (m_interface s) @ [Solver_push]) s"
  have 1: "interface_push s = Inr ((), s1)"
    by (simp add: interface_push_def interface_call_def modify_def s1_def with_calls_def)
  from run 1 obtain u s2 where m: "m s1 = Inr (u, s2)"
    and pop: "interface_pop s2 = Inr (r, s')"
    by (auto simp: seq_run)
  have p1: "m_functionPath s1 \<noteq> []" using p by (simp add: s1_def with_calls_def)
  from insideD [OF assms m p1] have a: "advances s1 s2" .
  then obtain ext where ext: "calls (m_interface s2) = calls (m_interface s1) @ ext"
    "well_scoped ext" and b: "backend (m_interface s2) = backend (m_interface s1)"
    by (auto simp: advances_def extends_def)
  from pop have s': "s' = with_calls (calls (m_interface s2) @ [Solver_pop]) s2"
    by (simp add: interface_pop_def with_calls_def)
  have "calls (m_interface s') = calls (m_interface s) @ (Solver_push # ext @ [Solver_pop])"
    by (simp add: s' ext s1_def with_calls_def)
  moreover have "well_scoped (Solver_push # ext @ [Solver_pop])"
    using ext(2) by (rule well_scoped_pushed)
  moreover have "backend (m_interface s') = backend (m_interface s)"
    using b by (simp add: s' s1_def with_calls_def)
  ultimately have e: "extends s s'" unfolding extends_def by blast
  have w: "ssa_wellformed s1 = ssa_wellformed s" "ssa_wellformed s' = ssa_wellformed s2"
    "ssa_grows s s' = ssa_grows s1 s2"
    by (simp_all add: s1_def s' with_calls_def ssa_wellformed_def ssa_grows_def)
  from a e w show "advances s s'"
    by (simp add: advances_def s' s1_def with_calls_def)
qed

lemma visit_WhileStatement_alt:
  "visit_WhileStatement accept_condition accept_body loop isDoWhile condition =
     bind copyVariableIndices (\<lambda>indicesBeforeLoop.
     bind (seq (resetVariables (touchedS loop))
            (if isDoWhile
             then bind (visitBranch accept_body None) (\<lambda>indicesAfterLoop.
                  seq accept_condition
                 (seq (bind isRootFunction (\<lambda>root.
                         whenM root
                           (checkBooleanNotConstant condition
                              ''Do-while loop condition is always $VALUE.'')))
                      (ret indicesAfterLoop)))
             else seq accept_condition
                 (seq (bind isRootFunction (\<lambda>root.
                         whenM root
                           (checkBooleanNotConstant condition
                              ''While loop condition is always $VALUE.'')))
                      (bind (expr (ann condition)) (\<lambda>c. visitBranch accept_body (Some c))))))
       (\<lambda>indicesAfterLoop.
     seq (resetVariableIndices indicesBeforeLoop)
    (seq (whenM (\<not> isDoWhile) accept_condition)
    (bind (expr (ann condition)) (\<lambda>c.
     bind copyVariableIndices (\<lambda>indicesEndFalse.
     seq (mergeVariables (touchedS loop) c indicesAfterLoop indicesEndFalse)
         (modify (\<lambda>s. s\<lparr>m_loopExecutionHappened := True\<rparr>))))))))"
  unfolding visit_WhileStatement_def seq_bind [symmetric] by (rule refl)

lemma inside_visit_WhileStatement:
  assumes "inside accept_condition" and "inside accept_body"
  shows "inside (visit_WhileStatement accept_condition accept_body loop isDoWhile condition)"
  unfolding visit_WhileStatement_alt
  by (rule inside_restoring) (use assms in \<open>auto intro!: inside_intros inside_modify\<close>)

lemma visit_ForStatement_alt:
  "visit_ForStatement accept_init accept_condition accept_loopExpression accept_body
       condition loopExpression loopBody =
     seq (case accept_init of Some accept_i \<Rightarrow> accept_i | None \<Rightarrow> ret ())
    (bind copyVariableIndices (\<lambda>indicesBeforeLoop.
     bind (seq (resetVariables (uniqueVars (touchedS loopBody
             @ (case condition of Some c \<Rightarrow> touchedE c | None \<Rightarrow> [])
             @ (case loopExpression of Some l \<Rightarrow> touchedS l | None \<Rightarrow> []))))
          (seq (case (accept_condition, condition) of
                  (Some accept_c, Some c) \<Rightarrow>
                    seq accept_c
                        (bind isRootFunction (\<lambda>root.
                           whenM root
                             (checkBooleanNotConstant c ''For loop condition is always $VALUE.'')))
                | _ \<Rightarrow> ret ())
          (seq (seq interface_push
               (seq (seq (case condition of
                            Some c \<Rightarrow> bind (expr (ann c)) addAssertion
                          | None \<Rightarrow> ret ())
                    (seq accept_body
                         (case accept_loopExpression of Some accept_l \<Rightarrow> accept_l
                                                       | None \<Rightarrow> ret ())))
                interface_pop))
            copyVariableIndices)))
       (\<lambda>indicesAfterLoop.
     seq (resetVariableIndices indicesBeforeLoop)
    (seq (case accept_condition of Some accept_c \<Rightarrow> accept_c | None \<Rightarrow> ret ())
    (bind (case condition of
             Some c \<Rightarrow> expr (ann c)
           | None \<Rightarrow> ret (Smt_Bool True)) (\<lambda>forCondition.
     bind copyVariableIndices (\<lambda>indicesEndFalse.
     seq (mergeVariables (uniqueVars (touchedS loopBody
             @ (case condition of Some c \<Rightarrow> touchedE c | None \<Rightarrow> [])
             @ (case loopExpression of Some l \<Rightarrow> touchedS l | None \<Rightarrow> [])))
            forCondition indicesAfterLoop indicesEndFalse)
         (modify (\<lambda>s. s\<lparr>m_loopExecutionHappened := True\<rparr>)))))))))"
  unfolding visit_ForStatement_def Let_def seq_bind [symmetric] seq_assoc by (rule refl)

lemma inside_visit_ForStatement:
  assumes "\<And>m. accept_init = Some m \<Longrightarrow> inside m"
    and "\<And>m. accept_condition = Some m \<Longrightarrow> inside m"
    and "\<And>m. accept_loopExpression = Some m \<Longrightarrow> inside m"
    and "inside accept_body"
  shows "inside (visit_ForStatement accept_init accept_condition accept_loopExpression accept_body
       condition loopExpression loopBody)"
proof -
  have i: "inside (case accept_init of Some accept_i \<Rightarrow> accept_i | None \<Rightarrow> ret ())"
    using assms(1) by (auto intro!: inside_intros split: option.splits)
  have c: "inside (case accept_condition of Some accept_c \<Rightarrow> accept_c | None \<Rightarrow> ret ())"
    using assms(2) by (auto intro!: inside_intros split: option.splits)
  have l: "inside (case accept_loopExpression of Some accept_l \<Rightarrow> accept_l | None \<Rightarrow> ret ())"
    using assms(3) by (auto intro!: inside_intros split: option.splits)
  have a: "inside (case condition of Some c \<Rightarrow> bind (expr (ann c)) addAssertion | None \<Rightarrow> ret ())"
    by (auto intro!: inside_intros split: option.splits)
  have k: "inside (case (accept_condition, condition) of
                  (Some accept_c, Some c) \<Rightarrow>
                    seq accept_c
                        (bind isRootFunction (\<lambda>root.
                           whenM root
                             (checkBooleanNotConstant c ''For loop condition is always $VALUE.'')))
                | _ \<Rightarrow> ret ())"
    using assms(2) by (auto intro!: inside_intros split: option.splits)
  have body: "inside (seq interface_push
               (seq (seq (case condition of
                            Some c \<Rightarrow> bind (expr (ann c)) addAssertion
                          | None \<Rightarrow> ret ())
                    (seq accept_body
                         (case accept_loopExpression of Some accept_l \<Rightarrow> accept_l
                                                       | None \<Rightarrow> ret ())))
                interface_pop))"
    by (intro inside_scoped inside_seq a l assms(4))
  have f: "inside (case condition of Some c \<Rightarrow> expr (ann c) | None \<Rightarrow> ret (Smt_Bool True))"
    by (auto intro!: inside_intros split: option.splits)
  show ?thesis
    unfolding visit_ForStatement_alt
    by (intro inside_seq i inside_restoring inside_resetVariables k body
        inside_quiet_steps c inside_bind f inside_mergeVariables inside_modify) simp
qed


lemma inside_function:
  assumes "inside accept_modifiers" and "inside accept_body"
  shows "inside (seq (visit_FunctionDefinition f modifierInvocations)
           (seq accept_modifiers (seq accept_body endVisit_FunctionDefinition)))"
proof (rule insideI)
  fix s r s'
  assume run: "seq (visit_FunctionDefinition f modifierInvocations)
           (seq accept_modifiers (seq accept_body endVisit_FunctionDefinition)) s = Inr (r, s')"
    and p: "m_functionPath s \<noteq> []"
  from run obtain u1 s1 u2 s2 u3 s3 where 1: "visit_FunctionDefinition f modifierInvocations s = Inr (u1, s1)"
    and 2: "accept_modifiers s1 = Inr (u2, s2)" and 3: "accept_body s2 = Inr (u3, s3)"
    and 4: "endVisit_FunctionDefinition s3 = Inr (r, s')"
    by (auto simp: seq_run)
  from p have l: "length (m_functionPath s @ [f]) \<noteq> 1" by (cases "m_functionPath s") auto
  have "visit_FunctionDefinition f modifierInvocations s =
      Inr ((), (with_warnings
        (if modifierInvocations \<noteq> [] \<or> isConstructor f
         then [Warning (Some (fd_location f))
                 ''Assertion checker does not yet support constructors and functions with modifiers.'' []]
         else []) s)\<lparr>m_functionPath := m_functionPath s @ [f]\<rparr>)"
    using p
    by (simp add: visit_FunctionDefinition_def seq_def bind_def whenM_def warning_def modify_def
        isRootFunction_def gets_def ret_def with_warnings_def)
  with 1 have s1: "m_functionPath s1 = m_functionPath s @ [f]"
    "m_interface s1 = m_interface s" "m_variables s1 = m_variables s"
    "m_pathConditions s1 = m_pathConditions s"
    by (auto simp: with_warnings_def)
  have p1: "m_functionPath s1 \<noteq> []" by (simp add: s1)
  from insideD [OF assms(1) 2 p1] have a12: "advances s1 s2" .
  then have p2: "m_functionPath s2 \<noteq> []" using p1 by (simp add: advances_def)
  from insideD [OF assms(2) 3 p2] have a23: "advances s2 s3" .
  from a12 a23 have a13: "advances s1 s3" by (rule advances_trans)
  then have p3: "m_functionPath s3 = m_functionPath s @ [f]" by (simp add: advances_def s1)
  with l 4 have s': "s' = s3\<lparr>m_functionPath := butlast (m_functionPath s3)\<rparr>"
    by (auto simp: endVisit_FunctionDefinition_def seq_run bind_run whenM_run isRootFunction_def)
  from a13 p3 s1 show "advances s s'"
    by (auto simp: advances_def s' extends_def ssa_wellformed_def ssa_grows_def)
qed

lemma inside_option: "(\<And>m. x = Some m \<Longrightarrow> inside m) \<Longrightarrow>
    inside (case x of None \<Rightarrow> ret () | Some m \<Rightarrow> m)"
  by (cases x) (auto intro: inside_intros)

text \<open>Every visit of a node inside a function leaves the path of visited functions and the
  path conditions as it found them, extends the solver calls by calls that are balanced, and
  keeps the indices of the variables well formed.\<close>

lemma inside_accept:
  "inside (acceptE e)" "inside (acceptEs es)" "inside (acceptEos eos)"
  "inside (acceptS st)" "inside (acceptSs ss)" "inside (acceptF f)"
proof (induction e and es and eos and st and ss and f
    rule: acceptE_acceptEs_acceptEos_acceptS_acceptSs_acceptF.induct)
  case (7 a kind callee args)
  then show ?case
    by (auto intro!: inside_intros inside_endVisit_FunctionCall)
next
  case (9 a base index)
  then show ?case
    by (auto intro!: inside_intros split: option.splits)
next
  case (17 loc c t f)
  then show ?case
    by (auto intro!: inside_visit_IfStatement split: option.splits)
next
  case (18 loc isDoWhile c b)
  then show ?case
    by (auto intro!: inside_visit_WhileStatement)
next
  case (19 loc init c loopExpression b)
  then show ?case
    by (auto intro!: inside_visit_ForStatement split: option.splits)
next
  case (20 loc declarations initialValue)
  then show ?case
    by (auto intro!: inside_intros split: option.splits)
next
  case (22 loc e)
  then show ?case
    by (auto intro!: inside_intros split: option.splits)
next
  case (26 f modifierInvocations b)
  then have "inside (case b of None \<Rightarrow> ret () | Some s \<Rightarrow> acceptS s)"
    by (auto intro: inside_intros split: option.splits)
  with 26 show ?case
    by (simp add: inside_function)
qed (auto intro!: inside_intros)


section \<open>Scopes of the solver\<close>

lemma scopes_nonempty: "scopes cs \<noteq> []"
proof -
  have "sc \<noteq> [] \<Longrightarrow> foldl scopes_step sc cs \<noteq> []" for sc
  proof (induction cs arbitrary: sc)
    case Nil
    then show ?case by simp
  next
    case (Cons c cs)
    from Cons.prems have "scopes_step sc c \<noteq> []"
      by (cases c) (auto split: list.splits)
    from Cons.IH [OF this] show ?case by simp
  qed
  then show ?thesis by (simp add: scopes_def)
qed

lemma scopes_append: "scopes (cs @ ext) = foldl scopes_step (scopes cs) ext"
  by (simp add: scopes_def)

text \<open>A sequence of calls that never pops a scope it did not push keeps the scopes below it,
  and only adds assertions to the scope it started in.\<close>

lemma scan_scopes:
  assumes "scan d ext = Some d'" and "length upper = d"
  shows "\<exists>upper' a'. foldl scopes_step (upper @ a # r) ext = upper' @ a' # r \<and> length upper' = d'
    \<and> set a \<subseteq> set a'"
  using assms
proof (induction d ext arbitrary: upper a rule: scan.induct)
  case (1 d)
  then show ?case by auto
next
  case (2 d cs)
  from "2.prems" have "scan (Suc d) cs = Some d'" "length ([] # upper) = Suc d" by simp_all
  from "2.IH" [OF this, of a] show ?case by simp
next
  case (3 d cs)
  from "3.prems" obtain d0 where d: "d = Suc d0" and s: "scan d0 cs = Some d'"
    by (auto split: nat.splits)
  with "3.prems" obtain t upper0 where upper: "upper = t # upper0" and l: "length upper0 = d0"
    by (cases upper) auto
  have "scopes_step (upper @ a # r) Solver_pop = upper0 @ a # r"
    by (cases upper0) (simp_all add: upper)
  with "3.IH" [OF d s l, of a] show ?case by simp
next
  case (4 d es cs)
  from "4.prems" obtain d0 where d: "d = Suc d0" and s: "scan d cs = Some d'"
    by (auto split: nat.splits)
  from "4.IH" [OF d s "4.prems"(2), of a] show ?case by simp
next
  case (5 d e cs)
  from "5.prems" have s: "scan d cs = Some d'" by simp
  show ?case
  proof (cases upper)
    case Nil
    with "5.prems" have "length ([] :: smt_expr list list) = d" by simp
    from "5.IH" [OF s this, of "a @ [e]"] Nil show ?thesis by auto
  next
    case (Cons t upper0)
    with "5.prems" have "length ((t @ [e]) # upper0) = d" by simp
    from "5.IH" [OF s this, of a] Cons show ?thesis by simp
  qed
next
  case (6 d cs)
  then show ?case by simp
qed

lemma scan_depth:
  assumes "scan 0 ext = Some d"
  shows "depth (cs @ ext) = depth cs + d"
proof -
  from scopes_nonempty obtain a r where sc: "scopes cs = a # r" by (cases "scopes cs") auto
  from scan_scopes [OF assms, of "[]" a r] sc show ?thesis
    by (auto simp: depth_def scopes_append)
qed

lemma scan_keeps_assertions:
  assumes "scan 0 ext = Some d"
  shows "active_assertions cs \<subseteq> active_assertions (cs @ ext)"
proof -
  from scopes_nonempty obtain a r where sc: "scopes cs = a # r" by (cases "scopes cs") auto
  from scan_scopes [OF assms, of "[]" a r] sc show ?thesis
    by (auto simp: active_assertions_def scopes_append)
qed

lemma scan_prefix:
  "scan d (pre @ post) = Some d' \<Longrightarrow> \<exists>d1. scan d pre = Some d1"
  by (auto simp: scan_append split: option.splits)

lemma scan_before_check:
  "scan d (pre @ Solver_check es # post) = Some d' \<Longrightarrow> \<exists>d1. scan d pre = Some (Suc d1)"
  by (auto simp: scan_append split: option.splits nat.splits)

lemma depth_reset [simp]: "depth (cs @ [Solver_reset]) = 0"
  by (simp add: depth_def scopes_snoc)

section \<open>Root functions\<close>

lemma inside_resetStateVariables: "inside resetStateVariables"
  unfolding resetStateVariables_def by (auto intro!: inside_intros)

lemma inside_initializeLocalVariables: "inside (initializeLocalVariables f)"
  unfolding initializeLocalVariables_def by (auto intro!: inside_intros split: option.splits)

lemma root_function_calls:
  assumes run: "acceptF fd s = Inr (u, s')" and root: "m_functionPath s = []"
  shows "\<exists>ext. calls (m_interface s') = calls (m_interface s) @ Solver_reset # ext
    \<and> well_scoped ext \<and> backend (m_interface s') = backend (m_interface s)
    \<and> m_functionPath s' = []"
proof -
  obtain f mods b where fd: "fd = FunctionDefinition f mods b" by (cases fd)
  define s0 where "s0 = (with_calls (calls (m_interface s) @ [Solver_reset]) ((with_warnings
        (if mods \<noteq> [] \<or> isConstructor f
         then [Warning (Some (fd_location f))
                 ''Assertion checker does not yet support constructors and functions with modifiers.'' []]
         else []) s)\<lparr>m_functionPath := [f]\<rparr>))\<lparr>m_pathConditions := [],
           m_expressions := Map.empty, m_globalContext := [], m_uninterpretedTerms := []\<rparr>"
  define rest where "rest = seq resetStateVariables (seq (initializeLocalVariables f)
      (modify (\<lambda>s. s\<lparr>m_loopExecutionHappened := False, m_arrayAssignmentHappened := False\<rparr>)))"
  have v: "visit_FunctionDefinition f mods s = rest s0"
    using root
    by (simp add: visit_FunctionDefinition_def seq_def bind_def whenM_def warning_def modify_def
        isRootFunction_def gets_def ret_def with_warnings_def with_calls_def s0_def rest_def
        interface_reset_def interface_call_def)
  have ir: "inside rest"
    unfolding rest_def
    by (intro inside_seq inside_resetStateVariables inside_initializeLocalVariables inside_modify)
      simp
  have ib: "inside (seq (acceptEs mods) (case b of None \<Rightarrow> ret () | Some st \<Rightarrow> acceptS st))"
    by (auto intro!: inside_intros inside_accept split: option.splits)
  from run fd v obtain u1 s1 u2 s2 where 1: "rest s0 = Inr (u1, s1)"
    and 2: "seq (acceptEs mods) (case b of None \<Rightarrow> ret () | Some st \<Rightarrow> acceptS st) s1 = Inr (u2, s2)"
    and 3: "endVisit_FunctionDefinition s2 = Inr (u, s')"
    by (auto simp: seq_run)
  have s0: "m_functionPath s0 = [f]" "calls (m_interface s0) = calls (m_interface s) @ [Solver_reset]"
    "backend (m_interface s0) = backend (m_interface s)"
    by (simp_all add: s0_def with_calls_def with_warnings_def)
  have p0: "m_functionPath s0 \<noteq> []" by (simp add: s0)
  from insideD [OF ir 1 p0] have a1: "advances s0 s1" .
  then have p1: "m_functionPath s1 \<noteq> []" using p0 by (simp add: advances_def)
  from insideD [OF ib 2 p1] have "advances s1 s2" .
  with a1 have a2: "advances s0 s2" by (rule advances_trans)
  then obtain ext where ext: "calls (m_interface s2) = calls (m_interface s0) @ ext" "well_scoped ext"
    and b2: "backend (m_interface s2) = backend (m_interface s0)"
    and p2: "m_functionPath s2 = [f]"
    by (auto simp: advances_def extends_def s0)
  from 3 p2 have i': "m_interface s' = m_interface s2" and p': "m_functionPath s' = []"
    by (auto simp: endVisit_FunctionDefinition_def seq_run bind_run whenM_run isRootFunction_def
        removeLocalVariables_def)
  have "calls (m_interface s') = calls (m_interface s) @ Solver_reset # ext"
    using ext(1) by (simp add: i' s0)
  moreover have "backend (m_interface s') = backend (m_interface s)"
    using b2 by (simp add: i' s0)
  ultimately show ?thesis using ext(2) p' by blast
qed


section \<open>Division by zero\<close>

lemma scan_append_Some:
  "scan d a = Some d1 \<Longrightarrow> scan 0 b = Some d2 \<Longrightarrow> scan d (a @ b) = Some (d1 + d2)"
  using scan_shift [of 0 b d2 d1] by (simp add: scan_append)



lemma division_goal_example:
  "m_expressions (entered (function_of [var_a, var_b] [] []) [read_var 6 var_a, read_var 7 var_b]
       (answers [SATISFIABLE])) (node_id (ann (read_var 6 var_a)))
     = Some \<lparr>sv_type = uint8, sv_name = ''expr_6'', sv_index = 0, sv_nextFreeIndex = 1\<rparr>"
  "m_expressions (entered (function_of [var_a, var_b] [] []) [read_var 6 var_a, read_var 7 var_b]
       (answers [SATISFIABLE])) (node_id (ann (read_var 7 var_b)))
     = Some \<lparr>sv_type = uint8, sv_name = ''expr_7'', sv_index = 0, sv_nextFreeIndex = 1\<rparr>"
  "m_functionPath (entered (function_of [var_a, var_b] [] []) [read_var 6 var_a, read_var 7 var_b]
       (answers [SATISFIABLE])) \<noteq> []"
  "returns (arithmeticOperation (node 8 uint8) Token_Div (Some (IntegerType 8 False))
       (read_var 6 var_a) (read_var 7 var_b))
     (entered (function_of [var_a, var_b] [] []) [read_var 6 var_a, read_var 7 var_b]
       (answers [SATISFIABLE]))"
  by code_simp+



section \<open>The term of a condition\<close>

lemma expr_total:
  "\<exists>c s0 v. expr a s = Inr (c, s0) \<and> m_expressions s0 (node_id a) = Some v
     \<and> c = currentValue_of v \<and> noted s s0
     \<and> (m_expressions s (node_id a) \<noteq> None \<longrightarrow> s0 = s)
     \<and> (m_expressions s (node_id a) = None \<longrightarrow>
           c = Smt_Var (''expr_'' @ to_string (node_id a)) 0
         \<and> (\<exists>more. m_errorReporter s0 = m_errorReporter s @
               Warning (Some (node_location a))
                 ''Internal error: Expression undefined for SMT solver.'' [] # more))"
proof (cases "m_expressions s (node_id a)")
  case (Some v)
  from expr_known [OF this] Some show ?thesis by auto
next
  case None
  obtain abstract w where n: "newSymbolicVariable (node_type a) (''expr_'' @ to_string (node_id a))
      = (abstract, w)"
    by (cases "newSymbolicVariable (node_type a) (''expr_'' @ to_string (node_id a))")
  then have w: "sv_name w = ''expr_'' @ to_string (node_id a)" "sv_index w = 0"
    by (auto simp: newSymbolicVariable_def split: if_splits)
  define s0 where "s0 = s\<lparr>m_errorReporter := m_errorReporter s @
        Warning (Some (node_location a)) ''Internal error: Expression undefined for SMT solver.'' [] #
        (if abstract
         then [Warning (Some (node_location a))
                 ''Assertion checker does not yet implement this type.'' []]
         else []),
      m_expressions := (m_expressions s)(node_id a \<mapsto> w)\<rparr>"
  have "expr a s = Inr (currentValue_of w, s0)"
    using None n
    by (cases s)
      (simp add: expr_def createExpr_def knownExpr_def bind_def seq_def gets_def modify_def
        whenM_def warning_def ret_def s0_def)
  moreover have "m_expressions s0 (node_id a) = Some w" by (simp add: s0_def)
  moreover have "noted s s0"
    using None by (simp add: noted_def s0_def loopComment_def)
  moreover have "currentValue_of w = Smt_Var (''expr_'' @ to_string (node_id a)) 0"
    using w by (simp add: currentValue_of_def valueAtIndex_of_def)
  moreover have "\<exists>more. m_errorReporter s0 = m_errorReporter s @
               Warning (Some (node_location a))
                 ''Internal error: Expression undefined for SMT solver.'' [] # more"
    by (simp add: s0_def)
  ultimately show ?thesis using None by auto
qed

lemma with_calls_same: "calls (m_interface s) = cs \<Longrightarrow> with_calls cs s = s"
  by (auto simp: with_calls_def)

lemma with_calls_twice [simp]: "with_calls cs (with_calls cs' s) = with_calls cs s"
  by (simp add: with_calls_def)

text \<open>The check of a condition that was never encoded is the check of the encoded condition,
  after the warning of the encoding.\<close>

lemma checkBooleanNotConstant_encodes:
  assumes "\<not> isLiteral cond"
  shows "\<exists>c s0 v pre.
      checkBooleanNotConstant cond description s = checkBooleanNotConstant cond description s0
    \<and> m_expressions s0 (node_id (ann cond)) = Some v \<and> c = currentValue_of v
    \<and> m_interface s0 = m_interface s \<and> pathCondition s0 = pathCondition s
    \<and> m_errorReporter s0 = m_errorReporter s @ pre
    \<and> (\<forall>v'. m_expressions s (node_id (ann cond)) = Some v' \<longrightarrow> c = currentValue_of v' \<and> pre = [])
    \<and> (m_expressions s (node_id (ann cond)) = None \<longrightarrow>
          c = Smt_Var (''expr_'' @ to_string (node_id (ann cond))) 0
        \<and> (\<exists>more. pre = Warning (Some (node_location (ann cond)))
              ''Internal error: Expression undefined for SMT solver.'' [] # more))"
proof -
  define s1 where "s1 = with_calls (calls (m_interface s) @ [Solver_push]) s"
  have push: "interface_push s = Inr ((), s1)"
    by (simp add: interface_push_def interface_call_def modify_def s1_def with_calls_def)
  obtain c s2 v where
    e: "expr (ann cond) s1 = Inr (c, s2)" and k2: "m_expressions s2 (node_id (ann cond)) = Some v"
    and c: "c = currentValue_of v" and n: "noted s1 s2"
    and kn: "m_expressions s1 (node_id (ann cond)) \<noteq> None \<longrightarrow> s2 = s1"
    and un: "m_expressions s1 (node_id (ann cond)) = None \<longrightarrow>
           c = Smt_Var (''expr_'' @ to_string (node_id (ann cond))) 0
         \<and> (\<exists>more. m_errorReporter s2 = m_errorReporter s1 @
               Warning (Some (node_location (ann cond)))
                 ''Internal error: Expression undefined for SMT solver.'' [] # more)"
    using expr_total [of "ann cond" s1] by (elim exE conjE) (rule that, assumption+)
  define s0 where "s0 = with_calls (calls (m_interface s)) s2"
  from n obtain pre where pre: "m_errorReporter s2 = m_errorReporter s1 @ pre"
    by (auto simp: noted_def)
  have i2: "m_interface s2 = m_interface s1" using n by (simp add: noted_def)
  have c2: "calls (m_interface s2) = calls (m_interface s) @ [Solver_push]"
    by (simp add: i2 s1_def with_calls_def)
  have push0: "interface_push s0 = Inr ((), s2)"
  proof -
    have "interface_push s0 = Inr ((), with_calls (calls (m_interface s) @ [Solver_push]) s0)"
      by (simp add: interface_push_def interface_call_def modify_def with_calls_def s0_def)
    also have "with_calls (calls (m_interface s) @ [Solver_push]) s0 = s2"
      by (simp add: s0_def with_calls_same [OF c2])
    finally show ?thesis .
  qed
  have e2: "expr (ann cond) s2 = Inr (c, s2)"
    using expr_known [OF k2] c by simp
  have eq: "checkBooleanNotConstant cond description s = checkBooleanNotConstant cond description s0"
    using assms push push0 e e2
    by (simp add: checkBooleanNotConstant_unfold seq_def bind_def)
  have k0: "m_expressions s0 (node_id (ann cond)) = Some v"
    using k2 by (simp add: s0_def with_calls_def)
  have i0: "m_interface s0 = m_interface s"
    using i2 by (cases s) (simp add: s0_def s1_def with_calls_def)
  have p0: "pathCondition s0 = pathCondition s"
    using n by (simp add: s0_def s1_def with_calls_def pathCondition_def noted_def)
  have w0: "m_errorReporter s0 = m_errorReporter s @ pre"
    using pre by (simp add: s0_def s1_def with_calls_def)
  have m1: "m_expressions s1 = m_expressions s" by (simp add: s1_def with_calls_def)
  have known: "c = currentValue_of v' \<and> pre = []"
    if "m_expressions s (node_id (ann cond)) = Some v'" for v'
  proof -
    from that kn m1 have "s2 = s1" by simp
    with pre k2 that m1 c show ?thesis by simp
  qed
  have unknown: "c = Smt_Var (''expr_'' @ to_string (node_id (ann cond))) 0
        \<and> (\<exists>more. pre = Warning (Some (node_location (ann cond)))
              ''Internal error: Expression undefined for SMT solver.'' [] # more)"
    if "m_expressions s (node_id (ann cond)) = None"
    using un that m1 pre by auto
  have known': "\<forall>v'. m_expressions s (node_id (ann cond)) = Some v' \<longrightarrow>
      c = currentValue_of v' \<and> pre = []"
    using known by simp
  have unknown': "m_expressions s (node_id (ann cond)) = None \<longrightarrow>
          c = Smt_Var (''expr_'' @ to_string (node_id (ann cond))) 0
        \<and> (\<exists>more. pre = Warning (Some (node_location (ann cond)))
              ''Internal error: Expression undefined for SMT solver.'' [] # more)"
    using unknown by simp
  show ?thesis
    by (rule exI [of _ c], rule exI [of _ s0], rule exI [of _ v], rule exI [of _ pre])
      (intro conjI eq k0 c i0 p0 w0 known' unknown')
qed



lemma replace_value_true:
  "replace_all ''Condition is always $VALUE.'' ''$VALUE'' ''true'' = ''Condition is always true.''"
  by code_simp

lemma example_condition_known:
  "m_expressions (in_function (answers [SATISFIABLE, UNSATISFIABLE])) (node_id (ann x_gt_y))
     = Some \<lparr>sv_type = BoolType, sv_name = ''expr_5'', sv_index = 0, sv_nextFreeIndex = 1\<rparr>"
  by code_simp

lemma example_condition_results:
  "result_of (backend (m_interface (in_function (answers [SATISFIABLE, UNSATISFIABLE])))
     (calls (m_interface (in_function (answers [SATISFIABLE, UNSATISFIABLE]))) @
       [Solver_push,
        Solver_addAssertion (Smt_And (pathCondition (in_function (answers [SATISFIABLE, UNSATISFIABLE])))
          (Smt_Var ''expr_5'' 0)),
        Solver_check []])) = SATISFIABLE"
  "result_of (backend (m_interface (in_function (answers [SATISFIABLE, UNSATISFIABLE])))
     (calls (m_interface (in_function (answers [SATISFIABLE, UNSATISFIABLE]))) @
       [Solver_push,
        Solver_addAssertion (Smt_And (pathCondition (in_function (answers [SATISFIABLE, UNSATISFIABLE])))
          (Smt_Var ''expr_5'' 0)),
        Solver_check [], Solver_pop, Solver_push,
        Solver_addAssertion (Smt_And (pathCondition (in_function (answers [SATISFIABLE, UNSATISFIABLE])))
          (Smt_Not (Smt_Var ''expr_5'' 0))),
        Solver_check []])) = UNSATISFIABLE"
  "m_errorReporter (in_function (answers [SATISFIABLE, UNSATISFIABLE])) = []"
  by code_simp+

lemma example_condition_unknown:
  "m_expressions (at_body (answers [SATISFIABLE, SATISFIABLE])) (node_id (ann x_gt_y)) = None"
  "to_string (node_id (ann x_gt_y)) = ''5''"
  "result_of (backend (m_interface (at_body (answers [SATISFIABLE, SATISFIABLE])))
     (calls (m_interface (at_body (answers [SATISFIABLE, SATISFIABLE]))) @
       [Solver_push,
        Solver_addAssertion (Smt_And (pathCondition (at_body (answers [SATISFIABLE, SATISFIABLE])))
          (Smt_Var ''expr_5'' 0)),
        Solver_check []])) = SATISFIABLE"
  "result_of (backend (m_interface (at_body (answers [SATISFIABLE, SATISFIABLE])))
     (calls (m_interface (at_body (answers [SATISFIABLE, SATISFIABLE]))) @
       [Solver_push,
        Solver_addAssertion (Smt_And (pathCondition (at_body (answers [SATISFIABLE, SATISFIABLE])))
          (Smt_Var ''expr_5'' 0)),
        Solver_check [], Solver_pop, Solver_push,
        Solver_addAssertion (Smt_And (pathCondition (at_body (answers [SATISFIABLE, SATISFIABLE])))
          (Smt_Not (Smt_Var ''expr_5'' 0))),
        Solver_check []])) = SATISFIABLE"
  "m_errorReporter (at_body (answers [SATISFIABLE, SATISFIABLE])) = []"
  by code_simp+




end
